(* ===== verification/GoBase.thy ===== *)
theory GoBase
  imports Complex_Main "HOL-Library.Word"
begin

text \<open>
  The prelude of the development: the Go values the code computes with (machine integers,
  byte slices, strings), the outcome of a Go call (a value, an error or a panic) with its
  sequencing operator, the big-endian accessors of \<^verbatim>\<open>encoding/binary\<close>, and the generic lemmas
  on lists, options and words that the component theories share.
\<close>

unbundle bit_operations_syntax

named_theorems go_simps \<open>sequencing of Go calls, slice and index expressions\<close>
named_theorems wire_simps \<open>lengths and round trips of byte-level encodings\<close>

section \<open>Values\<close>

type_synonym byte = "8 word"
type_synonym uint8 = "8 word"
type_synonym uint16 = "16 word"
type_synonym uint32 = "32 word"
type_synonym int32 = "32 word"
type_synonym int64 = "64 word"

text \<open>A Go string is an immutable sequence of bytes.\<close>

type_synonym gostring = "8 word list"

definition go_str :: "string \<Rightarrow> gostring" where
  "go_str s = map of_char s"

section \<open>Outcomes of a call\<close>

text \<open>
  A Go call returns its value, returns an error, or panics. \<^verbatim>\<open>if err != nil { return err }\<close>
  and the propagation of a panic are \<open>go_bind\<close>. \<open>ProcessCrash p\<close> stands for a panic in a goroutine that no
  function on its own stack recovers: it ends the process, and no other goroutine can recover it.
\<close>

datatype go_panic =
    IndexOutOfRange
  | SliceOutOfRange
  | NilDereference
  | TypeAssertionFailed
  | SendOnClosedChannel
  | CloseOfClosedChannel
  | MakeChanSize
  | HandlerPanic nat
  | ProcessCrash go_panic

datatype ('e, 'a) go =
    Ok 'a
  | Err 'e
  | Panic go_panic

fun go_bind :: "('e, 'a) go \<Rightarrow> ('a \<Rightarrow> ('e, 'b) go) \<Rightarrow> ('e, 'b) go" where
  "go_bind (Ok x) f = f x"
| "go_bind (Err e) f = Err e"
| "go_bind (Panic p) f = Panic p"

text \<open>A call is safe when it does not panic.\<close>

fun safe :: "('e, 'a) go \<Rightarrow> bool" where
  "safe (Panic p) = False"
| "safe (Ok x) = True"
| "safe (Err e) = True"

lemma go_bind_Ok_iff [go_simps]:
  "go_bind m f = Ok y \<longleftrightarrow> (\<exists>x. m = Ok x \<and> f x = Ok y)"
  by (cases m) auto

lemma go_bind_assoc [go_simps]:
  "go_bind (go_bind m f) g = go_bind m (\<lambda>x. go_bind (f x) g)"
  by (cases m) auto

lemma go_bind_Ok_right [simp]: "go_bind m Ok = m"
  by (cases m) auto

lemma safe_go_bind_Ok [simp]: "safe (go_bind m (\<lambda>x. Ok (f x))) = safe m"
  by (cases m) auto

lemma safe_go_bindI:
  "safe m \<Longrightarrow> (\<And>x. m = Ok x \<Longrightarrow> safe (f x)) \<Longrightarrow> safe (go_bind m f)"
  by (cases m) auto

section \<open>Index and slice expressions\<close>

text \<open>
  \<^verbatim>\<open>s[i]\<close> panics outside the slice. \<^verbatim>\<open>s[a:b]\<close> is modelled with the length as its upper
  bound: Go allows \<^verbatim>\<open>b\<close> up to the capacity, so code that does not panic here neither panics
  in Go nor reads past the length.
\<close>

definition go_index :: "'a list \<Rightarrow> nat \<Rightarrow> ('e, 'a) go" where
  "go_index xs i = (if i < length xs then Ok (xs ! i) else Panic IndexOutOfRange)"

definition go_slice :: "'a list \<Rightarrow> nat \<Rightarrow> nat \<Rightarrow> ('e, 'a list) go" where
  "go_slice xs a b =
     (if a \<le> b \<and> b \<le> length xs then Ok (take (b - a) (drop a xs)) else Panic SliceOutOfRange)"

lemma go_index_Ok [go_simps, simp]: "i < length xs \<Longrightarrow> go_index xs i = Ok (xs ! i)"
  by (simp add: go_index_def)

lemma go_slice_Ok [go_simps, simp]:
  "a \<le> b \<Longrightarrow> b \<le> length xs \<Longrightarrow> go_slice xs a b = Ok (take (b - a) (drop a xs))"
  by (simp add: go_slice_def)

lemma list_first_inner_last:
  assumes "2 \<le> length xs"
  shows "xs = [hd xs] @ butlast (tl xs) @ [last xs]"
proof (cases xs)
  case (Cons a ys)
  with assms have "ys \<noteq> []" by auto
  then have "butlast ys @ [last ys] = ys" by simp
  with Cons \<open>ys \<noteq> []\<close> show ?thesis by simp
qed (use assms in simp)

section \<open>\<^verbatim>\<open>encoding/binary\<close>, big endian\<close>

definition u16_be :: "byte \<Rightarrow> byte \<Rightarrow> uint16" where
  "u16_be a b = push_bit 8 (ucast a) OR ucast b"

definition u32_be :: "byte \<Rightarrow> byte \<Rightarrow> byte \<Rightarrow> byte \<Rightarrow> uint32" where
  "u32_be a b c d =
     push_bit 24 (ucast a) OR push_bit 16 (ucast b) OR push_bit 8 (ucast c) OR ucast d"

definition put_u16 :: "uint16 \<Rightarrow> byte list" where
  "put_u16 w = [ucast (drop_bit 8 w), ucast w]"

definition put_u32 :: "uint32 \<Rightarrow> byte list" where
  "put_u32 w = [ucast (drop_bit 24 w), ucast (drop_bit 16 w), ucast (drop_bit 8 w), ucast w]"

text \<open>\<^verbatim>\<open>BigEndian.Uint16\<close> and \<^verbatim>\<open>BigEndian.Uint32\<close> index their argument and panic on a short one.\<close>

fun be_uint16 :: "byte list \<Rightarrow> ('e, uint16) go" where
  "be_uint16 (a # b # bs) = Ok (u16_be a b)"
| "be_uint16 bs = Panic IndexOutOfRange"

fun be_uint32 :: "byte list \<Rightarrow> ('e, uint32) go" where
  "be_uint32 (a # b # c # d # bs) = Ok (u32_be a b c d)"
| "be_uint32 bs = Panic IndexOutOfRange"

lemma byte_bit_beyond: "8 \<le> n \<Longrightarrow> \<not> bit (b :: byte) n"
  using bit_imp_le_length [of b n] by auto

lemma length_put_u16 [wire_simps, simp]: "length (put_u16 w) = 2"
  by (simp add: put_u16_def)

lemma length_put_u32 [wire_simps, simp]: "length (put_u32 w) = 4"
  by (simp add: put_u32_def)

lemma u16_be_put [wire_simps, simp]: "u16_be (ucast (drop_bit 8 w)) (ucast w) = w"
  unfolding u16_be_def
  by (rule bit_eqI) (auto simp: bit_simps)

lemma u32_be_put [wire_simps, simp]:
  "u32_be (ucast (drop_bit 24 w)) (ucast (drop_bit 16 w)) (ucast (drop_bit 8 w)) (ucast w) = w"
  unfolding u32_be_def
proof (rule bit_eqI)
  fix n
  assume "possible_bit TYPE(uint32) n"
  then consider "n < 8" | "8 \<le> n" "n < 16" | "16 \<le> n" "n < 24" | "24 \<le> n" "n < 32"
    by fastforce
  then show "bit (push_bit 24 (ucast (ucast (drop_bit 24 w) :: byte))
      OR push_bit 16 (ucast (ucast (drop_bit 16 w) :: byte))
      OR push_bit 8 (ucast (ucast (drop_bit 8 w) :: byte)) OR ucast (ucast w :: byte) :: uint32) n
    = bit w n"
    by cases (auto simp: bit_simps)
qed

lemma be_uint16_put [wire_simps, simp]: "be_uint16 (put_u16 w @ bs) = Ok w"
  by (simp add: put_u16_def)

lemma be_uint32_put [wire_simps, simp]: "be_uint32 (put_u32 w @ bs) = Ok w"
  by (simp add: put_u32_def)

lemma put_u16_u16_be [wire_simps, simp]: "put_u16 (u16_be a b) = [a, b]"
  unfolding put_u16_def u16_be_def
  by (auto intro!: bit_eqI simp: bit_simps byte_bit_beyond)

lemma put_u32_u32_be [wire_simps, simp]: "put_u32 (u32_be a b c d) = [a, b, c, d]"
  unfolding put_u32_def u32_be_def
  by (auto intro!: bit_eqI simp: bit_simps byte_bit_beyond)

section \<open>Exclusive or\<close>

lemma xor_left_cancel [simp]: "a XOR (a XOR b) = (b :: 'a::len word)"
  by (simp flip: xor.assoc)

lemma xor_eq_iff [simp]: "a XOR b = a XOR c \<longleftrightarrow> b = (c :: 'a::len word)"
  by (metis xor_left_cancel)

lemma xor_eq_self_iff [simp]: "a XOR b = a \<longleftrightarrow> b = (0 :: 'a::len word)"
  using xor_eq_iff [of a b 0] by simp

lemma xor_eq_0_iff [simp]: "a XOR b = 0 \<longleftrightarrow> b = (a :: 'a::len word)"
  using xor_eq_iff [of a b a] by simp

end
