(* ===== verification/Float64.thy ===== *)
theory Float64
  imports GoBase "HOL-Library.Log_Nat"
begin

text \<open>
  Go's \<^verbatim>\<open>float64\<close>, as far as the program uses it. A finite double is the rational it
  denotes, and an arithmetic operation is the exact operation followed by rounding to the
  nearest 53-bit significand, ties to even (IEEE 754 binary64). The exponent is unbounded
  here: every value the program computes (coordinates below 43000, token counts, queue
  usage, seconds) is far from overflow and from the subnormal range, where this function and
  the hardware agree.

  The contract that the clients use (monotone, exact on integers up to \<open>2^53\<close>, relative
  error at most \<open>2^-53\<close>) is the locale \<open>rounding\<close>; \<open>f64\<close> is its interpretation on the
  executable rounding function.
\<close>

type_synonym float64 = rat

section \<open>Round half to even on rationals\<close>

definition round_half_even :: "rat \<Rightarrow> int" where
  "round_half_even q =
     (let f = \<lfloor>q\<rfloor>; r = q - of_int f
      in if r < 1 / 2 then f else if 1 / 2 < r then f + 1 else if even f then f else f + 1)"

lemma round_half_even_of_int [simp]: "round_half_even (of_int n) = n"
  by (simp add: round_half_even_def Let_def)

lemma round_half_even_bounds: "\<lfloor>q\<rfloor> \<le> round_half_even q \<and> round_half_even q \<le> \<lfloor>q\<rfloor> + 1"
  by (simp add: round_half_even_def Let_def)

lemma round_half_even_error: "\<bar>of_int (round_half_even q) - q\<bar> \<le> 1 / 2"
proof -
  have fl: "of_int \<lfloor>q\<rfloor> \<le> q" "q < of_int \<lfloor>q\<rfloor> + 1"
    by linarith+
  consider "round_half_even q = \<lfloor>q\<rfloor>" "q - of_int \<lfloor>q\<rfloor> \<le> 1 / 2"
    | "round_half_even q = \<lfloor>q\<rfloor> + 1" "1 / 2 \<le> q - of_int \<lfloor>q\<rfloor>"
    by (fastforce simp: round_half_even_def Let_def split: if_splits)
  then show ?thesis
  proof cases
    case 1
    then show ?thesis unfolding 1(1) abs_le_iff using fl by linarith
  next
    case 2
    then show ?thesis unfolding 2(1) abs_le_iff using fl by simp
  qed
qed

lemma round_half_even_mono:
  assumes "p \<le> q"
  shows "round_half_even p \<le> round_half_even q"
proof (cases "\<lfloor>p\<rfloor> = \<lfloor>q\<rfloor>")
  case True
  with assms show ?thesis
    by (auto simp: round_half_even_def Let_def)
next
  case False
  with assms have "\<lfloor>p\<rfloor> + 1 \<le> \<lfloor>q\<rfloor>"
    using floor_mono [OF assms] by simp
  with round_half_even_bounds [of p] round_half_even_bounds [of q] show ?thesis
    by linarith
qed

section \<open>The exponent of a positive rational\<close>

text \<open>
  \<open>f64_exp x\<close> is the weight of the last significand bit: \<open>2^52 \<le> x / 2^e < 2^53\<close>. It is
  read off the bit lengths of numerator and denominator and corrected by one comparison.
\<close>

definition f64_exp :: "rat \<Rightarrow> int" where
  "f64_exp x =
     (let (n, d) = quotient_of x;
          e = int (floorlog 2 (nat n)) - int (floorlog 2 (nat d))
      in if 2 powi e \<le> x then e - 52 else e - 53)"

lemma floorlog2_bounds:
  assumes "0 < n"
  shows "2 powi (int (floorlog 2 n) - 1) \<le> (of_nat n :: rat)"
    and "(of_nat n :: rat) < 2 powi (int (floorlog 2 n))"
proof -
  have pos: "0 < floorlog 2 n"
    using assms by (simp add: floorlog_def)
  have lo: "2 ^ (floorlog 2 n - 1) \<le> n" and hi: "n < 2 ^ floorlog 2 n"
    using floorlog_bounds [of n 2] assms by simp_all
  have "int (floorlog 2 n) - 1 = int (floorlog 2 n - 1)"
    using pos by simp
  then have "(2::rat) powi (int (floorlog 2 n) - 1) = of_nat (2 ^ (floorlog 2 n - 1))"
    by (simp only: power_int_of_nat) simp
  also have "\<dots> \<le> of_nat n"
    using lo by (simp only: of_nat_le_iff)
  finally show "2 powi (int (floorlog 2 n) - 1) \<le> (of_nat n :: rat)" .
  have "(of_nat n :: rat) < of_nat (2 ^ floorlog 2 n)"
    using hi by (simp only: of_nat_less_iff)
  then show "(of_nat n :: rat) < 2 powi (int (floorlog 2 n))"
    by simp
qed

lemma f64_exp_bounds:
  assumes "0 < x"
  shows "2 ^ 52 * 2 powi (f64_exp x) \<le> x" and "x < 2 ^ 53 * 2 powi (f64_exp x)"
proof -
  obtain n d where nd: "quotient_of x = (n, d)" by (cases "quotient_of x")
  have d: "0 < d" using nd by (rule quotient_of_denom_pos)
  have x: "x = of_int n / of_int d" using nd by (rule quotient_of_div)
  with assms d have n: "0 < n"
    by (simp add: zero_less_divide_iff)
  define a where "a = int (floorlog 2 (nat n))"
  define b where "b = int (floorlog 2 (nat d))"
  have nn: "(of_nat (nat n) :: rat) = of_int n" "(of_nat (nat d) :: rat) = of_int d"
    using n d by simp_all
  have na: "2 powi (a - 1) \<le> (of_int n :: rat)" "(of_int n :: rat) < 2 powi a"
    using floorlog2_bounds [of "nat n"] n unfolding a_def nn by simp_all
  have db: "2 powi (b - 1) \<le> (of_int d :: rat)" "(of_int d :: rat) < 2 powi b"
    using floorlog2_bounds [of "nat d"] d unfolding b_def nn by simp_all
  have "2 powi (a - b - 1) * (of_int d :: rat) \<le> 2 powi (a - b - 1) * 2 powi b"
    using db by (intro mult_left_mono) simp_all
  also have "\<dots> = 2 powi (a - 1)"
    by (simp flip: power_int_add)
  finally have lo: "2 powi (a - b - 1) \<le> x"
    using na d unfolding x by (simp add: pos_le_divide_eq)
  have "2 powi a = (2::rat) powi (a - b + 1) * 2 powi (b - 1)"
    by (simp flip: power_int_add)
  also have "\<dots> \<le> 2 powi (a - b + 1) * of_int d"
    using db by (intro mult_left_mono) simp_all
  finally have hi: "x < 2 powi (a - b + 1)"
    using na d unfolding x by (simp add: pos_divide_less_eq)
  have e: "f64_exp x = (if 2 powi (a - b) \<le> x then a - b - 52 else a - b - 53)"
    by (simp add: f64_exp_def nd a_def b_def)
  have shift52: "2 ^ 52 * 2 powi (k - 52) = (2::rat) powi k" for k
    using power_int_add [of "2::rat" "52" "k - 52"] by (simp add: power_int_numeral)
  have shift53: "2 ^ 53 * 2 powi (k - 53) = (2::rat) powi k" for k
    using power_int_add [of "2::rat" "53" "k - 53"] by (simp add: power_int_numeral)
  show "2 ^ 52 * 2 powi (f64_exp x) \<le> x"
    using lo shift52 [of "a - b"] shift52 [of "a - b - 1"] by (simp add: e)
  show "x < 2 ^ 53 * 2 powi (f64_exp x)"
    using hi shift53 [of "a - b + 1"] shift53 [of "a - b"] by (simp add: e)
qed


section \<open>Rounding to a double\<close>

definition f64_pos :: "rat \<Rightarrow> float64" where
  "f64_pos x = of_int (round_half_even (x / 2 powi (f64_exp x))) * 2 powi (f64_exp x)"

definition f64 :: "rat \<Rightarrow> float64" where
  "f64 x = (if x = 0 then 0 else if 0 < x then f64_pos x else - f64_pos (- x))"

lemma f64_pos_bounds:
  assumes "0 < x"
  shows "2 ^ 52 * 2 powi (f64_exp x) \<le> f64_pos x" and "f64_pos x \<le> 2 ^ 53 * 2 powi (f64_exp x)"
proof -
  define y where "y = x / 2 powi (f64_exp x)"
  have "of_int (2 ^ 52) \<le> y" and "y \<le> of_int (2 ^ 53)"
    using f64_exp_bounds [OF assms] by (simp_all add: y_def pos_le_divide_eq pos_divide_le_eq)
  then have "2 ^ 52 \<le> round_half_even y" and "round_half_even y \<le> 2 ^ 53"
    using round_half_even_mono [of "of_int (2 ^ 52)" y] round_half_even_mono [of y "of_int (2 ^ 53)"]
    by (simp_all only: round_half_even_of_int)
  then have "(of_int (2 ^ 52) :: rat) \<le> of_int (round_half_even y)"
    and "of_int (round_half_even y) \<le> (of_int (2 ^ 53) :: rat)"
    by (simp_all only: of_int_le_iff)
  then show "2 ^ 52 * 2 powi (f64_exp x) \<le> f64_pos x"
    and "f64_pos x \<le> 2 ^ 53 * 2 powi (f64_exp x)"
    by (simp_all add: f64_pos_def flip: y_def)
qed

lemma f64_pos_error:
  assumes "0 < x"
  shows "\<bar>f64_pos x - x\<bar> \<le> x / 2 ^ 53"
proof -
  define u where "u = (2::rat) powi (f64_exp x)"
  define r where "r = (of_int (round_half_even (x / u)) :: rat)"
  have u: "0 < u" by (simp add: u_def)
  have "\<bar>r - x / u\<bar> \<le> 1 / 2"
    using round_half_even_error [of "x / u"] by (simp add: r_def)
  then have "\<bar>r - x / u\<bar> * u \<le> 1 / 2 * u"
    using u by (intro mult_right_mono) simp_all
  moreover have "\<bar>r - x / u\<bar> * u = \<bar>r * u - x\<bar>"
    using u by (simp add: left_diff_distrib abs_mult_pos)
  moreover have "2 ^ 52 * u \<le> x"
    using f64_exp_bounds [OF assms] by (simp add: u_def)
  moreover have "f64_pos x = r * u"
    by (simp add: f64_pos_def u_def r_def)
  ultimately show ?thesis
    by simp
qed

lemma f64_exp_mono:
  assumes "0 < x" and "x \<le> y"
  shows "f64_exp x \<le> f64_exp y"
proof -
  have "2 ^ 52 * 2 powi (f64_exp x) < (2 ^ 53 * 2 powi (f64_exp y) :: rat)"
    using f64_exp_bounds(1) [of x] f64_exp_bounds(2) [of y] assms by linarith
  then have "(2::rat) powi (f64_exp x) < 2 powi (f64_exp y + 1)"
    by (simp add: power_int_add)
  then show ?thesis
    using power_int_increasing [of "f64_exp y + 1" "f64_exp x" "2::rat"] by linarith
qed

lemma f64_pos_mono:
  assumes "0 < x" and "x \<le> y"
  shows "f64_pos x \<le> f64_pos y"
proof (cases "f64_exp x = f64_exp y")
  case True
  have "x / 2 powi (f64_exp y) \<le> y / 2 powi (f64_exp y)"
    using assms by (intro divide_right_mono) simp_all
  then have "round_half_even (x / 2 powi (f64_exp y)) \<le> round_half_even (y / 2 powi (f64_exp y))"
    by (rule round_half_even_mono)
  then show ?thesis
    by (simp add: f64_pos_def True)
next
  case False
  with f64_exp_mono [OF assms] have "f64_exp x + 1 \<le> f64_exp y"
    by simp
  then have "(2::rat) powi (f64_exp x + 1) \<le> 2 powi (f64_exp y)"
    by (intro power_int_increasing) simp_all
  then have "(2::rat) ^ 53 * 2 powi (f64_exp x) \<le> 2 ^ 52 * 2 powi (f64_exp y)"
    by (simp add: power_int_add)
  with f64_pos_bounds(2) [of x] f64_pos_bounds(1) [of y] assms show ?thesis
    by linarith
qed

lemma f64_pos_of_int:
  assumes "0 < n" and "n \<le> 2 ^ 53"
  shows "f64_pos (of_int n) = of_int n"
proof -
  define e where "e = f64_exp (of_int n)"
  have lo: "2 ^ 52 * 2 powi e \<le> (of_int n :: rat)"
    using f64_exp_bounds(1) [of "of_int n"] assms by (simp add: e_def)
  have "\<exists>k::int. (of_int n :: rat) / 2 powi e = of_int k"
  proof (cases "e \<le> 0")
    case True
    then obtain k where "e = - int k"
      using nonpos_int_cases by blast
    then have "(of_int n :: rat) / 2 powi e = of_int (n * 2 ^ k)"
      by (simp add: power_int_minus divide_inverse)
    then show ?thesis by blast
  next
    case False
    then have "(2::rat) powi 1 \<le> 2 powi e"
      by (intro power_int_increasing) linarith+
    then have "(2::rat) ^ 53 \<le> of_int n"
      using lo by simp
    then have "(of_int (2 ^ 53) :: rat) \<le> of_int n"
      by simp
    then have n: "n = 2 ^ 53"
      using assms by (simp only: of_int_le_iff)
    from lo have "(2::rat) powi e \<le> 2 powi 1"
      by (simp add: n)
    then have "e \<le> 1"
      using power_int_le_imp_le_exp [of "2::rat" e 1] by simp
    with False have "e = 1" by simp
    then have "(of_int n :: rat) / 2 powi e = of_int (2 ^ 52)"
      by (simp add: n)
    then show ?thesis by blast
  qed
  then show ?thesis
    by (auto simp: f64_pos_def e_def [symmetric] round_half_even_of_int field_simps)
qed


text \<open>The operations the program uses: conversion from an integer, \<^verbatim>\<open>+ - * /\<close>.\<close>

definition f64_of_int :: "int \<Rightarrow> float64" where
  "f64_of_int n = f64 (of_int n)"

definition f64_add :: "float64 \<Rightarrow> float64 \<Rightarrow> float64" where
  "f64_add a b = f64 (a + b)"

definition f64_sub :: "float64 \<Rightarrow> float64 \<Rightarrow> float64" where
  "f64_sub a b = f64 (a - b)"

definition f64_mul :: "float64 \<Rightarrow> float64 \<Rightarrow> float64" where
  "f64_mul a b = f64 (a * b)"

definition f64_div :: "float64 \<Rightarrow> float64 \<Rightarrow> float64" where
  "f64_div a b = f64 (a / b)"

section \<open>The contract of rounding\<close>

locale rounding =
  fixes rnd :: "rat \<Rightarrow> rat"
  assumes rnd_mono: "x \<le> y \<Longrightarrow> rnd x \<le> rnd y"
    and rnd_of_int: "\<bar>n\<bar> \<le> 2 ^ 53 \<Longrightarrow> rnd (of_int n) = of_int n"
    and rnd_error: "\<bar>rnd x - x\<bar> \<le> \<bar>x\<bar> / 2 ^ 53"
begin

lemma rnd_0 [simp]: "rnd 0 = 0"
  using rnd_of_int [of 0] by simp

lemma rnd_1 [simp]: "rnd 1 = 1"
  using rnd_of_int [of 1] by simp

lemma rnd_ge_int: "of_int n \<le> x \<Longrightarrow> \<bar>n\<bar> \<le> 2 ^ 53 \<Longrightarrow> of_int n \<le> rnd x"
  using rnd_mono [of "of_int n" x] by (simp add: rnd_of_int)

lemma rnd_le_int: "x \<le> of_int n \<Longrightarrow> \<bar>n\<bar> \<le> 2 ^ 53 \<Longrightarrow> rnd x \<le> of_int n"
  using rnd_mono [of x "of_int n"] by (simp add: rnd_of_int)

lemma rnd_nonneg: "0 \<le> x \<Longrightarrow> 0 \<le> rnd x"
  using rnd_ge_int [of 0 x] by simp

text \<open>
  Fixed-point values on a grid of step \<open>1/d\<close> survive the rounding: the grid index can be read
  back from the double by multiplying and rounding to the nearest integer.
\<close>

lemma rnd_grid_error:
  assumes "0 < d" and "0 \<le> n" and "n < 2 ^ 52"
  shows "\<bar>rnd (of_int n / of_int d) * of_int d - of_int n\<bar> < 1 / 2"
proof -
  define x where "x = (of_int n / of_int d :: rat)"
  have d: "(0::rat) < of_int d" using assms by simp
  have "\<bar>rnd x - x\<bar> * of_int d \<le> \<bar>x\<bar> / 2 ^ 53 * of_int d"
    using rnd_error [of x] d by (intro mult_right_mono) simp_all
  moreover have "\<bar>rnd x - x\<bar> * of_int d = \<bar>rnd x * of_int d - of_int n\<bar>"
    using d by (simp add: abs_mult_pos left_diff_distrib x_def)
  moreover have "\<bar>x\<bar> / 2 ^ 53 * of_int d = of_int n / 2 ^ 53"
    using d assms by (simp add: x_def)
  moreover have "(of_int n :: rat) < of_int (2 ^ 52)"
    using assms by (simp only: of_int_less_iff)
  ultimately show ?thesis
    by (simp add: x_def)
qed

lemma rnd_grid_recover:
  assumes "0 < d" and "0 \<le> n" and "n < 2 ^ 52"
  shows "round (rnd (of_int n / of_int d) * of_int d) = n"
  using rnd_grid_error [OF assms] by (intro round_unique') simp

lemma rnd_grid_less_iff:
  assumes "0 < d" and "0 \<le> m" "m < 2 ^ 52" and "0 \<le> n" "n < 2 ^ 52"
  shows "rnd (of_int m / of_int d) < rnd (of_int n / of_int d) \<longleftrightarrow> m < n"
proof -
  have mono: "rnd (of_int i / of_int d) \<le> rnd (of_int j / of_int d)" if "i \<le> j" for i j :: int
    using that assms(1) by (intro rnd_mono divide_right_mono) simp_all
  have "rnd (of_int m / of_int d) \<noteq> rnd (of_int n / of_int d)" if "m \<noteq> n"
    using rnd_grid_recover [OF assms(1) assms(2,3)] rnd_grid_recover [OF assms(1) assms(4,5)] that
    by metis
  with mono [of m n] mono [of n m] show ?thesis
    by force
qed

end

lemma f64_nonneg: "0 \<le> x \<Longrightarrow> f64 x = (if x = 0 then 0 else f64_pos x)"
  by (simp add: f64_def)

lemma f64_mono:
  assumes "x \<le> y"
  shows "f64 x \<le> f64 y"
proof -
  have pos: "0 < f64_pos z" if "0 < z" for z
    using f64_pos_bounds(1) [OF that] by (rule less_le_trans [rotated]) simp
  consider "0 < x" | "x \<le> 0" "0 \<le> y" | "y < 0" by linarith
  then show ?thesis
  proof cases
    case 1
    with assms show ?thesis by (simp add: f64_def f64_pos_mono)
  next
    case 2
    with pos [of y] pos [of "- x"] show ?thesis by (auto simp: f64_def)
  next
    case 3
    with assms show ?thesis by (simp add: f64_def f64_pos_mono)
  qed
qed

lemma f64_error: "\<bar>f64 x - x\<bar> \<le> \<bar>x\<bar> / 2 ^ 53"
  using f64_pos_error [of x] f64_pos_error [of "- x"] by (auto simp: f64_def abs_if split: if_splits)

lemma f64_of_int_exact: "\<bar>n\<bar> \<le> 2 ^ 53 \<Longrightarrow> f64 (of_int n) = of_int n"
  using f64_pos_of_int [of n] f64_pos_of_int [of "- n"] by (simp add: f64_def)

interpretation fl: rounding f64
  by unfold_locales (fact f64_mono f64_of_int_exact f64_error)+

end
