(* ===== verification/CoreTypes.thy ===== *)
theory CoreTypes
  imports Float64
begin

text \<open>
  \<^verbatim>\<open>core/interface.go\<close>: the message model (\<^verbatim>\<open>Message\<close>, \<^verbatim>\<open>MessageHeader\<close>), the parsed bodies
  (\<^verbatim>\<open>LocationReport\<close>, \<^verbatim>\<open>TerminalRegister\<close>, \<^verbatim>\<open>AlarmReport\<close>), the device status, the dynamic values a
  connection stores as attributes, and the errors the SDK's functions return, one constructor
  per place of the source that makes one.

  A pointer that may be \<^verbatim>\<open>nil\<close> is an option; a \<^verbatim>\<open>nil\<close> slice and an empty one behave alike in all
  the code here and are the empty list. An instant is its number of nanoseconds since the Unix
  epoch.
\<close>

type_synonym go_time = int
type_synonym go_duration = int

record MessageHeader =
  MsgID :: uint16
  MsgBodyProperty :: uint16
  ProtocolVersion :: uint8
  PhoneNo :: gostring
  MsgFlowNo :: uint16
  MsgBodyLength :: uint16
  SubPackage :: bool
  Encryption :: uint8

record Message =
  Header :: "MessageHeader option"
  Body :: "byte list"
  Raw :: "byte list"

record LocationReport =
  LR_AlarmFlag :: uint32
  LR_Status :: uint32
  LR_Latitude :: float64
  LR_Longitude :: float64
  LR_Altitude :: uint16
  LR_Speed :: uint16
  LR_Direction :: uint16
  LR_Time :: go_time

record TerminalRegister =
  ProvinceID :: uint16
  CityID :: uint16
  ManufacturerID :: gostring
  TerminalType :: gostring
  TerminalID :: gostring
  PlateColor :: uint8
  PlateNo :: gostring

record AlarmReport =
  AR_AlarmFlag :: uint32
  AR_Status :: uint32
  AR_Latitude :: float64
  AR_Longitude :: float64
  AR_Altitude :: uint16
  AR_Speed :: uint16
  AR_Direction :: uint16
  AR_Time :: go_time
  AR_AlarmType :: uint8

datatype DeviceStatus = DeviceStatusOffline | DeviceStatusOnline | DeviceStatusAuthenticating

datatype auth_reason = NotAuthenticated | NotRegistered

datatype go_error =
    ErrInvalidMessage
  | ErrInvalidChecksum
  | ErrMessageTooLong
  | ErrInvalidFlag
  | ErrInvalidEscape
  | InvalidLocationReportBodyLength nat
  | InvalidTerminalRegisterBodyLength nat
  | IoEOF
  | IoError nat
  | InvalidFlagByte byte
  | PacketExceedsMaxSize int
  | ConnectionClosed
  | ConnectionNotFound gostring
  | LocationIsNil
  | AlarmIsNil
  | DeviceInfoIsNil
  | DeviceIDNotInContext
  | DeviceNotFound gostring
  | DeviceIDEmpty
  | AuthError gostring auth_reason
  | RateLimitError
  | PanicError go_panic
  | TimeoutError go_duration
  | ContextCanceled
  | AppError nat

text \<open>Values of type \<^verbatim>\<open>interface{}\<close>, by the dynamic types the program distinguishes.\<close>

datatype go_value =
    VBool bool
  | VInt int
  | VFloat float64
  | VString gostring
  | VDuration go_duration
  | VError go_error
  | VOther nat

type_synonym 'a res = "(go_error, 'a) go"

end
