(* ===== verification/ProtocolTypes.thy ===== *)
theory ProtocolTypes
  imports GoBase
begin

text \<open>
  \<^verbatim>\<open>protocol/types/constants.go\<close>: the constants of JT/T 808 by the names and widths the source
  gives them, the two escape tables, and the facts about them that the codec rests on: the
  masks of the body property word cover its 16 bits without overlap, alarm flags and status
  bits are single bits, and message IDs separate the two directions by their top bit.
\<close>

named_theorems proto_consts \<open>the values of the protocol constants\<close>

section \<open>Protocol versions\<close>

definition Version2011 :: uint8 where
  [proto_consts]: "Version2011 = 0x00"

definition Version2013 :: uint8 where
  [proto_consts]: "Version2013 = 0x01"

definition Version2019 :: uint8 where
  [proto_consts]: "Version2019 = 0x02"

section \<open>Message IDs, terminal to platform\<close>

definition MsgIDTerminalCommonResponse :: uint16 where
  [proto_consts]: "MsgIDTerminalCommonResponse = 0x0001"

definition MsgIDTerminalHeartbeat :: uint16 where
  [proto_consts]: "MsgIDTerminalHeartbeat = 0x0002"

definition MsgIDTerminalRegister :: uint16 where
  [proto_consts]: "MsgIDTerminalRegister = 0x0100"

definition MsgIDTerminalAuth :: uint16 where
  [proto_consts]: "MsgIDTerminalAuth = 0x0102"

definition MsgIDTerminalDeregister :: uint16 where
  [proto_consts]: "MsgIDTerminalDeregister = 0x0003"

definition MsgIDLocationReport :: uint16 where
  [proto_consts]: "MsgIDLocationReport = 0x0200"

definition MsgIDLocationQueryResponse :: uint16 where
  [proto_consts]: "MsgIDLocationQueryResponse = 0x0201"

definition MsgIDEventReport :: uint16 where
  [proto_consts]: "MsgIDEventReport = 0x0300"

definition MsgIDQuestionResponse :: uint16 where
  [proto_consts]: "MsgIDQuestionResponse = 0x0301"

definition MsgIDInfoDemandMenu :: uint16 where
  [proto_consts]: "MsgIDInfoDemandMenu = 0x0302"

definition MsgIDVehicleControlResponse :: uint16 where
  [proto_consts]: "MsgIDVehicleControlResponse = 0x0500"

definition MsgIDDrivingRecordData :: uint16 where
  [proto_consts]: "MsgIDDrivingRecordData = 0x0701"

definition MsgIDDriverIdentityReport :: uint16 where
  [proto_consts]: "MsgIDDriverIdentityReport = 0x0702"

definition MsgIDLocationBatchReport :: uint16 where
  [proto_consts]: "MsgIDLocationBatchReport = 0x0704"

definition MsgIDCANDataReport :: uint16 where
  [proto_consts]: "MsgIDCANDataReport = 0x0705"

definition MsgIDMediaEventReport :: uint16 where
  [proto_consts]: "MsgIDMediaEventReport = 0x0800"

definition MsgIDMediaDataUpload :: uint16 where
  [proto_consts]: "MsgIDMediaDataUpload = 0x0801"

definition MsgIDMediaDataRetransmit :: uint16 where
  [proto_consts]: "MsgIDMediaDataRetransmit = 0x0802"

definition MsgIDDataUpTransparent :: uint16 where
  [proto_consts]: "MsgIDDataUpTransparent = 0x0900"

definition MsgIDDataCompressUpload :: uint16 where
  [proto_consts]: "MsgIDDataCompressUpload = 0x0901"

definition MsgIDPlatformRSA :: uint16 where
  [proto_consts]: "MsgIDPlatformRSA = 0x0A00"

section \<open>Message IDs, platform to terminal\<close>

definition MsgIDPlatformCommonResponse :: uint16 where
  [proto_consts]: "MsgIDPlatformCommonResponse = 0x8001"

definition MsgIDPlatformHeartbeat :: uint16 where
  [proto_consts]: "MsgIDPlatformHeartbeat = 0x8002"

definition MsgIDServerRetransmitRequest :: uint16 where
  [proto_consts]: "MsgIDServerRetransmitRequest = 0x8003"

definition MsgIDTerminalRegisterResponse :: uint16 where
  [proto_consts]: "MsgIDTerminalRegisterResponse = 0x8100"

definition MsgIDSetTerminalParameters :: uint16 where
  [proto_consts]: "MsgIDSetTerminalParameters = 0x8103"

definition MsgIDQueryTerminalParameters :: uint16 where
  [proto_consts]: "MsgIDQueryTerminalParameters = 0x8104"

definition MsgIDQueryTerminalParametersResponse :: uint16 where
  [proto_consts]: "MsgIDQueryTerminalParametersResponse = 0x8104"

definition MsgIDTerminalControl :: uint16 where
  [proto_consts]: "MsgIDTerminalControl = 0x8105"

definition MsgIDQuerySpecificTerminalParameters :: uint16 where
  [proto_consts]: "MsgIDQuerySpecificTerminalParameters = 0x8106"

definition MsgIDQueryTerminalAttribute :: uint16 where
  [proto_consts]: "MsgIDQueryTerminalAttribute = 0x8107"

definition MsgIDLocationQuery :: uint16 where
  [proto_consts]: "MsgIDLocationQuery = 0x8200"

definition MsgIDLocationQueryResponse2 :: uint16 where
  [proto_consts]: "MsgIDLocationQueryResponse2 = 0x8201"

definition MsgIDTemporaryLocationTracking :: uint16 where
  [proto_consts]: "MsgIDTemporaryLocationTracking = 0x8202"

definition MsgIDVehicleControl :: uint16 where
  [proto_consts]: "MsgIDVehicleControl = 0x8500"

definition MsgIDSetRoundArea :: uint16 where
  [proto_consts]: "MsgIDSetRoundArea = 0x8600"

definition MsgIDDeleteRoundArea :: uint16 where
  [proto_consts]: "MsgIDDeleteRoundArea = 0x8601"

definition MsgIDSetRectangularArea :: uint16 where
  [proto_consts]: "MsgIDSetRectangularArea = 0x8602"

definition MsgIDDeleteRectangularArea :: uint16 where
  [proto_consts]: "MsgIDDeleteRectangularArea = 0x8603"

definition MsgIDSetPolygonArea :: uint16 where
  [proto_consts]: "MsgIDSetPolygonArea = 0x8604"

definition MsgIDDeletePolygonArea :: uint16 where
  [proto_consts]: "MsgIDDeletePolygonArea = 0x8605"

definition MsgIDSetRoute :: uint16 where
  [proto_consts]: "MsgIDSetRoute = 0x8606"

definition MsgIDDeleteRoute :: uint16 where
  [proto_consts]: "MsgIDDeleteRoute = 0x8607"

definition MsgIDQueryAreaOrRoute :: uint16 where
  [proto_consts]: "MsgIDQueryAreaOrRoute = 0x8608"

definition MsgIDAreaOrRouteResponse :: uint16 where
  [proto_consts]: "MsgIDAreaOrRouteResponse = 0x8609"

definition MsgIDDrivingRecordParamCommand :: uint16 where
  [proto_consts]: "MsgIDDrivingRecordParamCommand = 0x8700"

definition MsgIDDrivingRecordCommandResponse :: uint16 where
  [proto_consts]: "MsgIDDrivingRecordCommandResponse = 0x8700"

definition MsgIDReportDrivingRecord :: uint16 where
  [proto_consts]: "MsgIDReportDrivingRecord = 0x8701"

definition MsgIDReportDrivingRecordResponse :: uint16 where
  [proto_consts]: "MsgIDReportDrivingRecordResponse = 0x8701"

definition MsgIDDriverIdentityRequest :: uint16 where
  [proto_consts]: "MsgIDDriverIdentityRequest = 0x8702"

definition MsgIDDriverIdentityResponse :: uint16 where
  [proto_consts]: "MsgIDDriverIdentityResponse = 0x8702"

definition MsgIDMediaDataRetransmitRequest :: uint16 where
  [proto_consts]: "MsgIDMediaDataRetransmitRequest = 0x8800"

definition MsgIDCameraShotRequest :: uint16 where
  [proto_consts]: "MsgIDCameraShotRequest = 0x8801"

definition MsgIDCameraShotResponse :: uint16 where
  [proto_consts]: "MsgIDCameraShotResponse = 0x8801"

definition MsgIDMediaDataRetransmitResponse :: uint16 where
  [proto_consts]: "MsgIDMediaDataRetransmitResponse = 0x8802"

definition MsgIDDataDownTransparent :: uint16 where
  [proto_consts]: "MsgIDDataDownTransparent = 0x8900"

definition MsgIDPlatformRSARequest :: uint16 where
  [proto_consts]: "MsgIDPlatformRSARequest = 0x8A00"

section \<open>Bits of the body property word\<close>

definition MsgBodyPropertyLengthMask :: uint16 where
  [proto_consts]: "MsgBodyPropertyLengthMask = 0x03FF"

definition MsgBodyPropertyEncryptionMask :: uint16 where
  [proto_consts]: "MsgBodyPropertyEncryptionMask = 0x1C00"

definition MsgBodyPropertySubPackageFlag :: uint16 where
  [proto_consts]: "MsgBodyPropertySubPackageFlag = 0x2000"

definition MsgBodyPropertyVersionFlag :: uint16 where
  [proto_consts]: "MsgBodyPropertyVersionFlag = 0x4000"

definition MsgBodyPropertyReserved :: uint16 where
  [proto_consts]: "MsgBodyPropertyReserved = 0x8000"

section \<open>Encryption modes\<close>

definition EncryptionNone :: uint8 where
  [proto_consts]: "EncryptionNone = 0x00"

definition EncryptionRSA :: uint8 where
  [proto_consts]: "EncryptionRSA = 0x01"

section \<open>Results of a registration\<close>

definition RegisterResultSuccess :: uint8 where
  [proto_consts]: "RegisterResultSuccess = 0x00"

definition RegisterResultVehicleRegistered :: uint8 where
  [proto_consts]: "RegisterResultVehicleRegistered = 0x01"

definition RegisterResultNoVehicle :: uint8 where
  [proto_consts]: "RegisterResultNoVehicle = 0x02"

definition RegisterResultTerminalRegistered :: uint8 where
  [proto_consts]: "RegisterResultTerminalRegistered = 0x03"

definition RegisterResultNoTerminal :: uint8 where
  [proto_consts]: "RegisterResultNoTerminal = 0x04"

section \<open>Results of a common response\<close>

definition CommonResponseSuccess :: uint8 where
  [proto_consts]: "CommonResponseSuccess = 0x00"

definition CommonResponseFailure :: uint8 where
  [proto_consts]: "CommonResponseFailure = 0x01"

definition CommonResponseMessageNotSupported :: uint8 where
  [proto_consts]: "CommonResponseMessageNotSupported = 0x02"

definition CommonResponseAlarmConfirm :: uint8 where
  [proto_consts]: "CommonResponseAlarmConfirm = 0x03"

section \<open>Alarm flags\<close>

definition AlarmFlagSOS :: uint32 where
  [proto_consts]: "AlarmFlagSOS = 0x00000001"

definition AlarmFlagOverSpeed :: uint32 where
  [proto_consts]: "AlarmFlagOverSpeed = 0x00000002"

definition AlarmFlagFatigue :: uint32 where
  [proto_consts]: "AlarmFlagFatigue = 0x00000004"

definition AlarmFlagDanger :: uint32 where
  [proto_consts]: "AlarmFlagDanger = 0x00000008"

definition AlarmFlagGNSSFault :: uint32 where
  [proto_consts]: "AlarmFlagGNSSFault = 0x00000010"

definition AlarmFlagGNSSAntenna :: uint32 where
  [proto_consts]: "AlarmFlagGNSSAntenna = 0x00000020"

definition AlarmFlagGNSSShortCircuit :: uint32 where
  [proto_consts]: "AlarmFlagGNSSShortCircuit = 0x00000040"

definition AlarmFlagPowerLow :: uint32 where
  [proto_consts]: "AlarmFlagPowerLow = 0x00000080"

definition AlarmFlagPowerOff :: uint32 where
  [proto_consts]: "AlarmFlagPowerOff = 0x00000100"

definition AlarmFlagLCDFault :: uint32 where
  [proto_consts]: "AlarmFlagLCDFault = 0x00000200"

definition AlarmFlagTTSSpeechFault :: uint32 where
  [proto_consts]: "AlarmFlagTTSSpeechFault = 0x00000400"

definition AlarmFlagCameraFault :: uint32 where
  [proto_consts]: "AlarmFlagCameraFault = 0x00000800"

definition AlarmFlagICCardFault :: uint32 where
  [proto_consts]: "AlarmFlagICCardFault = 0x00001000"

definition AlarmFlagOverSpeedWarning :: uint32 where
  [proto_consts]: "AlarmFlagOverSpeedWarning = 0x00002000"

definition AlarmFlagFatigueWarning :: uint32 where
  [proto_consts]: "AlarmFlagFatigueWarning = 0x00004000"

definition AlarmFlagReserved1 :: uint32 where
  [proto_consts]: "AlarmFlagReserved1 = 0x00008000"

definition AlarmFlagDriveTimeout :: uint32 where
  [proto_consts]: "AlarmFlagDriveTimeout = 0x00010000"

definition AlarmFlagStopTimeout :: uint32 where
  [proto_consts]: "AlarmFlagStopTimeout = 0x00020000"

definition AlarmFlagAreaIn :: uint32 where
  [proto_consts]: "AlarmFlagAreaIn = 0x00040000"

definition AlarmFlagRouteDeviation :: uint32 where
  [proto_consts]: "AlarmFlagRouteDeviation = 0x00080000"

definition AlarmFlagRoadTimeShort :: uint32 where
  [proto_consts]: "AlarmFlagRoadTimeShort = 0x00100000"

definition AlarmFlagRouteDeviation2 :: uint32 where
  [proto_consts]: "AlarmFlagRouteDeviation2 = 0x00200000"

definition AlarmFlagVSSFault :: uint32 where
  [proto_consts]: "AlarmFlagVSSFault = 0x00400000"

definition AlarmFlagOilMassAbnormal :: uint32 where
  [proto_consts]: "AlarmFlagOilMassAbnormal = 0x00800000"

definition AlarmFlagVehicleStolen :: uint32 where
  [proto_consts]: "AlarmFlagVehicleStolen = 0x01000000"

definition AlarmFlagVehicleIllegalMove :: uint32 where
  [proto_consts]: "AlarmFlagVehicleIllegalMove = 0x02000000"

definition AlarmFlagVehicleIllegalMove2 :: uint32 where
  [proto_consts]: "AlarmFlagVehicleIllegalMove2 = 0x04000000"

definition AlarmFlagCollision :: uint32 where
  [proto_consts]: "AlarmFlagCollision = 0x08000000"

definition AlarmFlagRollover :: uint32 where
  [proto_consts]: "AlarmFlagRollover = 0x10000000"

definition AlarmFlagIllegalOpenDoor :: uint32 where
  [proto_consts]: "AlarmFlagIllegalOpenDoor = 0x20000000"

definition AlarmFlagReserved2 :: uint32 where
  [proto_consts]: "AlarmFlagReserved2 = 0x40000000"

definition AlarmFlagReserved3 :: uint32 where
  [proto_consts]: "AlarmFlagReserved3 = 0x80000000"

section \<open>Status bits\<close>

definition StatusACC :: uint32 where
  [proto_consts]: "StatusACC = 0x00000001"

definition StatusPositioning :: uint32 where
  [proto_consts]: "StatusPositioning = 0x00000002"

definition StatusSouthLatitude :: uint32 where
  [proto_consts]: "StatusSouthLatitude = 0x00000004"

definition StatusWestLongitude :: uint32 where
  [proto_consts]: "StatusWestLongitude = 0x00000008"

definition StatusOutOfService :: uint32 where
  [proto_consts]: "StatusOutOfService = 0x00000010"

definition StatusEncrypted :: uint32 where
  [proto_consts]: "StatusEncrypted = 0x00000020"

definition StatusBeiDou :: uint32 where
  [proto_consts]: "StatusBeiDou = 0x00000040"

definition StatusGPS :: uint32 where
  [proto_consts]: "StatusGPS = 0x00000080"

definition StatusGLONASS :: uint32 where
  [proto_consts]: "StatusGLONASS = 0x00000100"

definition StatusGalileo :: uint32 where
  [proto_consts]: "StatusGalileo = 0x00000200"

section \<open>Frame bytes and escape tables\<close>

definition ProtocolFlag :: byte where
  [proto_consts]: "ProtocolFlag = 0x7E"

definition ProtocolEscape :: byte where
  [proto_consts]: "ProtocolEscape = 0x7D"

text \<open>The escape tables. A byte outside the table is copied unchanged.\<close>

definition EscapeMap :: "byte \<rightharpoonup> byte" where
  "EscapeMap = [0x7E \<mapsto> 0x02, 0x7D \<mapsto> 0x01]"

definition UnescapeMap :: "byte \<rightharpoonup> byte" where
  "UnescapeMap = [0x02 \<mapsto> 0x7E, 0x01 \<mapsto> 0x7D]"

section \<open>The families of constants\<close>

definition terminal_msg_ids :: "uint16 list" where
  "terminal_msg_ids =
     [MsgIDTerminalCommonResponse, MsgIDTerminalHeartbeat, MsgIDTerminalRegister,
     MsgIDTerminalAuth, MsgIDTerminalDeregister, MsgIDLocationReport,
     MsgIDLocationQueryResponse, MsgIDEventReport, MsgIDQuestionResponse, MsgIDInfoDemandMenu,
     MsgIDVehicleControlResponse, MsgIDDrivingRecordData, MsgIDDriverIdentityReport,
     MsgIDLocationBatchReport, MsgIDCANDataReport, MsgIDMediaEventReport, MsgIDMediaDataUpload,
     MsgIDMediaDataRetransmit, MsgIDDataUpTransparent, MsgIDDataCompressUpload,
     MsgIDPlatformRSA]"

definition platform_msg_ids :: "uint16 list" where
  "platform_msg_ids =
     [MsgIDPlatformCommonResponse, MsgIDPlatformHeartbeat, MsgIDServerRetransmitRequest,
     MsgIDTerminalRegisterResponse, MsgIDSetTerminalParameters, MsgIDQueryTerminalParameters,
     MsgIDQueryTerminalParametersResponse, MsgIDTerminalControl,
     MsgIDQuerySpecificTerminalParameters, MsgIDQueryTerminalAttribute, MsgIDLocationQuery,
     MsgIDLocationQueryResponse2, MsgIDTemporaryLocationTracking, MsgIDVehicleControl,
     MsgIDSetRoundArea, MsgIDDeleteRoundArea, MsgIDSetRectangularArea,
     MsgIDDeleteRectangularArea, MsgIDSetPolygonArea, MsgIDDeletePolygonArea, MsgIDSetRoute,
     MsgIDDeleteRoute, MsgIDQueryAreaOrRoute, MsgIDAreaOrRouteResponse,
     MsgIDDrivingRecordParamCommand, MsgIDDrivingRecordCommandResponse,
     MsgIDReportDrivingRecord, MsgIDReportDrivingRecordResponse, MsgIDDriverIdentityRequest,
     MsgIDDriverIdentityResponse, MsgIDMediaDataRetransmitRequest, MsgIDCameraShotRequest,
     MsgIDCameraShotResponse, MsgIDMediaDataRetransmitResponse, MsgIDDataDownTransparent,
     MsgIDPlatformRSARequest]"

definition alarm_flags :: "uint32 list" where
  "alarm_flags =
     [AlarmFlagSOS, AlarmFlagOverSpeed, AlarmFlagFatigue, AlarmFlagDanger, AlarmFlagGNSSFault,
     AlarmFlagGNSSAntenna, AlarmFlagGNSSShortCircuit, AlarmFlagPowerLow, AlarmFlagPowerOff,
     AlarmFlagLCDFault, AlarmFlagTTSSpeechFault, AlarmFlagCameraFault, AlarmFlagICCardFault,
     AlarmFlagOverSpeedWarning, AlarmFlagFatigueWarning, AlarmFlagReserved1,
     AlarmFlagDriveTimeout, AlarmFlagStopTimeout, AlarmFlagAreaIn, AlarmFlagRouteDeviation,
     AlarmFlagRoadTimeShort, AlarmFlagRouteDeviation2, AlarmFlagVSSFault,
     AlarmFlagOilMassAbnormal, AlarmFlagVehicleStolen, AlarmFlagVehicleIllegalMove,
     AlarmFlagVehicleIllegalMove2, AlarmFlagCollision, AlarmFlagRollover,
     AlarmFlagIllegalOpenDoor, AlarmFlagReserved2, AlarmFlagReserved3]"

definition status_bits :: "uint32 list" where
  "status_bits =
     [StatusACC, StatusPositioning, StatusSouthLatitude, StatusWestLongitude,
     StatusOutOfService, StatusEncrypted, StatusBeiDou, StatusGPS, StatusGLONASS,
     StatusGalileo]"

definition body_property_masks :: "uint16 list" where
  "body_property_masks =
     [MsgBodyPropertyLengthMask, MsgBodyPropertyEncryptionMask, MsgBodyPropertySubPackageFlag,
      MsgBodyPropertyVersionFlag, MsgBodyPropertyReserved]"

section \<open>Facts about the constants\<close>

lemma EscapeMap_simps [simp]:
  "EscapeMap 0x7E = Some 0x02" "EscapeMap 0x7D = Some 0x01"
  "b \<noteq> 0x7E \<Longrightarrow> b \<noteq> 0x7D \<Longrightarrow> EscapeMap b = None"
  by (simp_all add: EscapeMap_def)

lemma UnescapeMap_simps [simp]:
  "UnescapeMap 0x02 = Some 0x7E" "UnescapeMap 0x01 = Some 0x7D"
  by (simp_all add: UnescapeMap_def)

lemma EscapeMap_Some_iff: "EscapeMap b = Some c \<longleftrightarrow> b = 0x7E \<and> c = 0x02 \<or> b = 0x7D \<and> c = 0x01"
  by (auto simp: EscapeMap_def)

lemma UnescapeMap_Some_iff: "UnescapeMap c = Some b \<longleftrightarrow> EscapeMap b = Some c"
  by (auto simp: EscapeMap_def UnescapeMap_def)

text \<open>
  The masks of the body property word are disjoint and leave no bit over: every word is the
  disjoint union of its length, encryption, subpackage, version and reserved parts.
\<close>

lemma body_property_masks_disjoint:
  "i < j \<Longrightarrow> j < length body_property_masks \<Longrightarrow> body_property_masks ! i AND body_property_masks ! j = 0"
  by (auto simp: body_property_masks_def proto_consts less_Suc_eq numeral_eq_Suc nth_Cons')

lemma body_property_masks_cover: "fold (OR) body_property_masks 0 = - 1"
  by (simp add: body_property_masks_def proto_consts)

lemma body_property_partition:
  "w = (w AND MsgBodyPropertyLengthMask) OR (w AND MsgBodyPropertyEncryptionMask)
     OR (w AND MsgBodyPropertySubPackageFlag) OR (w AND MsgBodyPropertyVersionFlag)
     OR (w AND MsgBodyPropertyReserved)"
proof -
  have "w AND - 1 = w" by (rule and.right_neutral)
  moreover have "(65535::uint16) = - 1" by simp
  ultimately have "w AND 65535 = w" by (simp only:)
  then show ?thesis
    unfolding bit.conj_disj_distrib [symmetric] by (simp add: proto_consts)
qed

lemma alarm_flags_single_bits: "alarm_flags = map (\<lambda>i. push_bit i 1) [0..<32]"
  by (simp add: alarm_flags_def proto_consts upt_rec)

lemma status_bits_single_bits: "status_bits = map (\<lambda>i. push_bit i 1) [0..<10]"
  by (simp add: status_bits_def proto_consts upt_rec)

lemma terminal_msg_ids_distinct: "distinct terminal_msg_ids"
  by (simp add: terminal_msg_ids_def proto_consts)

lemma msg_id_direction:
  "(\<forall>i \<in> set terminal_msg_ids. \<not> bit i 15) \<and> (\<forall>i \<in> set platform_msg_ids. bit i 15)"
  by (simp add: terminal_msg_ids_def platform_msg_ids_def proto_consts)

end
