(* ===== verification/Escape.thy ===== *)
theory Escape
  imports CoreTypes ProtocolTypes
begin

text \<open>
  The frame transparency layer of \<^verbatim>\<open>protocol/codec.go\<close>: \<^verbatim>\<open>escape\<close>, \<^verbatim>\<open>unescape\<close> and
  \<^verbatim>\<open>calculateChecksum\<close>. The pooled buffers of the source are reset before they are put back
  and their contents are copied out, so each call starts from an empty buffer and its result
  is a fresh slice: the functions are pure.
\<close>

section \<open>The operations\<close>

fun escape :: "byte list \<Rightarrow> byte list" where
  "escape [] = []"
| "escape (b # bs) =
     (case EscapeMap b of
        Some e \<Rightarrow> ProtocolEscape # e # escape bs
      | None \<Rightarrow> b # escape bs)"

fun unescape_from :: "byte list \<Rightarrow> byte list \<Rightarrow> byte list res" where
  "unescape_from buf [] = Ok buf"
| "unescape_from buf (b # bs) =
     (if b = ProtocolEscape then
        (case bs of
           [] \<Rightarrow> Err ErrInvalidEscape
         | c # cs \<Rightarrow>
             (case UnescapeMap c of
                Some u \<Rightarrow> unescape_from (buf @ [u]) cs
              | None \<Rightarrow> Err ErrInvalidEscape))
      else unescape_from (buf @ [b]) bs)"

definition unescape :: "byte list \<Rightarrow> byte list res" where
  "unescape data = unescape_from [] data"

definition calculateChecksum :: "byte list list \<Rightarrow> byte" where
  "calculateChecksum data = fold (\<lambda>d acc. fold (\<lambda>b c. c XOR b) d acc) data 0"

section \<open>Escaping\<close>

lemma escape_Cons:
  "escape (b # bs) =
     (if b = 0x7E then [0x7D, 0x02] else if b = 0x7D then [0x7D, 0x01] else [b]) @ escape bs"
  by (auto simp: ProtocolEscape_def EscapeMap_def)

declare escape.simps(2) [simp del]
declare escape_Cons [simp]

lemma escape_append [wire_simps]: "escape (xs @ ys) = escape xs @ escape ys"
  by (induction xs) auto

lemma escape_no_flag: "ProtocolFlag \<notin> set (escape bs)"
  by (induction bs) (auto simp: proto_consts)

lemma length_escape_ge: "length bs \<le> length (escape bs)"
  by (induction bs) auto

lemma length_escape_le: "length (escape bs) \<le> 2 * length bs"
  by (induction bs) auto

lemma escape_length_eq: 
  "length (escape bs) = length bs + length (filter (\<lambda>b. b = ProtocolFlag \<or> b = ProtocolEscape) bs)"
  by (induction bs) (auto simp: proto_consts)

section \<open>Unescaping\<close>

text \<open>
  The loop with its buffer against the recursion on the input alone: the buffer is a prefix
  of the result.
\<close>

lemma unescape_from_append:
  "unescape_from (p @ buf) bs = go_bind (unescape_from buf bs) (\<lambda>r. Ok (p @ r))"
proof (induction buf bs rule: unescape_from.induct)
  case (1 buf)
  then show ?case by simp
next
  case (2 buf b bs)
  show ?case
  proof (cases "b = ProtocolEscape")
    case True
    with "2.IH"(1) show ?thesis by (cases bs) (simp_all split: option.split)
  next
    case False
    with "2.IH"(2) show ?thesis by simp
  qed
qed

lemma unescape_from_buf: "unescape_from buf bs = go_bind (unescape bs) (\<lambda>r. Ok (buf @ r))"
  using unescape_from_append [of buf "[]" bs] by (simp add: unescape_def)

lemma unescape_Nil [simp]: "unescape [] = Ok []"
  by (simp add: unescape_def)

lemma unescape_plain [simp]:
  "b \<noteq> 0x7D \<Longrightarrow> unescape (b # bs) = go_bind (unescape bs) (\<lambda>r. Ok (b # r))"
  using unescape_from_buf [of "[b]" bs] by (simp add: unescape_def [of "b # bs"] ProtocolEscape_def)

lemma unescape_dangling [simp]: "unescape [0x7D] = Err ErrInvalidEscape"
  by (simp add: unescape_def ProtocolEscape_def)

lemma unescape_pair [simp]:
  "unescape (0x7D # c # cs) =
     (case UnescapeMap c of
        Some u \<Rightarrow> go_bind (unescape cs) (\<lambda>r. Ok (u # r))
      | None \<Rightarrow> Err ErrInvalidEscape)"
  using unescape_from_buf [of "[u]" cs for u]
  by (simp add: unescape_def [of "0x7D # c # cs"] ProtocolEscape_def split: option.split)

lemma unescape_induct [case_names Nil plain dangling pair]:
  assumes "P []"
    and "\<And>b bs. b \<noteq> 0x7D \<Longrightarrow> P bs \<Longrightarrow> P (b # bs)"
    and "P [0x7D]"
    and "\<And>c cs. P cs \<Longrightarrow> P (0x7D # c # cs)"
  shows "P (bs :: byte list)"
proof (induction bs rule: length_induct)
  case (1 bs)
  show ?case
  proof (cases bs)
    case Nil
    with assms(1) show ?thesis by simp
  next
    case (Cons b bs')
    show ?thesis
    proof (cases "b = 0x7D")
      case False
      with Cons 1 assms(2) show ?thesis by auto
    next
      case True
      with Cons 1 assms(3,4) show ?thesis by (cases bs') auto
    qed
  qed
qed

lemma safe_unescape [simp]: "safe (unescape bs)"
  by (induction bs rule: unescape_induct) (auto split: option.split)

lemma unescape_Err: "unescape bs = Err e \<Longrightarrow> e = ErrInvalidEscape"
proof (induction bs rule: unescape_induct)
  case (plain b bs)
  then show ?case by (cases "unescape bs") auto
next
  case (pair c cs)
  then show ?case by (cases "unescape cs") (auto split: option.splits)
qed auto

lemma unescape_escape_append: 
  "unescape (escape xs @ ys) = go_bind (unescape ys) (\<lambda>r. Ok (xs @ r))"
  by (induction xs) (auto simp: go_simps)

lemma unescape_escape [wire_simps, simp]: "unescape (escape xs) = Ok xs"
  using unescape_escape_append [of xs "[]"] by simp

text \<open>
  Escaping is the only way to write a frame: what \<^verbatim>\<open>unescape\<close> accepts and carries no flag byte
  is the escaped form of its result, so two different frames never decode to the same bytes.
\<close>

lemma escape_unescape:
  "unescape bs = Ok r \<Longrightarrow> ProtocolFlag \<notin> set bs \<Longrightarrow> escape r = bs"
  by (induction bs arbitrary: r rule: unescape_induct)
    (auto simp: go_simps proto_consts UnescapeMap_Some_iff EscapeMap_Some_iff split: option.splits)

lemma length_unescape_le: "unescape bs = Ok r \<Longrightarrow> length r \<le> length bs"
  by (induction bs arbitrary: r rule: unescape_induct)
    (auto simp: go_simps le_SucI split: option.splits)

section \<open>The checksum\<close>

lemma fold_xor_acc: "fold (\<lambda>b c. c XOR b) d acc = acc XOR fold (\<lambda>b c. c XOR b) d (0 :: byte)"
proof (induction d arbitrary: acc)
  case Nil
  then show ?case by simp
next
  case (Cons b d)
  from Cons [of "acc XOR b"] Cons [of b] show ?case
    by (simp add: xor.assoc)
qed

definition xor_all :: "byte list \<Rightarrow> byte" where
  "xor_all d = fold (\<lambda>b c. c XOR b) d 0"

lemma xor_all_Nil [simp]: "xor_all [] = 0"
  by (simp add: xor_all_def)

lemma xor_all_Cons [simp]: "xor_all (b # d) = b XOR xor_all d"
  using fold_xor_acc [of d b] by (simp add: xor_all_def)

lemma xor_all_append [simp]: "xor_all (xs @ ys) = xor_all xs XOR xor_all ys"
  by (induction xs) (simp_all add: xor.assoc)

lemma calculateChecksum_eq: "calculateChecksum data = xor_all (concat data)"
proof -
  have inner: "fold (\<lambda>b c. c XOR b) d a = a XOR xor_all d" for d a
    using fold_xor_acc [of d a] by (simp add: xor_all_def)
  have "fold (\<lambda>d acc. fold (\<lambda>b c. c XOR b) d acc) data a = a XOR xor_all (concat data)" for a
    by (induction data arbitrary: a) (simp_all add: inner xor.assoc)
  then show ?thesis by (simp add: calculateChecksum_def)
qed

text \<open>Changing one byte changes the checksum; so does every odd combination of errors in a bit.\<close>

lemma xor_all_update:
  "i < length d \<Longrightarrow> xor_all (d[i := b]) = xor_all d XOR (d ! i) XOR b"
proof (induction d arbitrary: i)
  case Nil
  then show ?case by simp
next
  case (Cons a d)
  then show ?case
    by (cases i) (simp_all add: xor.assoc xor.left_commute xor.commute)
qed

lemma xor_all_detects:
  assumes "i < length d" and "b \<noteq> d ! i"
  shows "xor_all (d[i := b]) \<noteq> xor_all d"
  using assms by (auto simp: xor_all_update xor.assoc)

section \<open>Properties\<close>

text \<open>C26. Transparency of a frame's interior: for every byte string, unescaping its escaped form
  gives the string back, the escaped form contains no flag byte, and it is at least as long as
  the string and at most twice as long.\<close>

theorem escape_transparent:
  "unescape (escape xs) = Ok xs \<and> ProtocolFlag \<notin> set (escape xs)
   \<and> length xs \<le> length (escape xs) \<and> length (escape xs) \<le> 2 * length xs"
  by (simp add: escape_no_flag length_escape_ge length_escape_le)

text \<open>Canonicity: a flag-free interior that \<^verbatim>\<open>unescape\<close> accepts is the escaped form of its
  result and of nothing else, so \<^verbatim>\<open>unescape\<close> is injective on the interiors a frame can have.\<close>

theorem unescape_canonical:
  assumes "unescape bs = Ok r" and "ProtocolFlag \<notin> set bs"
  shows "bs = escape r \<and> (\<forall>cs. unescape cs = Ok r \<and> ProtocolFlag \<notin> set cs \<longrightarrow> cs = bs)"
  using assms escape_unescape by metis

theorem unescape_canonical_witness:
  "unescape [0x30, 0x7D, 0x02, 0x08, 0x7D, 0x01] = Ok [0x30, 0x7E, 0x08, 0x7D]
   \<and> [0x30, 0x7D, 0x02, 0x08, 0x7D, 0x01] = escape [0x30, 0x7E, 0x08, 0x7D]"
proof -
  have u: "unescape [0x30, 0x7D, 0x02, 0x08, 0x7D, 0x01] = Ok [0x30, 0x7E, 0x08, 0x7D]"
    by simp
  moreover have "ProtocolFlag \<notin> set [0x30, 0x7D, 0x02, 0x08, 0x7D, 0x01 :: byte]"
    by (simp add: ProtocolFlag_def)
  ultimately show ?thesis using unescape_canonical [OF u] by blast
qed

end
