(* ===== verification/Bcd.thy ===== *)
theory Bcd
  imports Escape
begin

text \<open>
  Terminal numbers in binary coded decimal: \<^verbatim>\<open>encodeBCD\<close> and \<^verbatim>\<open>decodeBCD\<close> of
  \<^verbatim>\<open>protocol/codec.go\<close>. The encoder fills a field of a given width from the left and leaves the
  rest zero; the decoder drops a nibble above 9.
\<close>

section \<open>The operations\<close>

definition encodeBCD :: "gostring \<Rightarrow> nat \<Rightarrow> byte list" where
  "encodeBCD s n =
     map (\<lambda>i. if i * 2 < length s
              then (let high = s ! (i * 2) - 0x30;
                        low = (if i * 2 + 1 < length s then s ! (i * 2 + 1) - 0x30 else 0)
                    in push_bit 4 high OR low)
              else 0)
       [0..<n]"

definition decodeBCD :: "byte list \<Rightarrow> gostring" where
  "decodeBCD data =
     concat (map (\<lambda>b. let high = drop_bit 4 b AND 0x0F; low = b AND 0x0F
                      in (if high \<le> 9 then [0x30 + high] else [])
                         @ (if low \<le> 9 then [0x30 + low] else []))
              data)"

section \<open>Digits and nibbles\<close>

definition is_digit :: "byte \<Rightarrow> bool" where
  "is_digit c \<longleftrightarrow> 0x30 \<le> c \<and> c \<le> 0x39"

definition is_bcd :: "byte \<Rightarrow> bool" where
  "is_bcd b \<longleftrightarrow> drop_bit 4 b AND 0x0F \<le> 9 \<and> b AND 0x0F \<le> 9"

lemma digit_cases: 
  "is_digit c \<Longrightarrow> c \<in> {0x30, 0x31, 0x32, 0x33, 0x34, 0x35, 0x36, 0x37, 0x38, 0x39}"
proof -
  assume "is_digit c"
  then have "unat c \<in> {0x30..0x39}"
    by (simp add: is_digit_def word_le_nat_alt)
  then have "unat c \<in> {0x30, 0x31, 0x32, 0x33, 0x34, 0x35, 0x36, 0x37, 0x38, 0x39}"
    by (simp add: atLeastAtMost_iff) arith
  then show ?thesis
    by (auto dest!: arg_cong [of _ _ "word_of_nat :: nat \<Rightarrow> byte"])
qed

lemma bcd_pair:
  assumes "is_digit a" and "is_digit b"
  shows "drop_bit 4 (push_bit 4 (a - 0x30) OR (b - 0x30)) AND 0x0F = a - 0x30"
    and "(push_bit 4 (a - 0x30) OR (b - 0x30)) AND 0x0F = b - 0x30"
    and "a - 0x30 \<le> 9" and "b - 0x30 \<le> 9"
  using digit_cases [OF assms(1)] digit_cases [OF assms(2)]
  by auto

lemma encodeBCD_0 [simp]: "encodeBCD s 0 = []"
  by (simp add: encodeBCD_def)

lemma length_encodeBCD [wire_simps, simp]: "length (encodeBCD s n) = n"
  by (simp add: encodeBCD_def)

lemma encodeBCD_Suc:
  "encodeBCD s (Suc n) =
     (case s of [] \<Rightarrow> 0
      | [a] \<Rightarrow> push_bit 4 (a - 0x30)
      | a # b # s' \<Rightarrow> push_bit 4 (a - 0x30) OR (b - 0x30)) # encodeBCD (drop 2 s) n"
  unfolding encodeBCD_def upt_conv_Cons [OF zero_less_Suc] map_Suc_upt [symmetric] list.map map_map
  by (auto simp: Let_def split: list.split)

lemma decodeBCD_Nil [simp]: "decodeBCD [] = []"
  by (simp add: decodeBCD_def)

lemma decodeBCD_Cons:
  "decodeBCD (b # bs) =
     (if drop_bit 4 b AND 0x0F \<le> 9 then [0x30 + (drop_bit 4 b AND 0x0F)] else [])
     @ (if b AND 0x0F \<le> 9 then [0x30 + (b AND 0x0F)] else []) @ decodeBCD bs"
  by (simp add: decodeBCD_def Let_def)

lemma decodeBCD_pair [simp]:
  "is_digit a \<Longrightarrow> is_digit b \<Longrightarrow>
     decodeBCD ((push_bit 4 (a - 0x30) OR (b - 0x30)) # bs) = a # b # decodeBCD bs"
  unfolding decodeBCD_Cons bcd_pair(1,2) by (simp add: bcd_pair(3,4))

lemma is_digit_zero: "is_digit 0x30"
  by (simp add: is_digit_def)

section \<open>Round trips\<close>

lemma decode_encodeBCD:
  "list_all is_digit s \<Longrightarrow>
     decodeBCD (encodeBCD s n) = take (2 * n) (s @ replicate (2 * n - length s) 0x30)"
proof (induction n arbitrary: s)
  case 0
  then show ?case by simp
next
  case (Suc n)
  consider "s = []" | a where "s = [a]" | a b s' where "s = a # b # s'"
    by (metis list.exhaust)
  then show ?case
  proof cases
    case 1
    with Suc.IH [of "[]"] show ?thesis
      by (simp add: encodeBCD_Suc decodeBCD_Cons)
  next
    case 2
    with Suc show ?thesis
      using decodeBCD_pair [of a "0x30" "encodeBCD [] n"] Suc.IH [of "[]"]
      by (simp add: encodeBCD_Suc is_digit_zero)
  next
    case 3
    with Suc show ?thesis
      by (simp add: encodeBCD_Suc)
  qed
qed

lemma decode_encodeBCD_full:
  "list_all is_digit s \<Longrightarrow> length s = 2 * n \<Longrightarrow> decodeBCD (encodeBCD s n) = s"
  by (simp add: decode_encodeBCD)

lemma decodeBCD_digits: "list_all is_digit (decodeBCD bs)"
proof (induction bs)
  case Nil
  then show ?case by simp
next
  case (Cons b bs)
  have "is_digit (0x30 + h)" if "h \<le> 9" for h :: byte
  proof -
    have "unat h \<le> 9" using that by (simp add: word_le_nat_alt)
    then have "unat (0x30 + h) = 0x30 + unat h"
      by (simp add: unat_word_ariths)
    with \<open>unat h \<le> 9\<close> show ?thesis by (simp add: is_digit_def word_le_nat_alt)
  qed
  with Cons show ?case by (simp add: decodeBCD_Cons)
qed

lemma length_decodeBCD_le: "length (decodeBCD bs) \<le> 2 * length bs"
  by (induction bs) (simp_all add: decodeBCD_Cons)

lemma length_decodeBCD: "list_all is_bcd bs \<Longrightarrow> length (decodeBCD bs) = 2 * length bs"
  by (induction bs) (simp_all add: decodeBCD_Cons is_bcd_def)

lemma bcd_join: "push_bit 4 (drop_bit 4 b AND 0x0F) OR (b AND 0x0F) = (b :: byte)"
proof (rule bit_eqI)
  fix n
  have mask: "(0x0F :: byte) = mask 4"
    by (simp add: mask_eq_exp_minus_1)
  assume "possible_bit TYPE(byte) n"
  then show "bit (push_bit 4 (drop_bit 4 b AND 0x0F) OR (b AND 0x0F)) n = bit b n"
    unfolding mask by (auto simp: bit_simps)
qed

lemma encodeBCD_pair:
  "encodeBCD ((0x30 + h) # (0x30 + l) # s) (Suc n) = (push_bit 4 h OR l) # encodeBCD s n"
  by (simp add: encodeBCD_Suc)

lemma encode_decodeBCD: "list_all is_bcd bs \<Longrightarrow> encodeBCD (decodeBCD bs) (length bs) = bs"
proof (induction bs)
  case Nil
  then show ?case by simp
next
  case (Cons b bs)
  then have "decodeBCD (b # bs) =
      (0x30 + (drop_bit 4 b AND 0x0F)) # (0x30 + (b AND 0x0F)) # decodeBCD bs"
    by (simp add: decodeBCD_Cons is_bcd_def)
  with Cons show ?case
    by (simp only: length_Cons encodeBCD_pair bcd_join) simp
qed

end
