(* ===== verification/Codec.thy ===== *)
theory Codec
  imports Bcd
begin

text \<open>
  The frame codec of \<^verbatim>\<open>protocol/codec.go\<close>: \<^verbatim>\<open>Encode\<close>, \<^verbatim>\<open>Decode\<close>, \<^verbatim>\<open>encodeHeader\<close> and
  \<^verbatim>\<open>decodeHeader\<close>. \<^verbatim>\<open>Encode\<close> rewrites the body property word of the caller's header, so its
  model also returns the caller's message as the call leaves it.
\<close>

section \<open>The operations\<close>

definition terminalPhoneBCDLengthLegacy :: nat where
  "terminalPhoneBCDLengthLegacy = 6"

definition terminalPhoneBCDLength2019 :: nat where
  "terminalPhoneBCDLength2019 = 10"

definition encodeHeader :: "MessageHeader \<Rightarrow> byte list" where
  "encodeHeader header =
     (let phoneLen = (if ProtocolVersion header > 0 then terminalPhoneBCDLength2019
                      else terminalPhoneBCDLengthLegacy)
      in put_u16 (MsgID header)
         @ put_u16 (MsgBodyProperty header)
         @ (if ProtocolVersion header > 0 then [ProtocolVersion header] else [])
         @ encodeBCD (PhoneNo header) phoneLen
         @ put_u16 (MsgFlowNo header)
         @ (if SubPackage header then put_u16 1 @ put_u16 1 else []))"

definition updateBodyProperty :: "MessageHeader \<Rightarrow> nat \<Rightarrow> MessageHeader" where
  "updateBodyProperty header bodyLen =
     (let p0 = of_nat bodyLen AND MsgBodyPropertyLengthMask;
          p1 = (if SubPackage header then p0 OR MsgBodyPropertySubPackageFlag else p0);
          p2 = p1 OR push_bit 10 (ucast (Encryption header AND 0x07));
          p3 = (if ProtocolVersion header > 0 then p2 OR MsgBodyPropertyVersionFlag else p2)
      in header\<lparr>MsgBodyProperty := p3\<rparr>)"

definition Encode :: "Message option \<Rightarrow> Message option \<times> byte list res" where
  "Encode msg =
     (case msg of
        None \<Rightarrow> (msg, Err ErrInvalidMessage)
      | Some m \<Rightarrow>
          (case Header m of
             None \<Rightarrow> (msg, Err ErrInvalidMessage)
           | Some header \<Rightarrow>
               if length (Body m) > 1023 then (msg, Err ErrMessageTooLong)
               else
                 (let header' = updateBodyProperty header (length (Body m));
                      headerBytes = encodeHeader header';
                      checksum = calculateChecksum [headerBytes, Body m]
                  in (Some (m\<lparr>Header := Some header'\<rparr>),
                      Ok ([ProtocolFlag] @ escape headerBytes @ escape (Body m)
                          @ escape [checksum] @ [ProtocolFlag])))))"

definition decodeHeader :: "byte list \<Rightarrow> (MessageHeader \<times> nat) res" where
  "decodeHeader data =
     (if length data < 12 then Err ErrInvalidMessage
      else
        go_bind (go_bind (go_slice data 0 2) be_uint16) (\<lambda>msgID.
        go_bind (go_bind (go_slice data 2 4) be_uint16) (\<lambda>prop.
        go_bind
          (if prop AND MsgBodyPropertyVersionFlag \<noteq> 0
           then (if length data < 4 + 1 then Err ErrInvalidMessage
                 else go_bind (go_index data 4) (\<lambda>v. Ok (v, 5)))
           else Ok (0, 4)) (\<lambda>(version, offset).
        let phoneLen = (if version > 0 then terminalPhoneBCDLength2019
                        else terminalPhoneBCDLengthLegacy)
        in if length data < offset + phoneLen + 2 then Err ErrInvalidMessage
           else
             go_bind (go_slice data offset (offset + phoneLen)) (\<lambda>phone.
             let offset1 = offset + phoneLen in
             go_bind (go_bind (go_slice data offset1 (offset1 + 2)) be_uint16) (\<lambda>flow.
             let offset2 = offset1 + 2;
                 header = \<lparr>MsgID = msgID, MsgBodyProperty = prop, ProtocolVersion = version,
                           PhoneNo = decodeBCD phone, MsgFlowNo = flow,
                           MsgBodyLength = prop AND MsgBodyPropertyLengthMask,
                           SubPackage = (prop AND MsgBodyPropertySubPackageFlag \<noteq> 0),
                           Encryption = ucast (drop_bit 10 (prop AND MsgBodyPropertyEncryptionMask))\<rparr>
             in if SubPackage header
                then (if length data < offset2 + 4 then Err ErrInvalidMessage
                      else Ok (header, offset2 + 4))
                else Ok (header, offset2)))))))"

definition Decode :: "byte list \<Rightarrow> Message res" where
  "Decode data =
     (if length data < 2 then Err ErrInvalidMessage
      else
        go_bind (go_index data 0) (\<lambda>first.
        go_bind (go_index data (length data - 1)) (\<lambda>final.
        if first \<noteq> ProtocolFlag \<or> final \<noteq> ProtocolFlag then Err ErrInvalidFlag
        else
          go_bind (go_slice data 1 (length data - 1)) (\<lambda>inner.
          go_bind (unescape inner) (\<lambda>unescaped.
          if length unescaped < 13 then Err ErrInvalidMessage
          else
            go_bind (go_index unescaped (length unescaped - 1)) (\<lambda>expectedChecksum.
            go_bind (go_slice unescaped 0 (length unescaped - 1)) (\<lambda>content.
            if expectedChecksum \<noteq> calculateChecksum [content, []] then Err ErrInvalidChecksum
            else
              go_bind (decodeHeader content) (\<lambda>(header, bodyStart).
              let bodyEnd = length unescaped - 1 in
              if bodyStart > bodyEnd then Err ErrInvalidMessage
              else if int bodyEnd - int bodyStart \<noteq> uint (MsgBodyLength header)
              then Err ErrInvalidMessage
              else
                go_bind (go_slice unescaped bodyStart bodyEnd) (\<lambda>body.
                Ok \<lparr>Header = Some header, Body = body, Raw = data\<rparr>)))))))))"

section \<open>The body property word\<close>

text \<open>What \<^verbatim>\<open>Encode\<close> packs into the word is what \<^verbatim>\<open>decodeHeader\<close> reads out of it.\<close>

definition body_property :: "nat \<Rightarrow> bool \<Rightarrow> uint8 \<Rightarrow> bool \<Rightarrow> uint16" where
  "body_property n sub enc ver =
     of_nat n OR (if sub then MsgBodyPropertySubPackageFlag else 0)
     OR push_bit 10 (ucast (enc AND mask 3)) OR (if ver then MsgBodyPropertyVersionFlag else 0)"

lemma bit_masks:
  "bit MsgBodyPropertyLengthMask i \<longleftrightarrow> i < 10"
  "bit MsgBodyPropertyEncryptionMask i \<longleftrightarrow> 10 \<le> i \<and> i < 13"
  "bit MsgBodyPropertySubPackageFlag i \<longleftrightarrow> i = 13"
  "bit MsgBodyPropertyVersionFlag i \<longleftrightarrow> i = 14"
proof -
  have m: "MsgBodyPropertyLengthMask = mask 10"
    by (simp add: proto_consts mask_eq_exp_minus_1)
  show "bit MsgBodyPropertyLengthMask i \<longleftrightarrow> i < 10"
    unfolding m bit_mask_iff by auto
  have e: "MsgBodyPropertyEncryptionMask = push_bit 10 (mask 3)"
    by (simp add: proto_consts mask_eq_exp_minus_1)
  show "bit MsgBodyPropertyEncryptionMask i \<longleftrightarrow> 10 \<le> i \<and> i < 13"
    unfolding e bit_push_bit_iff bit_mask_iff by auto
  have s: "MsgBodyPropertySubPackageFlag = 2 ^ 13" and v: "MsgBodyPropertyVersionFlag = 2 ^ 14"
    by (simp_all add: proto_consts)
  show "bit MsgBodyPropertySubPackageFlag i \<longleftrightarrow> i = 13"
    unfolding s bit_exp_iff by auto
  show "bit MsgBodyPropertyVersionFlag i \<longleftrightarrow> i = 14"
    unfolding v bit_exp_iff by auto
qed

lemma not_bit_length: 
  assumes "n \<le> 1023" and "10 \<le> i"
  shows "\<not> bit (n :: nat) i"
proof -
  have "n < 2 ^ 10" using assms by simp
  also have "(2::nat) ^ 10 \<le> 2 ^ i" using assms by (intro power_increasing) simp_all
  finally show ?thesis by (simp add: bit_iff_odd)
qed

lemma bit_body_property:
  assumes "n \<le> 1023"
  shows "bit (body_property n sub enc ver) i \<longleftrightarrow>
     i < 10 \<and> bit n i \<or> 10 \<le> i \<and> i < 13 \<and> bit enc (i - 10) \<or> i = 13 \<and> sub \<or> i = 14 \<and> ver"
proof -
  have "bit n i \<Longrightarrow> i < 10"
    using not_bit_length [OF assms, of i] by force
  then show ?thesis
    unfolding body_property_def
    by (cases "sub"; cases "ver") (auto simp: bit_simps bit_masks)
qed

lemma body_property_length:
  assumes "n \<le> 1023"
  shows "body_property n sub enc ver AND MsgBodyPropertyLengthMask = of_nat n"
proof (rule bit_eqI)
  fix i
  have "bit n i \<Longrightarrow> i < 10"
    using not_bit_length [OF assms, of i] by force
  then show "bit (body_property n sub enc ver AND MsgBodyPropertyLengthMask) i = bit (of_nat n :: uint16) i"
    by (auto simp: bit_simps bit_body_property [OF assms] bit_masks)
qed

lemma body_property_encryption:
  assumes "n \<le> 1023"
  shows "ucast (drop_bit 10 (body_property n sub enc ver AND MsgBodyPropertyEncryptionMask))
     = enc AND mask 3"
  by (rule bit_eqI) (auto simp: bit_simps bit_body_property [OF assms] bit_masks)

lemma body_property_flag:
  assumes "n \<le> 1023"
  shows "body_property n sub enc ver AND MsgBodyPropertySubPackageFlag = 0 \<longleftrightarrow> \<not> sub"
    and "body_property n sub enc ver AND MsgBodyPropertyVersionFlag = 0 \<longleftrightarrow> \<not> ver"
proof -
  let ?p = "body_property n sub enc ver"
  have "?p AND MsgBodyPropertySubPackageFlag = (if sub then MsgBodyPropertySubPackageFlag else 0)"
    by (rule bit_eqI) (cases "sub"; auto simp: bit_simps bit_body_property [OF assms] bit_masks)
  then show "?p AND MsgBodyPropertySubPackageFlag = 0 \<longleftrightarrow> \<not> sub"
    by (simp add: proto_consts)
  have "?p AND MsgBodyPropertyVersionFlag = (if ver then MsgBodyPropertyVersionFlag else 0)"
    by (rule bit_eqI) (cases "ver"; auto simp: bit_simps bit_body_property [OF assms] bit_masks)
  then show "?p AND MsgBodyPropertyVersionFlag = 0 \<longleftrightarrow> \<not> ver"
    by (simp add: proto_consts)
qed

lemma updateBodyProperty_eq:
  assumes "n \<le> 1023"
  shows "updateBodyProperty header n =
     header\<lparr>MsgBodyProperty :=
       body_property n (SubPackage header) (Encryption header) (ProtocolVersion header > 0)\<rparr>"
proof -
  have "of_nat n AND MsgBodyPropertyLengthMask = (of_nat n :: uint16)"
  proof (rule bit_eqI)
    fix i
    have "bit n i \<Longrightarrow> i < 10"
      using not_bit_length [OF assms, of i] by force
    then show "bit (of_nat n AND MsgBodyPropertyLengthMask) i = bit (of_nat n :: uint16) i"
      by (auto simp: bit_simps bit_masks)
  qed
  moreover have "(0x07 :: uint8) = mask 3"
    by (simp add: mask_eq_exp_minus_1)
  ultimately show ?thesis
    unfolding updateBodyProperty_def body_property_def Let_def
    by (simp only:) (simp add: or.assoc)
qed

section \<open>The header\<close>

definition phone_len :: "MessageHeader \<Rightarrow> nat" where
  "phone_len h = (if ProtocolVersion h > 0 then 10 else 6)"

definition header_len :: "MessageHeader \<Rightarrow> nat" where
  "header_len h = (if ProtocolVersion h > 0 then 17 else 12) + (if SubPackage h then 4 else 0)"

lemmas phone_lengths = terminalPhoneBCDLengthLegacy_def terminalPhoneBCDLength2019_def

lemma length_encodeHeader [wire_simps, simp]: "length (encodeHeader h) = header_len h"
  by (simp add: encodeHeader_def header_len_def phone_lengths Let_def)

lemma encodeHeader_eq:
  "encodeHeader h =
     put_u16 (MsgID h) @ put_u16 (MsgBodyProperty h)
     @ (if ProtocolVersion h > 0 then [ProtocolVersion h] else [])
     @ encodeBCD (PhoneNo h) (phone_len h) @ put_u16 (MsgFlowNo h)
     @ (if SubPackage h then [0, 1, 0, 1] else [])"
  by (simp add: encodeHeader_def phone_lengths phone_len_def put_u16_def Let_def)

text \<open>The header that comes back: what the wire format does not carry is normalised.\<close>

definition wire_header :: "MessageHeader \<Rightarrow> nat \<Rightarrow> MessageHeader" where
  "wire_header h n =
     \<lparr>MsgID = MsgID h,
      MsgBodyProperty = body_property n (SubPackage h) (Encryption h) (ProtocolVersion h > 0),
      ProtocolVersion = ProtocolVersion h,
      PhoneNo = decodeBCD (encodeBCD (PhoneNo h) (phone_len h)),
      MsgFlowNo = MsgFlowNo h,
      MsgBodyLength = of_nat n,
      SubPackage = SubPackage h,
      Encryption = Encryption h AND mask 3\<rparr>"

lemma go_slice_mid:
  "a = length xs \<Longrightarrow> b = length xs + length ys \<Longrightarrow> go_slice (xs @ ys @ zs) a b = Ok ys"
  by simp

lemma decodeHeader_encodeHeader:
  assumes "n \<le> 1023"
  shows "decodeHeader (encodeHeader (updateBodyProperty h n) @ body) = Ok (wire_header h n, header_len h)"
proof -
  define p where "p = body_property n (SubPackage h) (Encryption h) (ProtocolVersion h > 0)"
  define phone where "phone = encodeBCD (PhoneNo h) (phone_len h)"
  have phone: "length phone = (if ProtocolVersion h > 0 then 10 else 6)"
    by (simp add: phone_def phone_len_def)
  have flags: "p AND MsgBodyPropertySubPackageFlag = 0 \<longleftrightarrow> \<not> SubPackage h"
    "p AND MsgBodyPropertyVersionFlag = 0 \<longleftrightarrow> \<not> ProtocolVersion h > 0"
    unfolding p_def by (rule body_property_flag [OF assms])+
  have fields: "p AND MsgBodyPropertyLengthMask = of_nat n"
    "ucast (drop_bit 10 (p AND MsgBodyPropertyEncryptionMask)) = Encryption h AND mask 3"
    unfolding p_def by (rule body_property_length [OF assms] body_property_encryption [OF assms])+
  have wire: "encodeHeader (updateBodyProperty h n) =
      put_u16 (MsgID h) @ put_u16 p
      @ (if ProtocolVersion h > 0 then [ProtocolVersion h] else [])
      @ phone @ put_u16 (MsgFlowNo h) @ (if SubPackage h then [0, 1, 0, 1] else [])"
    unfolding updateBodyProperty_eq [OF assms] by (simp add: encodeHeader_eq phone_len_def phone_def p_def)
  show ?thesis
    unfolding wire wire_header_def decodeHeader_def phone_def [symmetric] p_def [symmetric]
    using phone flags fields
    by (cases "SubPackage h"; cases "ProtocolVersion h > 0")
      (simp_all add: put_u16_def phone_lengths header_len_def word_gt_0)
qed

section \<open>Frames\<close>

text \<open>
  The wire form of a message content (header and body): flag, escaped content with its
  checksum, flag; and what \<^verbatim>\<open>Decode\<close> does with the unescaped bytes between two flags.
\<close>

definition frame :: "byte list \<Rightarrow> byte list" where
  "frame content = [ProtocolFlag] @ escape (content @ [xor_all content]) @ [ProtocolFlag]"

definition decode_payload :: "byte list \<Rightarrow> byte list \<Rightarrow> Message res" where
  "decode_payload raw u =
     (if length u < 13 then Err ErrInvalidMessage
      else if xor_all u \<noteq> 0 then Err ErrInvalidChecksum
      else
        go_bind (decodeHeader (butlast u)) (\<lambda>(h, start).
        if start + unat (MsgBodyLength h) \<noteq> length u - 1 then Err ErrInvalidMessage
        else Ok \<lparr>Header = Some h, Body = drop start (butlast u), Raw = raw\<rparr>))"

lemma Encode_Ok:
  assumes "Header m = Some h" and "length (Body m) \<le> 1023"
  shows "Encode (Some m) =
     (Some (m\<lparr>Header := Some (updateBodyProperty h (length (Body m)))\<rparr>),
      Ok (frame (encodeHeader (updateBodyProperty h (length (Body m))) @ Body m)))"
  using assms by (simp add: Encode_def frame_def Let_def calculateChecksum_eq escape_append)

lemma Encode_Ok_iff:
  "(\<exists>f. snd (Encode msg) = Ok f) \<longleftrightarrow>
     (\<exists>m h. msg = Some m \<and> Header m = Some h \<and> length (Body m) \<le> 1023)"
  by (auto simp: Encode_def Let_def split: option.splits if_splits)

lemma safe_Encode: "safe (snd (Encode msg))"
  by (simp add: Encode_def Let_def split: option.splits)

lemma Decode_eq:
  "Decode data =
     (if length data < 2 then Err ErrInvalidMessage
      else if hd data \<noteq> ProtocolFlag \<or> last data \<noteq> ProtocolFlag then Err ErrInvalidFlag
      else go_bind (unescape (butlast (tl data))) (decode_payload data))"
proof (cases "length data < 2")
  case True
  then show ?thesis by (simp add: Decode_def)
next
  case False
  then have ne: "data \<noteq> []" by auto
  have slice: "take (length data - Suc (Suc 0)) (drop (Suc 0) data) = butlast (tl data)"
    by (simp add: butlast_conv_take drop_Suc)
  have payload: "(if length u < 13 then Err ErrInvalidMessage
      else
        go_bind (go_index u (length u - 1)) (\<lambda>expectedChecksum.
        go_bind (go_slice u 0 (length u - 1)) (\<lambda>content.
        if expectedChecksum \<noteq> calculateChecksum [content, []] then Err ErrInvalidChecksum
        else
          go_bind (decodeHeader content) (\<lambda>(header, bodyStart).
          let bodyEnd = length u - 1 in
          if bodyStart > bodyEnd then Err ErrInvalidMessage
          else if int bodyEnd - int bodyStart \<noteq> uint (MsgBodyLength header)
          then Err ErrInvalidMessage
          else
            go_bind (go_slice u bodyStart bodyEnd) (\<lambda>body.
            Ok \<lparr>Header = Some header, Body = body, Raw = data\<rparr>)))))
    = decode_payload data u" for u
  proof (cases "length u < 13")
    case True
    then show ?thesis by (simp add: decode_payload_def)
  next
    case False
    then have u: "u \<noteq> []" by auto
    then have "xor_all (butlast u @ [last u]) = xor_all u" by simp
    then have sum: "last u \<noteq> xor_all (butlast u) \<longleftrightarrow> xor_all u \<noteq> 0"
      by (simp del: append_butlast_last_id) (metis xor_eq_0_iff)
    have parts: "go_index u (length u - 1) = Ok (last u)" "go_slice u 0 (length u - 1) = Ok (butlast u)"
      using u by (simp_all add: last_conv_nth butlast_conv_take)
    have body: "(let bodyEnd = length u - 1 in
          if bodyStart > bodyEnd then Err ErrInvalidMessage
          else if int bodyEnd - int bodyStart \<noteq> uint (MsgBodyLength header)
          then Err ErrInvalidMessage
          else
            go_bind (go_slice u bodyStart bodyEnd) (\<lambda>body.
            Ok \<lparr>Header = Some header, Body = body, Raw = data\<rparr>))
      = (if bodyStart + unat (MsgBodyLength header) \<noteq> length u - 1 then Err ErrInvalidMessage
         else Ok \<lparr>Header = Some header, Body = drop bodyStart (butlast u), Raw = data\<rparr>)"
      for header bodyStart
    proof (cases "bodyStart > length u - 1")
      case True
      then show ?thesis by (simp add: Let_def)
    next
      case le: False
      have "(int (length u - 1) - int bodyStart \<noteq> uint (MsgBodyLength header)) =
          (bodyStart + unat (MsgBodyLength header) \<noteq> length u - 1)"
        unfolding uint_nat using le by linarith
      moreover have "go_slice u bodyStart (length u - 1) = Ok (drop bodyStart (butlast u))"
        using le by (simp add: butlast_conv_take drop_take)
      ultimately show ?thesis
        using le unfolding Let_def by simp
    qed
    show ?thesis
      unfolding parts go_bind.simps body calculateChecksum_eq decode_payload_def
      using False sum by simp
  qed
  from False ne show ?thesis
    unfolding Decode_def payload
    by (simp add: hd_conv_nth last_conv_nth slice)
qed

section \<open>Every frame is decoded without a panic\<close>

lemma be_uint16_take:
  "2 \<le> length xs \<Longrightarrow> \<exists>a b. xs = a # b # drop 2 xs \<and> be_uint16 (take 2 xs) = Ok (u16_be a b)"
  by (cases xs; cases "tl xs") auto

lemma safe_be_uint16: "2 \<le> length xs \<Longrightarrow> safe (be_uint16 xs)"
  by (cases xs; cases "tl xs") auto

lemma safe_decodeHeader: "safe (decodeHeader data)"
  unfolding decodeHeader_def Let_def
  by (auto intro!: safe_go_bindI safe_be_uint16 simp: phone_lengths split: if_splits)

lemma safe_decode_payload: "safe (decode_payload raw u)"
  unfolding decode_payload_def
  by (auto intro!: safe_go_bindI safe_decodeHeader)

lemma safe_Decode: "safe (Decode data)"
  unfolding Decode_eq by (auto intro!: safe_go_bindI safe_decode_payload)

section \<open>Decoding an encoded frame\<close>

lemma Decode_escaped: "Decode ([ProtocolFlag] @ escape u @ [ProtocolFlag]) = decode_payload ([ProtocolFlag] @ escape u @ [ProtocolFlag]) u"
  by (simp add: Decode_eq butlast_append)

lemma Decode_frame_encoded:
  assumes "n = length body" and "n \<le> 1023"
  shows "Decode (frame (encodeHeader (updateBodyProperty h n) @ body)) =
     Ok \<lparr>Header = Some (wire_header h n), Body = body,
         Raw = frame (encodeHeader (updateBodyProperty h n) @ body)\<rparr>"
proof -
  define c where "c = encodeHeader (updateBodyProperty h n) @ body"
  have len: "length c = header_len h + length body"
    using assms by (simp add: c_def header_len_def updateBodyProperty_eq)
  have dec: "decodeHeader c = Ok (wire_header h n, header_len h)"
    unfolding c_def by (rule decodeHeader_encodeHeader [OF assms(2)])
  have "unat (of_nat n :: uint16) = n"
    using assms(2) by (simp add: unsigned_of_nat take_bit_nat_eq_self)
  moreover have "drop (header_len h) c = body"
    using assms by (simp add: c_def header_len_def updateBodyProperty_eq)
  ultimately have "decode_payload raw (c @ [xor_all c]) =
      Ok \<lparr>Header = Some (wire_header h n), Body = body, Raw = raw\<rparr>" for raw
    using len assms by (simp add: decode_payload_def dec wire_header_def header_len_def)
  then show ?thesis
    unfolding c_def [symmetric] frame_def by (simp only: Decode_escaped)
qed

section \<open>Encoding a decoded frame\<close>

lemma be_uint16_inv: "be_uint16 xs = Ok w \<Longrightarrow> length xs = 2 \<Longrightarrow> xs = put_u16 w"
  by (cases xs; cases "tl xs") auto

lemma decodeBCD_full: "length (decodeBCD bs) = 2 * length bs \<Longrightarrow> list_all is_bcd bs"
proof (induction bs)
  case (Cons b bs)
  with length_decodeBCD_le [of bs] show ?case
    by (auto simp: decodeBCD_Cons is_bcd_def split: if_splits)
qed simp

text \<open>The fields of a header that came off the wire, by position.\<close>

lemma decodeHeader_inv:
  assumes dec: "decodeHeader c = Ok (h, start)"
    and plain: "\<not> SubPackage h"
    and version: "MsgBodyProperty h AND MsgBodyPropertyVersionFlag = 0 \<longleftrightarrow> ProtocolVersion h = 0"
    and phone: "length (PhoneNo h) = 2 * phone_len h"
  shows "start = header_len h" and "start \<le> length c" and "take start c = encodeHeader h"
proof -
  define v where "v = (if ProtocolVersion h > 0 then 1 else 0 :: nat)"
  have len: "12 \<le> length c"
    using dec by (simp add: decodeHeader_def split: if_splits)
  have read: "4 + v + phone_len h + 2 \<le> length c \<and> start = 4 + v + phone_len h + 2
    \<and> be_uint16 (take 2 c) = (Ok (MsgID h) :: uint16 res)
    \<and> be_uint16 (take 2 (drop 2 c)) = (Ok (MsgBodyProperty h) :: uint16 res)
    \<and> (ProtocolVersion h > 0 \<longrightarrow> ProtocolVersion h = c ! 4)
    \<and> PhoneNo h = decodeBCD (take (phone_len h) (drop (4 + v) c))
    \<and> be_uint16 (take 2 (drop (4 + v + phone_len h) c)) = (Ok (MsgFlowNo h) :: uint16 res)"
  proof (cases "ProtocolVersion h = 0")
    case True
    with dec plain version len show ?thesis
      by (auto simp: decodeHeader_def go_bind_Ok_iff Let_def phone_lengths phone_len_def v_def
          split: if_splits)
  next
    case False
    with dec plain version len show ?thesis
      by (auto simp: decodeHeader_def go_bind_Ok_iff Let_def phone_lengths phone_len_def v_def
          word_gt_0 split: if_splits)
  qed
  have "take v (drop 4 c) = (if ProtocolVersion h > 0 then [ProtocolVersion h] else [])"
    using len read by (simp add: v_def take_Suc_conv_app_nth hd_drop_conv_nth)
  with read len have parts: "12 \<le> length c" "4 + v + phone_len h + 2 \<le> length c" "start = 4 + v + phone_len h + 2"
    "be_uint16 (take 2 c) = (Ok (MsgID h) :: uint16 res)"
    "be_uint16 (take 2 (drop 2 c)) = (Ok (MsgBodyProperty h) :: uint16 res)"
    "take v (drop 4 c) = (if ProtocolVersion h > 0 then [ProtocolVersion h] else [])"
    "PhoneNo h = decodeBCD (take (phone_len h) (drop (4 + v) c))"
    "be_uint16 (take 2 (drop (4 + v + phone_len h) c)) = (Ok (MsgFlowNo h) :: uint16 res)"
    by blast+
  show "start = header_len h" and "start \<le> length c"
    using parts plain by (auto simp: header_len_def phone_len_def v_def)
  have "length (take (phone_len h) (drop (4 + v) c)) = phone_len h"
    using parts(2) by simp
  then have bcd: "encodeBCD (PhoneNo h) (phone_len h) = take (phone_len h) (drop (4 + v) c)"
    using phone encode_decodeBCD [OF decodeBCD_full, of "take (phone_len h) (drop (4 + v) c)"]
    by (simp add: parts(7))
  have "take start c = take 2 c @ take 2 (drop 2 c) @ take v (drop 4 c)
      @ take (phone_len h) (drop (4 + v) c) @ take 2 (drop (4 + v + phone_len h) c)"
  proof -
    have "start = 2 + (2 + (v + (phone_len h + 2)))"
      unfolding parts(3) by simp
    then show ?thesis
      by (simp only: take_add drop_drop) (simp add: ac_simps)
  qed
  moreover have "take 2 c = put_u16 (MsgID h)" "take 2 (drop 2 c) = put_u16 (MsgBodyProperty h)"
    "take 2 (drop (4 + v + phone_len h) c) = put_u16 (MsgFlowNo h)"
    using parts by (auto intro!: be_uint16_inv)
  ultimately show "take start c = encodeHeader h"
    using plain by (simp add: encodeHeader_eq bcd parts(6))
qed

lemma body_property_recompose:
  assumes "p AND MsgBodyPropertySubPackageFlag = 0" and "\<not> bit p 15"
  shows "body_property (unat (p AND MsgBodyPropertyLengthMask)) False
      (ucast (drop_bit 10 (p AND MsgBodyPropertyEncryptionMask)))
      (p AND MsgBodyPropertyVersionFlag \<noteq> 0) = p"
proof (rule bit_eqI)
  fix i
  assume "possible_bit TYPE(16 word) i"
  then have "i < 16" by simp
  have sub: "\<not> bit p 13"
    using arg_cong [OF assms(1), of "\<lambda>w. bit w 13"] by (auto simp: bit_simps bit_masks)
  have ver: "p AND MsgBodyPropertyVersionFlag \<noteq> 0 \<longleftrightarrow> bit p 14"
  proof (cases "bit p 14")
    case True
    then have "bit (p AND MsgBodyPropertyVersionFlag) 14" by (simp add: bit_simps bit_masks)
    with True show ?thesis by force
  next
    case False
    then have "p AND MsgBodyPropertyVersionFlag = 0"
      by (intro bit_eqI) (auto simp: bit_simps bit_masks)
    with False show ?thesis by simp
  qed
  have "p AND MsgBodyPropertyLengthMask \<le> MsgBodyPropertyLengthMask"
    by (rule word_and_le1)
  then have len: "unat (p AND MsgBodyPropertyLengthMask) \<le> 1023"
    by (simp add: word_le_nat_alt proto_consts)
  have "i < 10 \<or> 10 \<le> i \<and> i < 13 \<or> i = 13 \<or> i = 14 \<or> i = 15"
    using \<open>i < 16\<close> by arith
  then show "bit (body_property (unat (p AND MsgBodyPropertyLengthMask)) False
      (ucast (drop_bit 10 (p AND MsgBodyPropertyEncryptionMask)))
      (p AND MsgBodyPropertyVersionFlag \<noteq> 0)) i = bit p i"
    unfolding bit_body_property [OF len] ver
    using sub assms(2) by (auto simp: bit_simps bit_masks)
qed

text \<open>A frame that \<^verbatim>\<open>Encode\<close> could have written is written back byte for byte.\<close>

lemma Encode_Decode:
  assumes dec: "Decode data = Ok m" and h: "Header m = Some h"
    and inner: "ProtocolFlag \<notin> set (butlast (tl data))"
    and plain: "\<not> SubPackage h" and reserved: "\<not> bit (MsgBodyProperty h) 15"
    and version: "MsgBodyProperty h AND MsgBodyPropertyVersionFlag = 0 \<longleftrightarrow> ProtocolVersion h = 0"
    and phone: "length (PhoneNo h) = 2 * phone_len h"
  shows "snd (Encode (Some m)) = Ok data"
proof -
  from dec have flags: "2 \<le> length data" "hd data = ProtocolFlag" "last data = ProtocolFlag"
    by (auto simp: Decode_eq split: if_splits)
  then have data: "data = [ProtocolFlag] @ butlast (tl data) @ [ProtocolFlag]"
    using list_first_inner_last [of data] by simp
  from dec obtain u where u: "unescape (butlast (tl data)) = Ok u" and pay: "decode_payload data u = Ok m"
    by (auto simp: Decode_eq go_simps split: if_splits)
  define c where "c = butlast u"
  from pay h obtain start where c: "12 \<le> length c" "xor_all u = 0" "u \<noteq> []"
    and hdr: "decodeHeader c = Ok (h, start)"
    and body: "Body m = drop start c" "start + unat (MsgBodyLength h) = length c"
    by (fastforce simp: decode_payload_def go_simps c_def split: if_splits)
  have props: "MsgBodyLength h = MsgBodyProperty h AND MsgBodyPropertyLengthMask"
    "Encryption h = ucast (drop_bit 10 (MsgBodyProperty h AND MsgBodyPropertyEncryptionMask))"
    "SubPackage h \<longleftrightarrow> MsgBodyProperty h AND MsgBodyPropertySubPackageFlag \<noteq> 0"
    using hdr by (auto simp: decodeHeader_def go_simps Let_def split: if_splits)
  note inv = decodeHeader_inv [OF hdr plain version phone]
  have len: "length (Body m) = unat (MsgBodyLength h)"
    using body inv by simp
  have "MsgBodyLength h \<le> MsgBodyPropertyLengthMask"
    unfolding props by (rule word_and_le1)
  then have bound: "unat (MsgBodyLength h) \<le> 1023"
    by (simp add: word_le_nat_alt proto_consts)
  have "updateBodyProperty h (length (Body m)) = h"
    using body_property_recompose [of "MsgBodyProperty h"] props plain reserved version
    unfolding len updateBodyProperty_eq [OF bound] by (simp add: word_gt_0)
  then have enc: "snd (Encode (Some m)) = Ok (frame (encodeHeader h @ Body m))"
    using Encode_Ok [OF h] bound by (simp add: len)
  have "encodeHeader h @ Body m = c"
    using inv(3) body by (metis append_take_drop_id)
  moreover have "u = c @ [xor_all c]"
  proof -
    have "u = c @ [last u]" using c by (simp add: c_def)
    moreover from this c(2) have "last u = xor_all c"
      by (metis xor_all_append xor_all_Cons xor_all_Nil xor.right_neutral xor_eq_0_iff)
    ultimately show ?thesis by simp
  qed
  moreover have "escape u = butlast (tl data)"
    using u inner by (rule escape_unescape)
  ultimately have "frame (encodeHeader h @ Body m) = data"
    using data by (simp add: frame_def)
  with enc show ?thesis by simp
qed

text \<open>The equations that evaluate \<^verbatim>\<open>Decode\<close> on a concrete frame.\<close>

lemmas codec_eval = Decode_eq decode_payload_def decodeHeader_def phone_lengths u16_be_def
  decodeBCD_def Let_def proto_consts

section \<open>Properties\<close>

lemma header_len_le: "header_len h \<le> 21"
  by (simp add: header_len_def)

lemma length_frame_le: "length (frame c) \<le> 2 * length c + 4"
  using length_escape_le [of "c @ [xor_all c]"] by (simp add: frame_def)

text \<open>C4. Round trip of the codec: every message with a header and a body of at most 1023 bytes
  is encoded, and decoding the frame gives the same message ID, version, flow number, subpackage
  flag and body, the body length, the low three bits of the encryption field, and the phone
  number written over the 6 or 10 BCD bytes (so the same phone number when it fills them,
  padded with zeros on the right when it is shorter).\<close>

theorem Decode_Encode:
  assumes "Header m = Some h" and "length (Body m) \<le> 1023"
  shows "\<exists>f h'. snd (Encode (Some m)) = Ok f
     \<and> Decode f = Ok \<lparr>Header = Some h', Body = Body m, Raw = f\<rparr>
     \<and> MsgID h' = MsgID h \<and> ProtocolVersion h' = ProtocolVersion h \<and> MsgFlowNo h' = MsgFlowNo h
     \<and> SubPackage h' = SubPackage h \<and> unat (MsgBodyLength h') = length (Body m)
     \<and> Encryption h' = Encryption h AND 0x07
     \<and> (list_all is_digit (PhoneNo h) \<longrightarrow>
          PhoneNo h' = take (2 * phone_len h)
            (PhoneNo h @ replicate (2 * phone_len h - length (PhoneNo h)) 0x30))"
proof -
  let ?n = "length (Body m)"
  have "unat (of_nat ?n :: uint16) = ?n"
    using assms(2) by (simp add: unsigned_of_nat take_bit_nat_eq_self)
  moreover have "(0x07 :: uint8) = mask 3"
    by (simp add: mask_eq_exp_minus_1)
  ultimately show ?thesis
    using Encode_Ok [OF assms] Decode_frame_encoded [OF refl assms(2), of h] decode_encodeBCD [of "PhoneNo h"]
    by (intro exI [of _ "frame (encodeHeader (updateBodyProperty h ?n) @ Body m)"]
        exI [of _ "wire_header h ?n"]) (simp add: wire_header_def)
qed

definition sample_header :: MessageHeader where
  "sample_header = \<lparr>MsgID = MsgIDTerminalHeartbeat, MsgBodyProperty = 0, ProtocolVersion = 0,
     PhoneNo = [0x31, 0x33, 0x38], MsgFlowNo = 0x7E01, MsgBodyLength = 0, SubPackage = False,
     Encryption = 0\<rparr>"

definition sample_message :: Message where
  "sample_message = \<lparr>Header = Some sample_header, Body = [0x7E, 0x7D], Raw = []\<rparr>"

theorem Decode_Encode_witness:
  "\<exists>f h'. snd (Encode (Some sample_message)) = Ok f
     \<and> Decode f = Ok \<lparr>Header = Some h', Body = [0x7E, 0x7D], Raw = f\<rparr>
     \<and> MsgFlowNo h' = 0x7E01
     \<and> PhoneNo h' = [0x31, 0x33, 0x38, 0x30, 0x30, 0x30, 0x30, 0x30, 0x30, 0x30, 0x30, 0x30]"
proof -
  have "Header sample_message = Some sample_header" and "length (Body sample_message) \<le> 1023"
    by (simp_all add: sample_message_def)
  from Decode_Encode [OF this] obtain f h' where fh: "snd (Encode (Some sample_message)) = Ok f"
    "Decode f = Ok \<lparr>Header = Some h', Body = Body sample_message, Raw = f\<rparr>"
    "MsgFlowNo h' = MsgFlowNo sample_header"
    "list_all is_digit (PhoneNo sample_header) \<longrightarrow>
       PhoneNo h' = take (2 * phone_len sample_header) (PhoneNo sample_header
         @ replicate (2 * phone_len sample_header - length (PhoneNo sample_header)) 0x30)"
    by blast
  moreover have "list_all is_digit (PhoneNo sample_header)" "2 * phone_len sample_header = 12"
    by (simp_all add: sample_header_def is_digit_def phone_len_def)
  moreover have "take 12 (PhoneNo sample_header @ replicate (12 - length (PhoneNo sample_header)) 0x30)
      = [0x31, 0x33, 0x38, 0x30, 0x30, 0x30, 0x30, 0x30, 0x30, 0x30, 0x30, 0x30]"
    by code_simp
  ultimately show ?thesis
    by (auto simp: sample_message_def sample_header_def)
qed


definition sample_frame :: "byte list" where
  "sample_frame = [0x7E, 0x00, 0x02, 0x00, 0x01, 0x01, 0x38, 0x00, 0x13, 0x80, 0x00, 0x00, 0x7D, 0x01,
     0x09, 0xDD, 0x7E]"


text \<open>C9. \<^verbatim>\<open>Decode\<close> never panics, whatever bytes arrive, and its outcome is decided in this order:
  too short, missing flags, bad escape, content below 13 bytes, checksum, then the header and
  the length check.\<close>

theorem Decode_total:
  "safe (Decode data)
   \<and> Decode data =
      (if length data < 2 then Err ErrInvalidMessage
       else if \<not> (hd data = ProtocolFlag \<and> last data = ProtocolFlag) then Err ErrInvalidFlag
       else go_bind (unescape (butlast (tl data))) (\<lambda>u.
         if length u < 13 then Err ErrInvalidMessage
         else if xor_all u \<noteq> 0 then Err ErrInvalidChecksum
         else
           go_bind (decodeHeader (butlast u)) (\<lambda>(h, start).
           if start + unat (MsgBodyLength h) \<noteq> length u - 1 then Err ErrInvalidMessage
           else Ok \<lparr>Header = Some h, Body = drop start (butlast u), Raw = data\<rparr>)))"
proof -
  have "decode_payload data = (\<lambda>u.
         if length u < 13 then Err ErrInvalidMessage
         else if xor_all u \<noteq> 0 then Err ErrInvalidChecksum
         else
           go_bind (decodeHeader (butlast u)) (\<lambda>(h, start).
           if start + unat (MsgBodyLength h) \<noteq> length u - 1 then Err ErrInvalidMessage
           else Ok \<lparr>Header = Some h, Body = drop start (butlast u), Raw = data\<rparr>))"
    by (simp add: fun_eq_iff decode_payload_def)
  then show ?thesis
    using safe_Decode [of data] Decode_eq [of data] by simp
qed

text \<open>C25. Error detection: if one byte of a frame's unescaped content is changed in transit, the
  frame is rejected with the checksum error.\<close>

theorem Decode_detects_corruption:
  assumes "Decode ([ProtocolFlag] @ escape u @ [ProtocolFlag]) = Ok m"
    and "i < length u" and "b \<noteq> u ! i"
  shows "Decode ([ProtocolFlag] @ escape (u[i := b]) @ [ProtocolFlag]) = Err ErrInvalidChecksum"
proof -
  from assms(1) have "13 \<le> length u" and "xor_all u = 0"
    unfolding Decode_escaped decode_payload_def by (auto split: if_splits)
  moreover from this xor_all_detects [OF assms(2,3)] have "xor_all (u[i := b]) \<noteq> 0" by simp
  ultimately show ?thesis
    unfolding Decode_escaped by (simp add: decode_payload_def)
qed

theorem Decode_detects_corruption_witness:
  "\<exists>u. Decode ([ProtocolFlag] @ escape u @ [ProtocolFlag]) \<noteq> Err ErrInvalidChecksum
     \<and> Decode ([ProtocolFlag] @ escape (u[3 := 0x55]) @ [ProtocolFlag]) = Err ErrInvalidChecksum"
proof -
  let ?u = "[0x00, 0x02, 0x00, 0x01, 0x01, 0x38, 0x00, 0x13, 0x80, 0x00, 0x00, 0x7D, 0x09, 0xDD] :: byte list"
  have d: "\<exists>m. Decode ([ProtocolFlag] @ escape ?u @ [ProtocolFlag]) = Ok m"
    unfolding Decode_escaped by (simp add: codec_eval)
  then obtain m where d: "Decode ([ProtocolFlag] @ escape ?u @ [ProtocolFlag]) = Ok m" ..
  show ?thesis
    using Decode_detects_corruption [OF d, of 3 "0x55"] d by (intro exI [of _ ?u]) simp
qed

text \<open>What \<^verbatim>\<open>Encode\<close> writes: it succeeds exactly on messages with a header and at most 1023 body
  bytes; the frame opens and closes with the flag, has none inside, is at most 2094 bytes long,
  and its unescaped content sums to zero under exclusive or; of the caller's message only the
  body property word changes.\<close>

theorem Encode_frame:
  assumes "Encode msg = (msg', Ok f)"
  shows "\<exists>m h u. msg = Some m \<and> Header m = Some h \<and> length (Body m) \<le> 1023
     \<and> f = [ProtocolFlag] @ escape u @ [ProtocolFlag] \<and> ProtocolFlag \<notin> set (escape u)
     \<and> xor_all u = 0 \<and> length f \<le> 2094
     \<and> msg' = Some (m\<lparr>Header := Some (h\<lparr>MsgBodyProperty :=
           body_property (length (Body m)) (SubPackage h) (Encryption h) (ProtocolVersion h > 0)\<rparr>)\<rparr>)"
proof -
  from assms obtain m h where m: "msg = Some m" "Header m = Some h" "length (Body m) \<le> 1023"
    using Encode_Ok_iff [of msg] by auto
  define c where "c = encodeHeader (updateBodyProperty h (length (Body m))) @ Body m"
  from assms m have enc: "msg' = Some (m\<lparr>Header := Some (updateBodyProperty h (length (Body m)))\<rparr>)"
    "f = frame c"
    using Encode_Ok [OF m(2,3)] by (simp_all add: c_def)
  have "length c \<le> 21 + 1023"
    using m header_len_le [of "updateBodyProperty h (length (Body m))"] by (simp add: c_def)
  then have "length f \<le> 2094"
    using length_frame_le [of c] enc by simp
  then show ?thesis
    using enc m updateBodyProperty_eq [OF m(3), of h]
    by (intro exI [of _ m] exI [of _ h] exI [of _ "c @ [xor_all c]"])
      (simp add: frame_def escape_no_flag)
qed

theorem Encode_frame_witness:
  "\<exists>f. Encode (Some sample_message) = (fst (Encode (Some sample_message)), Ok f) \<and> length f \<le> 2094"
proof -
  obtain f where f: "Encode (Some sample_message) = (fst (Encode (Some sample_message)), Ok f)"
    by (simp add: Encode_def sample_message_def Let_def)
  from Encode_frame [OF f] f show ?thesis by blast
qed

end
