(* ===== verification/FrameReader.thy ===== *)
theory FrameReader
  imports Codec
begin

text \<open>
  Reading frames off a TCP stream: \<^verbatim>\<open>readMessage\<close> of \<^verbatim>\<open>transport/tcp.go\<close> and of
  \<^verbatim>\<open>transport/tcp_highperf.go\<close>. A \<^verbatim>\<open>bufio.Reader\<close> is the bytes that will still arrive and the
  error the connection ends with (\<^verbatim>\<open>io.EOF\<close>, a timeout, a reset).
\<close>

record reader =
  pending :: "byte list"
  final_error :: go_error

definition ReadByte :: "reader \<Rightarrow> byte res \<times> reader" where
  "ReadByte r =
     (case pending r of
        [] \<Rightarrow> (Err (final_error r), r)
      | b # bs \<Rightarrow> (Ok b, r\<lparr>pending := bs\<rparr>))"

section \<open>\<^verbatim>\<open>TCPServer.readMessage\<close>\<close>

definition effective_max :: "int \<Rightarrow> int" where
  "effective_max maxPacketSize = (if maxPacketSize \<le> 0 then 4096 else maxPacketSize)"

function read_content :: "int \<Rightarrow> byte list \<Rightarrow> reader \<Rightarrow> byte list res \<times> reader" where
  "read_content maxSize data r =
     (case ReadByte r of
        (Ok b, r') \<Rightarrow>
          (if b = 0x7E then (Ok data, r')
           else if int (length data) \<ge> maxSize then (Err (PacketExceedsMaxSize maxSize), r')
           else read_content maxSize (data @ [b]) r')
      | (Err e, r') \<Rightarrow> (Err e, r')
      | (Panic p, r') \<Rightarrow> (Panic p, r'))"
  by pat_completeness auto
termination
  by (relation "measure (\<lambda>(m, d, r). length (pending r))")
    (auto simp: ReadByte_def split: list.splits)

declare read_content.simps [simp del]

definition readMessage :: "int \<Rightarrow> reader \<Rightarrow> Message res \<times> reader" where
  "readMessage maxPacketSize r =
     (case ReadByte r of
        (Ok flag, r1) \<Rightarrow>
          (if flag \<noteq> 0x7E then (Err (InvalidFlagByte flag), r1)
           else
             (case read_content (effective_max maxPacketSize) [] r1 of
                (Ok data, r2) \<Rightarrow> (Decode ([0x7E] @ data @ [0x7E]), r2)
              | (Err e, r2) \<Rightarrow> (Err e, r2)
              | (Panic p, r2) \<Rightarrow> (Panic p, r2)))
      | (Err e, r1) \<Rightarrow> (Err e, r1)
      | (Panic p, r1) \<Rightarrow> (Panic p, r1))"

section \<open>\<^verbatim>\<open>HighPerfTCPServer.readMessage\<close>\<close>

text \<open>
  The same loop over a buffer taken from a pool. A pooled buffer still holds the bytes of an
  earlier message; it is truncated before use and put back with the bytes of this one.
\<close>

type_synonym buffer_pool = "byte list list"

definition pool_get :: "buffer_pool \<Rightarrow> byte list \<times> buffer_pool" where
  "pool_get pool = (case pool of [] \<Rightarrow> ([], []) | b # bs \<Rightarrow> (b, bs))"

function hp_read_content :: "int \<Rightarrow> byte list \<Rightarrow> reader \<Rightarrow> (byte list res \<times> byte list) \<times> reader" where
  "hp_read_content maxSize buf r =
     (case ReadByte r of
        (Ok b, r') \<Rightarrow>
          (if b = 0x7E then ((Ok buf, buf), r')
           else if int (length buf) \<ge> maxSize then ((Err (PacketExceedsMaxSize maxSize), buf), r')
           else hp_read_content maxSize (buf @ [b]) r')
      | (Err e, r') \<Rightarrow> ((Err e, buf), r')
      | (Panic p, r') \<Rightarrow> ((Panic p, buf), r'))"
  by pat_completeness auto
termination
  by (relation "measure (\<lambda>(m, d, r). length (pending r))")
    (auto simp: ReadByte_def split: list.splits)

declare hp_read_content.simps [simp del]

definition hp_readMessage ::
    "int \<Rightarrow> buffer_pool \<Rightarrow> reader \<Rightarrow> (Message res \<times> reader) \<times> buffer_pool" where
  "hp_readMessage maxPacketSize pool r =
     (case ReadByte r of
        (Ok flag, r1) \<Rightarrow>
          (if flag \<noteq> 0x7E then ((Err (InvalidFlagByte flag), r1), pool)
           else
             (let (stale, pool1) = pool_get pool
              in case hp_read_content (effective_max maxPacketSize) (take 0 stale) r1 of
                   ((Ok data, buf), r2) \<Rightarrow> ((Decode ([0x7E] @ data @ [0x7E]), r2), buf # pool1)
                 | ((Err e, buf), r2) \<Rightarrow> ((Err e, r2), buf # pool1)
                 | ((Panic p, buf), r2) \<Rightarrow> ((Panic p, r2), buf # pool1)))
      | (Err e, r1) \<Rightarrow> ((Err e, r1), pool)
      | (Panic p, r1) \<Rightarrow> ((Panic p, r1), pool))"

section \<open>The loop, step by step\<close>

lemma ReadByte_simps [simp]:
  "ReadByte \<lparr>pending = [], final_error = e\<rparr> = (Err e, \<lparr>pending = [], final_error = e\<rparr>)"
  "ReadByte \<lparr>pending = b # bs, final_error = e\<rparr> = (Ok b, \<lparr>pending = bs, final_error = e\<rparr>)"
  by (simp_all add: ReadByte_def)

lemma read_content_step [simp]:
  "read_content n data \<lparr>pending = [], final_error = e\<rparr> = (Err e, \<lparr>pending = [], final_error = e\<rparr>)"
  "read_content n data \<lparr>pending = b # bs, final_error = e\<rparr> =
     (if b = 0x7E then (Ok data, \<lparr>pending = bs, final_error = e\<rparr>)
      else if int (length data) \<ge> n
      then (Err (PacketExceedsMaxSize n), \<lparr>pending = bs, final_error = e\<rparr>)
      else read_content n (data @ [b]) \<lparr>pending = bs, final_error = e\<rparr>)"
  by (simp_all add: read_content.simps [of n data])

lemma hp_read_content_eq:
  "hp_read_content n buf r =
     (let (res, r') = read_content n buf r
      in ((res, snd (fst (hp_read_content n buf r))), r'))"
proof (induction n buf r rule: hp_read_content.induct)
  case (1 n buf r)
  show ?case
    using 1 by (cases "ReadByte r"; cases "fst (ReadByte r)")
      (auto simp: hp_read_content.simps [of n buf r] read_content.simps [of n buf r] Let_def
        split: prod.splits)
qed

text \<open>Flag-free bytes followed by a flag are read up to the flag, if they fit.\<close>

lemma read_content_frame:
  "0x7E \<notin> set xs \<Longrightarrow> int (length data + length xs) \<le> n \<Longrightarrow>
     read_content n data \<lparr>pending = xs @ 0x7E # rest, final_error = e\<rparr>
       = (Ok (data @ xs), \<lparr>pending = rest, final_error = e\<rparr>)"
  by (induction xs arbitrary: data) auto

text \<open>Where the loop stops and how much it has consumed, in every outcome.\<close>

lemma read_content_bounds:
  assumes "read_content n data \<lparr>pending = ps, final_error = e\<rparr> = (res, r')"
    and "int (length data) \<le> n"
  shows "final_error r' = e \<and> safe res
     \<and> (\<exists>used. ps = used @ pending r' \<and> int (length used) \<le> n - int (length data) + 1
          \<and> (\<forall>c. res = Ok c \<longrightarrow> (\<exists>xs. c = data @ xs \<and> used = xs @ [0x7E] \<and> 0x7E \<notin> set xs)))"
  using assms
proof (induction ps arbitrary: data)
  case Nil
  then show ?case by (auto intro: exI [of _ "[]"])
next
  case (Cons b ps)
  consider "b = 0x7E" | "b \<noteq> 0x7E" "int (length data) \<ge> n" | "b \<noteq> 0x7E" "int (length data) < n"
    by linarith
  then show ?case
  proof cases
    case 1
    with Cons.prems show ?thesis by (intro conjI exI [of _ "[b]"]) auto
  next
    case 2
    with Cons.prems show ?thesis by (intro conjI exI [of _ "[b]"]) auto
  next
    case 3
    with Cons.prems Cons.IH [of "data @ [b]"] obtain used where u:
      "final_error r' = e" "safe res" "ps = used @ pending r'" "int (length used) \<le> n - int (length data)"
      "\<forall>c. res = Ok c \<longrightarrow> (\<exists>xs. c = data @ b # xs \<and> used = xs @ [0x7E] \<and> 0x7E \<notin> set xs)"
      by auto
    have "\<exists>xs. c = data @ xs \<and> b # used = xs @ [0x7E] \<and> 0x7E \<notin> set xs" if "res = Ok c" for c
    proof -
      from u that obtain xs where "c = data @ b # xs" "used = xs @ [0x7E]" "0x7E \<notin> set xs"
        by blast
      with 3 show ?thesis by (intro exI [of _ "b # xs"]) auto
    qed
    with u 3 show ?thesis
      by (intro conjI exI [of _ "b # used"]) auto
  qed
qed

section \<open>Reading a frame\<close>

lemma effective_max_pos: "0 < effective_max n"
  by (simp add: effective_max_def)

lemma readMessage_frame:
  assumes "ProtocolFlag \<notin> set xs" and "int (length xs) \<le> effective_max n"
  shows "readMessage n \<lparr>pending = [ProtocolFlag] @ xs @ [ProtocolFlag] @ rest, final_error = e\<rparr>
     = (Decode ([ProtocolFlag] @ xs @ [ProtocolFlag]), \<lparr>pending = rest, final_error = e\<rparr>)"
  using assms read_content_frame [of xs "[]" "effective_max n" rest e]
  by (simp add: readMessage_def ProtocolFlag_def)

lemma readMessage_EOF [simp]:
  "readMessage n \<lparr>pending = [], final_error = e\<rparr> = (Err e, \<lparr>pending = [], final_error = e\<rparr>)"
  by (simp add: readMessage_def)

lemma hp_readMessage_eq: "fst (hp_readMessage n pool r) = readMessage n r"
proof (cases "ReadByte r")
  case (Pair flag r1)
  show ?thesis
  proof (cases flag)
    case (Ok b)
    obtain stale pool1 where pool: "pool_get pool = (stale, pool1)" by fastforce
    obtain res r2 where rc: "read_content (effective_max n) [] r1 = (res, r2)" by fastforce
    then have hp: "hp_read_content (effective_max n) [] r1
        = ((res, snd (fst (hp_read_content (effective_max n) [] r1))), r2)"
      using hp_read_content_eq [of "effective_max n" "[]" r1] by simp
    show ?thesis
      using Pair Ok pool rc
      by (cases res; subst hp_readMessage_def; simp add: readMessage_def; subst hp; simp)
  qed (use Pair in \<open>simp_all add: hp_readMessage_def readMessage_def\<close>)
qed

lemma readMessage_encoded_eq:
  assumes "Encode msg = (msg', Ok f)" and "n \<le> 0 \<or> 2092 \<le> n"
  shows "readMessage n \<lparr>pending = f @ rest, final_error = e\<rparr>
     = (Decode f, \<lparr>pending = rest, final_error = e\<rparr>)"
proof -
  obtain m h where m: "msg = Some m" "Header m = Some h" "length (Body m) \<le> 1023"
    using assms(1) Encode_Ok_iff [of msg] by auto
  define c where "c = encodeHeader (updateBodyProperty h (length (Body m))) @ Body m"
  have f: "f = frame c"
    using assms(1) Encode_Ok [OF m(2,3)] m by (simp add: c_def)
  have "length c \<le> 21 + 1023"
    using m header_len_le [of "updateBodyProperty h (length (Body m))"] by (simp add: c_def)
  then have "length (escape (c @ [xor_all c])) \<le> 2090"
    using length_escape_le [of "c @ [xor_all c]"] by simp
  then have "int (length (escape (c @ [xor_all c]))) \<le> effective_max n"
    using assms(2) by (auto simp: effective_max_def)
  with escape_no_flag readMessage_frame show ?thesis
    unfolding f frame_def by (simp del: escape.simps)
qed

section \<open>Properties\<close>

text \<open>C10. Framing: when the stream starts with a frame written by \<^verbatim>\<open>Encode\<close>, \<^verbatim>\<open>readMessage\<close>
  consumes exactly that frame and returns what \<^verbatim>\<open>Decode\<close> makes of it, for the default packet
  limit and every limit of at least 2092 bytes: no message the codec can encode is refused as too
  long, and the bytes after it are left for the next call.\<close>

theorem readMessage_encoded:
  assumes "Encode msg = (msg', Ok f)" and "n \<le> 0 \<or> 2092 \<le> n"
  shows "readMessage n \<lparr>pending = f @ rest, final_error = e\<rparr>
     = (Decode f, \<lparr>pending = rest, final_error = e\<rparr>)"
  using assms by (rule readMessage_encoded_eq)

theorem readMessage_encoded_witness:
  "\<exists>f. readMessage 0 \<lparr>pending = f @ [0x7E], final_error = IoEOF\<rparr>
     = (Decode f, \<lparr>pending = [0x7E], final_error = IoEOF\<rparr>)"
proof -
  obtain f where f: "Encode (Some sample_message) = (fst (Encode (Some sample_message)), Ok f)"
    by (simp add: Encode_def sample_message_def Let_def)
  have "(0::int) \<le> 0 \<or> 2092 \<le> (0::int)" by simp
  from readMessage_encoded [OF f this] show ?thesis by blast
qed

text \<open>C11. Bounded buffering: whatever the peer sends, \<^verbatim>\<open>readMessage\<close> does not panic, takes at least
  one byte and at most \<^verbatim>\<open>MaxPacketSize + 2\<close> bytes off a stream that is not exhausted, and a
  returned message is the decoding of exactly the bytes taken.\<close>

theorem readMessage_bounded:
  assumes "readMessage n r = (res, r')"
  shows "safe res \<and> final_error r' = final_error r
     \<and> (\<exists>used. pending r = used @ pending r' \<and> int (length used) \<le> effective_max n + 2
          \<and> (pending r \<noteq> [] \<longrightarrow> used \<noteq> []) \<and> (\<forall>m. res = Ok m \<longrightarrow> Decode used = Ok m \<and> Raw m = used))"
proof -
  obtain ps e where r: "r = \<lparr>pending = ps, final_error = e\<rparr>"
    by (cases r) auto
  have raw: "Decode d = Ok m \<Longrightarrow> Raw m = d" for d m
    by (auto simp: Decode_eq decode_payload_def go_simps split: if_splits)
  consider "ps = []" | b bs where "ps = b # bs" "b \<noteq> 0x7E" | bs where "ps = 0x7E # bs"
    by (cases ps) auto
  then show ?thesis
  proof cases
    case 1
    with assms r effective_max_pos [of n] show ?thesis by auto
  next
    case 2
    with assms r effective_max_pos [of n] show ?thesis
      by (intro conjI exI [of _ "[b]"]) (auto simp: readMessage_def)
  next
    case 3
    obtain c r2 where rc: "read_content (effective_max n) [] \<lparr>pending = bs, final_error = e\<rparr> = (c, r2)"
      by fastforce
    have "int (length ([] :: byte list)) \<le> effective_max n"
      using effective_max_pos [of n] by simp
    from read_content_bounds [OF rc this] obtain used where u:
      "final_error r2 = e" "safe c" "bs = used @ pending r2" "int (length used) \<le> effective_max n + 1"
      "\<forall>d. c = Ok d \<longrightarrow> used = d @ [0x7E]"
      by auto
    from assms r 3 rc have res: "r' = r2" "res = (case c of Ok d \<Rightarrow> Decode ([0x7E] @ d @ [0x7E])
        | Err x \<Rightarrow> Err x | Panic p \<Rightarrow> Panic p)"
      by (auto simp: readMessage_def split: go.splits)
    then have "safe res" using u(2) safe_Decode by (cases c) auto
    then show ?thesis
      using r 3 res u raw
      by (intro conjI exI [of _ "0x7E # used"]) (auto split: go.splits)
  qed
qed

theorem readMessage_bounded_witness:
  "\<exists>res r'. readMessage 4 \<lparr>pending = [0x7E, 1, 2, 3, 4, 5, 6, 7], final_error = IoEOF\<rparr> = (res, r')
     \<and> res = Err (PacketExceedsMaxSize 4) \<and> safe res"
proof -
  have "readMessage 4 \<lparr>pending = [0x7E, 1, 2, 3, 4, 5, 6, 7], final_error = IoEOF\<rparr>
      = (Err (PacketExceedsMaxSize 4), \<lparr>pending = [6, 7], final_error = IoEOF\<rparr>)"
    by (simp add: readMessage_def effective_max_def)
  from readMessage_bounded [OF this] this show ?thesis by blast
qed

text \<open>C33. The pooled reader of the high-performance server is the plain reader: for every pool of
  buffers, whatever bytes earlier messages left in them, it returns the same result and leaves
  the same stream.\<close>

theorem hp_readMessage_equiv: "fst (hp_readMessage n pool r) = readMessage n r"
  by (rule hp_readMessage_eq)

end
