(* ===== verification/GoTime.thy ===== *)
theory GoTime
  imports CoreTypes
begin

text \<open>
  The calendar part of Go's \<^verbatim>\<open>time\<close> package that the SDK uses: \<^verbatim>\<open>time.Date\<close> with its
  normalisation of out-of-range fields, in the proleptic Gregorian calendar. \<^verbatim>\<open>time.Local\<close> is
  the machine's zone and a parameter: a function that gives, for an instant in Unix seconds, the
  zone's offset and the half-open range of instants for which it holds.
\<close>

type_synonym zone = "int \<Rightarrow> int \<times> int \<times> int"

definition fixed_zone :: "int \<Rightarrow> zone" where
  "fixed_zone offset = (\<lambda>_. (offset, - (2 ^ 63), 2 ^ 63))"

section \<open>The day count\<close>

definition is_leap :: "int \<Rightarrow> bool" where
  "is_leap y \<longleftrightarrow> 4 dvd y \<and> (\<not> 100 dvd y \<or> 400 dvd y)"

text \<open>Days from 1 January of year 1 to 1 January of year \<open>y\<close>.\<close>

definition days_before_year :: "int \<Rightarrow> int" where
  "days_before_year y = 365 * (y - 1) + (y - 1) div 4 - (y - 1) div 100 + (y - 1) div 400"

definition month_starts :: "int list" where
  "month_starts = [0, 31, 59, 90, 120, 151, 181, 212, 243, 273, 304, 334, 365]"

text \<open>Days from 1 January to the first of month \<open>m\<close>, \<open>1 \<le> m \<le> 13\<close>.\<close>

definition days_before_month :: "int \<Rightarrow> int \<Rightarrow> int" where
  "days_before_month y m = month_starts ! nat (m - 1) + (if is_leap y \<and> m > 2 then 1 else 0)"

text \<open>719162 is the number of days from year 1 to 1 January 1970.\<close>

definition unix_days :: "int \<Rightarrow> int \<Rightarrow> int \<Rightarrow> int" where
  "unix_days y m d = days_before_year y + days_before_month y m + (d - 1) - 719162"

section \<open>\<^verbatim>\<open>time.Date\<close>\<close>

definition norm :: "int \<Rightarrow> int \<Rightarrow> int \<Rightarrow> int \<times> int" where
  "norm hi lo base = (hi + lo div base, lo mod base)"

definition local_seconds :: "int \<Rightarrow> int \<Rightarrow> int \<Rightarrow> int \<Rightarrow> int \<Rightarrow> int \<Rightarrow> int" where
  "local_seconds year month day hour mnt sec =
     (let (year1, m0) = norm year (month - 1) 12;
          (mnt1, sec1) = norm mnt sec 60;
          (hour1, mnt2) = norm hour mnt1 60;
          (day1, hour2) = norm day hour1 24
      in unix_days year1 (m0 + 1) day1 * 86400 + hour2 * 3600 + mnt2 * 60 + sec1)"

definition to_utc :: "zone \<Rightarrow> int \<Rightarrow> int" where
  "to_utc loc unix =
     (let (offset, start, until) = loc unix
      in if offset = 0 then unix
         else
           (let utc = unix - offset
            in if utc < start \<or> utc \<ge> until then unix - fst (loc utc) else utc))"

definition go_Date :: "int \<Rightarrow> int \<Rightarrow> int \<Rightarrow> int \<Rightarrow> int \<Rightarrow> int \<Rightarrow> zone \<Rightarrow> go_time" where
  "go_Date year month day hour mnt sec loc =
     to_utc loc (local_seconds year month day hour mnt sec) * 10 ^ 9"

text \<open>\<^verbatim>\<open>time.Time{}\<close>: midnight of 1 January of year 1, UTC.\<close>

definition zero_time :: go_time where
  "zero_time = - 62135596800 * 10 ^ 9"

section \<open>The calendar is in order\<close>

definition days_in_month :: "int \<Rightarrow> int \<Rightarrow> int" where
  "days_in_month y m =
     (if m = 2 then (if is_leap y then 29 else 28)
      else if m = 4 \<or> m = 6 \<or> m = 9 \<or> m = 11 then 30 else 31)"

definition valid_date :: "int \<Rightarrow> int \<Rightarrow> int \<Rightarrow> bool" where
  "valid_date y m d \<longleftrightarrow> 1 \<le> m \<and> m \<le> 12 \<and> 1 \<le> d \<and> d \<le> days_in_month y m"

lemma month_cases:
  assumes "1 \<le> (m::int)" and "m \<le> 12"
  shows "m \<in> {1, 2, 3, 4, 5, 6, 7, 8, 9, 10, 11, 12}"
  using assms by (simp, arith)

lemma days_before_month_step:
  assumes "1 \<le> m" and "m \<le> 12"
  shows "days_before_month y (m + 1) = days_before_month y m + days_in_month y m"
  using month_cases [OF assms]
  by (elim insertE emptyE) (simp_all add: days_before_month_def days_in_month_def month_starts_def)

lemma days_in_month_pos: "0 < days_in_month y m"
  by (simp add: days_in_month_def)

lemma days_before_month_mono:
  assumes "1 \<le> m" and "m < m'" and "m' \<le> 13"
  shows "days_before_month y m + days_in_month y m \<le> days_before_month y m'"
proof -
  have "days_before_month y m + days_in_month y m \<le> days_before_month y (m + 1 + int k)"
    if "m + 1 + int k \<le> 13" for k
    using that
  proof (induction k)
    case 0
    then show ?case using days_before_month_step [of m y] assms by simp
  next
    case (Suc k)
    then have "days_before_month y (m + 1 + int k + 1)
        = days_before_month y (m + 1 + int k) + days_in_month y (m + 1 + int k)"
      using assms by (intro days_before_month_step) auto
    with Suc days_in_month_pos [of y "m + 1 + int k"] show ?case
      by (simp add: add.commute add.left_commute)
  qed
  from this [of "nat (m' - m - 1)"] assms show ?thesis by simp
qed

lemma days_before_month_ends:
  "days_before_month y 1 = 0" "days_before_month y 13 = (if is_leap y then 366 else 365)"
  by (simp_all add: days_before_month_def month_starts_def)

lemma div_step: "0 < k \<Longrightarrow> (y::int) div k = (y - 1) div k + (if k dvd y then 1 else 0)"
proof -
  assume k: "0 < k"
  show ?thesis
  proof (cases "k dvd y")
    case True
    then obtain q where "y = k * q" ..
    moreover have "(k * q - 1) div k = q - 1"
      by (rule int_div_pos_eq [where r = "k - 1"]) (use k in \<open>simp_all add: right_diff_distrib\<close>)
    ultimately show ?thesis using True k by simp
  next
    case False
    then have "y mod k \<noteq> 0" by (simp add: dvd_eq_mod_eq_0)
    moreover have "0 \<le> y mod k" and "y mod k < k" using k by simp_all
    moreover have "y - 1 = k * (y div k) + (y mod k - 1)"
      using mult_div_mod_eq [of k y] by linarith
    ultimately have "(y - 1) div k = y div k"
      by (intro int_div_pos_eq [where r = "y mod k - 1"]) linarith+
    with False show ?thesis by simp
  qed
qed

lemma days_before_year_step:
  "days_before_year (y + 1) = days_before_year y + (if is_leap y then 366 else 365)"
proof -
  have steps: "y div 4 = (y - 1) div 4 + (if 4 dvd y then 1 else 0)"
    "y div 100 = (y - 1) div 100 + (if 100 dvd y then 1 else 0)"
    "y div 400 = (y - 1) div 400 + (if 400 dvd y then 1 else 0)"
    by (rule div_step, simp)+
  have "400 dvd y \<Longrightarrow> 100 dvd y" and "100 dvd y \<Longrightarrow> 4 dvd y"
    by presburger+
  then have leap: "(if 4 dvd y then 1 else 0) - (if 100 dvd y then 1 else 0) + (if 400 dvd y then 1 else 0)
      = (if is_leap y then 1 else (0::int))"
    unfolding is_leap_def by (cases "4 dvd y"; cases "100 dvd y"; cases "400 dvd y") simp_all
  have "days_before_year (y + 1) = 365 * y + y div 4 - y div 100 + y div 400"
    by (simp add: days_before_year_def)
  also have "\<dots> = days_before_year y + 365 + (if is_leap y then 1 else 0)"
    unfolding steps leap [symmetric] days_before_year_def by (simp only: right_diff_distrib)
  finally show ?thesis by simp
qed

lemma days_before_year_mono: "y < y' \<Longrightarrow> days_before_year (y + 1) \<le> days_before_year y'"
proof (induction "nat (y' - y - 1)" arbitrary: y')
  case 0
  then have "y' = y + 1" by simp
  then show ?case by simp
next
  case (Suc k)
  then have "k = nat (y' - 1 - y - 1)" and "y < y' - 1" by simp_all
  then have "days_before_year (y + 1) \<le> days_before_year (y' - 1)"
    by (rule Suc.hyps(1))
  also have "\<dots> \<le> days_before_year y'"
    using days_before_year_step [of "y' - 1"] by (simp split: if_splits)
  finally show ?case .
qed

text \<open>The day count follows the lexicographic order of year, month and day on calendar dates.\<close>

lemma unix_days_mono:
  assumes "valid_date y m d" and "valid_date y' m' d'"
    and "y < y' \<or> y = y' \<and> (m < m' \<or> m = m' \<and> d < d')"
  shows "unix_days y m d < unix_days y' m' d'"
proof -
  have in_year: "days_before_month y m + d \<le> (if is_leap y then 366 else 365)"
  proof (cases "m = 12")
    case True
    with assms(1) days_before_month_step [of 12 y] show ?thesis
      by (simp add: valid_date_def days_before_month_ends)
  next
    case False
    with assms(1) days_before_month_mono [of m 13 y] show ?thesis
      by (auto simp: valid_date_def days_before_month_ends)
  qed
  have start: "0 \<le> days_before_month y' m'"
    using assms(2) month_cases [of m']
    by (auto simp: valid_date_def days_before_month_def month_starts_def)
  consider "y < y'" | "y = y'" "m < m'" | "y = y'" "m = m'" "d < d'"
    using assms(3) by blast
  then show ?thesis
  proof cases
    case 1
    with in_year start assms(2) days_before_year_mono [of y y'] days_before_year_step [of y] show ?thesis
      by (auto simp: unix_days_def valid_date_def)
  next
    case 2
    with assms days_before_month_mono [of m m' y] show ?thesis
      by (auto simp: unix_days_def valid_date_def)
  next
    case 3
    then show ?thesis by (simp add: unix_days_def)
  qed
qed

section \<open>Clock readings\<close>

definition valid_clock :: "int \<Rightarrow> int \<Rightarrow> int \<Rightarrow> bool" where
  "valid_clock h mi s \<longleftrightarrow> 0 \<le> h \<and> h < 24 \<and> 0 \<le> mi \<and> mi < 60 \<and> 0 \<le> s \<and> s < 60"

lemma local_seconds_valid:
  assumes "valid_date y m d" and "valid_clock h mi s"
  shows "local_seconds y m d h mi s = unix_days y m d * 86400 + h * 3600 + mi * 60 + s"
proof -
  have "(m - 1) div 12 = 0" and "(m - 1) mod 12 = m - 1"
    using assms(1) by (simp_all add: valid_date_def)
  with assms(2) show ?thesis
    by (simp add: local_seconds_def norm_def valid_clock_def)
qed

definition clock_seconds :: "int \<Rightarrow> int \<Rightarrow> int \<Rightarrow> int" where
  "clock_seconds h mi s = h * 3600 + mi * 60 + s"

lemma clock_seconds_bounds: "valid_clock h mi s \<Longrightarrow> 0 \<le> clock_seconds h mi s \<and> clock_seconds h mi s < 86400"
  by (auto simp: valid_clock_def clock_seconds_def)

text \<open>In a zone without transitions the instants follow the order of the six fields.\<close>

lemma to_utc_fixed:
  assumes "- (2 ^ 63) \<le> unix - offset" and "unix - offset < 2 ^ 63"
  shows "to_utc (fixed_zone offset) unix = unix - offset"
  using assms by (simp add: to_utc_def fixed_zone_def)

lemma local_seconds_mono:
  assumes "valid_date y m d" "valid_clock h mi s" "valid_date y' m' d'" "valid_clock h' mi' s'"
    and "(y < y' \<or> y = y' \<and> (m < m' \<or> m = m' \<and> d < d'))
       \<or> (y = y' \<and> m = m' \<and> d = d' \<and> clock_seconds h mi s < clock_seconds h' mi' s')"
  shows "local_seconds y m d h mi s < local_seconds y' m' d' h' mi' s'"
proof -
  have eqs: "local_seconds y m d h mi s = unix_days y m d * 86400 + clock_seconds h mi s"
    "local_seconds y' m' d' h' mi' s' = unix_days y' m' d' * 86400 + clock_seconds h' mi' s'"
    using assms by (simp_all add: local_seconds_valid clock_seconds_def)
  from assms(5) consider "unix_days y m d < unix_days y' m' d'"
    | "unix_days y m d = unix_days y' m' d'" "clock_seconds h mi s < clock_seconds h' mi' s'"
    using unix_days_mono [OF assms(1,3)] by blast
  then show ?thesis
    using clock_seconds_bounds [OF assms(2)] clock_seconds_bounds [OF assms(4)]
    unfolding eqs by cases linarith+
qed

end
