(* ===== verification/BodyParsers.thy ===== *)
theory BodyParsers
  imports GoTime Bcd
begin

text \<open>
  The body parsers of \<^verbatim>\<open>protocol/codec.go\<close>: \<^verbatim>\<open>ParseLocationReport\<close>, \<^verbatim>\<open>ParseTerminalRegister\<close> and
  \<^verbatim>\<open>parseBCDTime\<close>. \<open>location_body\<close> and \<open>register_body\<close> are the wire layouts the parsers invert;
  the theorems show that the parsers never panic, reject exactly the short bodies, recover
  every field (the raw coordinates through the rounded division by 100000), and that the BCD
  time stamps are ordered as their bytes are.
\<close>

section \<open>The parsers\<close>

definition terminalRegisterMinLength :: nat where
  "terminalRegisterMinLength = 47"

text \<open>\<^verbatim>\<open>int(b>>4)*10 + int(b&0x0F)\<close>\<close>

definition bcd_int :: "byte \<Rightarrow> int" where
  "bcd_int b = uint (drop_bit 4 b) * 10 + uint (b AND 0x0F)"

definition parseBCDTime :: "zone \<Rightarrow> byte list \<Rightarrow> go_time" where
  "parseBCDTime loc data =
     (if length data < 6 then zero_time
      else
        (let year = 2000 + bcd_int (data ! 0);
             month = bcd_int (data ! 1);
             day = bcd_int (data ! 2);
             hour = bcd_int (data ! 3);
             minute = bcd_int (data ! 4);
             second = bcd_int (data ! 5)
         in go_Date year month day hour minute second loc))"

definition body_u16 :: "byte list \<Rightarrow> nat \<Rightarrow> uint16 res" where
  "body_u16 body offset = go_bind (go_slice body offset (offset + 2)) be_uint16"

definition body_u32 :: "byte list \<Rightarrow> nat \<Rightarrow> uint32 res" where
  "body_u32 body offset = go_bind (go_slice body offset (offset + 4)) be_uint32"

definition coordinate :: "uint32 \<Rightarrow> float64" where
  "coordinate raw = f64_div (f64_of_int (uint raw)) 100000"

definition ParseLocationReport :: "zone \<Rightarrow> byte list \<Rightarrow> LocationReport res" where
  "ParseLocationReport loc body =
     (if length body < 28 then Err (InvalidLocationReportBodyLength (length body))
      else
        go_bind (body_u32 body 0) (\<lambda>alarm.
        go_bind (body_u32 body 4) (\<lambda>status.
        go_bind (body_u32 body 8) (\<lambda>lat.
        go_bind (body_u32 body 12) (\<lambda>lng.
        go_bind (body_u16 body 16) (\<lambda>altitude.
        go_bind (body_u16 body 18) (\<lambda>speed.
        go_bind (body_u16 body 20) (\<lambda>direction.
        go_bind (go_slice body 22 28) (\<lambda>bcd.
          Ok \<lparr>LR_AlarmFlag = alarm, LR_Status = status, LR_Latitude = coordinate lat,
              LR_Longitude = coordinate lng, LR_Altitude = altitude, LR_Speed = speed,
              LR_Direction = direction, LR_Time = parseBCDTime loc bcd\<rparr>)))))))))"

text \<open>\<^verbatim>\<open>bytes.TrimRight(s, "\x00")\<close>\<close>

definition trim_right_nul :: "byte list \<Rightarrow> byte list" where
  "trim_right_nul s = rev (dropWhile (\<lambda>b. b = 0) (rev s))"

definition ParseTerminalRegister :: "byte list \<Rightarrow> TerminalRegister res" where
  "ParseTerminalRegister body =
     (if length body < terminalRegisterMinLength
      then Err (InvalidTerminalRegisterBodyLength (length body))
      else
        go_bind (body_u16 body 0) (\<lambda>province.
        go_bind (body_u16 body 2) (\<lambda>city.
        go_bind (go_slice body 4 9) (\<lambda>manufacturer.
        go_bind (go_slice body 9 39) (\<lambda>typ.
        go_bind (go_slice body 39 46) (\<lambda>ident.
        go_bind (go_index body 46) (\<lambda>color.
        go_bind (if 47 < length body then go_bind (go_slice body 47 (length body)) (\<lambda>p. Ok (trim_right_nul p))
                 else Ok []) (\<lambda>plate.
          Ok \<lparr>ProvinceID = province, CityID = city, ManufacturerID = manufacturer,
              TerminalType = trim_right_nul typ, TerminalID = trim_right_nul ident,
              PlateColor = color, PlateNo = plate\<rparr>))))))))"

section \<open>The wire layouts\<close>

definition location_body ::
  "uint32 \<Rightarrow> uint32 \<Rightarrow> uint32 \<Rightarrow> uint32 \<Rightarrow> uint16 \<Rightarrow> uint16 \<Rightarrow> uint16 \<Rightarrow> byte list \<Rightarrow> byte list" where
  "location_body alarm status lat lng altitude speed direction bcd =
     put_u32 alarm @ put_u32 status @ put_u32 lat @ put_u32 lng @
     put_u16 altitude @ put_u16 speed @ put_u16 direction @ bcd"

definition pad_nul :: "nat \<Rightarrow> byte list \<Rightarrow> byte list" where
  "pad_nul n s = s @ replicate (n - length s) 0"

definition register_body :: "TerminalRegister \<Rightarrow> byte list" where
  "register_body r =
     put_u16 (ProvinceID r) @ put_u16 (CityID r) @ ManufacturerID r @
     pad_nul 30 (TerminalType r) @ pad_nul 7 (TerminalID r) @ [PlateColor r] @ PlateNo r"

definition no_trailing_nul :: "byte list \<Rightarrow> bool" where
  "no_trailing_nul s \<longleftrightarrow> (s = [] \<or> last s \<noteq> 0)"

definition register_fits :: "TerminalRegister \<Rightarrow> bool" where
  "register_fits r \<longleftrightarrow>
     length (ManufacturerID r) = 5 \<and> length (TerminalType r) \<le> 30 \<and> length (TerminalID r) \<le> 7 \<and>
     no_trailing_nul (TerminalType r) \<and> no_trailing_nul (TerminalID r) \<and> no_trailing_nul (PlateNo r)"

section \<open>Lemmas\<close>

lemma dropWhile_replicate_append: "dropWhile (\<lambda>b. b = x) (replicate n x @ ys) = dropWhile (\<lambda>b. b = x) ys"
  by (induction n) simp_all

lemma trim_right_nul_replicate: "no_trailing_nul s \<Longrightarrow> trim_right_nul (s @ replicate n 0) = s"
  by (cases s rule: rev_cases)
    (simp_all add: trim_right_nul_def no_trailing_nul_def dropWhile_replicate_append
      dropWhile_replicate_append [of _ _ "[]", simplified])

lemma trim_pad_nul [simp]: "no_trailing_nul s \<Longrightarrow> trim_right_nul (pad_nul n s) = s"
  by (simp add: pad_nul_def trim_right_nul_replicate)

lemma trim_right_nul_id [simp]: "no_trailing_nul s \<Longrightarrow> trim_right_nul s = s"
  using trim_right_nul_replicate [of s 0] by simp

lemma length_pad_nul [simp]: "length s \<le> n \<Longrightarrow> length (pad_nul n s) = n"
  by (simp add: pad_nul_def)

lemma take_drop_split:
  "length xs = n \<Longrightarrow> take k (drop n (xs @ ys)) = take k ys"
  by simp

lemma body_u16_append [simp]: "length pre = n \<Longrightarrow> body_u16 (pre @ put_u16 w @ post) n = Ok w"
  using be_uint16_put [of w "[]"] by (simp add: body_u16_def)

lemma body_u32_append [simp]: "length pre = n \<Longrightarrow> body_u32 (pre @ put_u32 w @ post) n = Ok w"
  using be_uint32_put [of w "[]"] by (simp add: body_u32_def)

lemma be_uint16_long: "2 \<le> length bs \<Longrightarrow> \<exists>w. be_uint16 bs = Ok w"
  by (cases bs rule: be_uint16.cases) auto

lemma be_uint32_long: "4 \<le> length bs \<Longrightarrow> \<exists>w. be_uint32 bs = Ok w"
  by (cases bs rule: be_uint32.cases) auto

lemma body_u16_long: "n + 2 \<le> length body \<Longrightarrow> \<exists>w. body_u16 body n = Ok w"
  by (simp add: body_u16_def be_uint16_long)

lemma body_u32_long: "n + 4 \<le> length body \<Longrightarrow> \<exists>w. body_u32 body n = Ok w"
  by (simp add: body_u32_def be_uint32_long)

lemma coordinate_grid:
  "coordinate raw = f64 (of_int (uint raw) / of_int 100000)" "0 \<le> uint raw" "uint raw < 2 ^ 52"
proof -
  have raw: "uint raw < 2 ^ 32" by (rule order_less_le_trans [OF uint_bounded]) simp
  then have "f64 (of_int (uint raw)) = of_int (uint raw)"
    by (intro fl.rnd_of_int) simp
  then show "coordinate raw = f64 (of_int (uint raw) / of_int 100000)"
    unfolding coordinate_def f64_div_def f64_of_int_def by (simp only: of_int_numeral)
  show "0 \<le> uint raw" and "uint raw < 2 ^ 52" using raw by simp_all
qed

lemma coordinate_recover: "round (coordinate raw * 100000) = uint raw"
  using fl.rnd_grid_recover [of 100000 "uint raw"] coordinate_grid [of raw]
  by (simp only: of_int_numeral)

lemma coordinate_less_iff: "coordinate a < coordinate b \<longleftrightarrow> a < b"
  unfolding coordinate_grid(1) word_less_def
  by (rule fl.rnd_grid_less_iff) (use coordinate_grid(2,3) in simp_all)

section \<open>Time stamps\<close>

lemma nibbles:
  "uint (drop_bit 4 c) = uint c div 16" "uint (c AND 0x0F) = uint c mod 16" for c :: byte
proof -
  have "(0x0F :: byte) = mask 4" by (simp add: mask_eq_exp_minus_1)
  then show "uint (c AND 0x0F) = uint c mod 16"
    by (simp only: take_bit_eq_mask [symmetric] unsigned_take_bit_eq) (simp add: take_bit_eq_mod)
  show "uint (drop_bit 4 c) = uint c div 16"
    by (simp add: unsigned_drop_bit_eq drop_bit_eq_div uint_div)
qed

lemma is_bcd_nibbles: "is_bcd b \<longleftrightarrow> uint b div 16 \<le> 9 \<and> uint b mod 16 \<le> 9"
proof -
  have "uint (drop_bit 4 b AND 0x0F) = uint b div 16 mod 16"
    by (simp only: nibbles(2)) (simp only: nibbles(1))
  also have "\<dots> = uint b div 16"
    using uint_bounded [of b] by (intro mod_pos_pos_trivial) (simp_all add: pos_imp_zdiv_nonneg_iff)
  finally show ?thesis
    by (simp add: is_bcd_def word_le_def nibbles)
qed

lemma digits_less_iff:
  "10 * p + q < 10 * p' + q' \<longleftrightarrow> 16 * p + q < 16 * p' + q'"
  if "0 \<le> q" "q \<le> 9" "0 \<le> q'" "q' \<le> (9::int)"
proof -
  consider "p < p'" | "p = p'" | "p' < p" by linarith
  then show ?thesis using that by cases simp_all
qed

lemma bcd_int_less_iff:
  assumes "is_bcd a" and "is_bcd b"
  shows "bcd_int a < bcd_int b \<longleftrightarrow> a < b"
proof -
  have bcd: "bcd_int c = 10 * (uint c div 16) + uint c mod 16" for c
    by (simp add: bcd_int_def nibbles)
  have bin: "uint c = 16 * (uint c div 16) + uint c mod 16" for c :: byte
    by simp
  show ?thesis
    unfolding bcd word_less_def
    by (subst (3 6) bin, rule digits_less_iff) (use assms in \<open>simp_all add: is_bcd_nibbles\<close>)
qed

lemma bcd_int_bounds: "is_bcd b \<Longrightarrow> 0 \<le> bcd_int b \<and> bcd_int b \<le> 99"
  using pos_mod_sign [of 16 "uint b"] by (simp add: is_bcd_nibbles bcd_int_def nibbles pos_imp_zdiv_nonneg_iff)

lemma bcd_int_eq_iff: "is_bcd a \<Longrightarrow> is_bcd b \<Longrightarrow> bcd_int a = bcd_int b \<longleftrightarrow> a = b"
  using bcd_int_less_iff [of a b] bcd_int_less_iff [of b a] by force

text \<open>The time stamps that name an existing second.\<close>

definition valid_bcd_time :: "byte list \<Rightarrow> bool" where
  "valid_bcd_time t \<longleftrightarrow>
     length t = 6 \<and> list_all is_bcd t \<and>
     valid_date (2000 + bcd_int (t ! 0)) (bcd_int (t ! 1)) (bcd_int (t ! 2)) \<and>
     valid_clock (bcd_int (t ! 3)) (bcd_int (t ! 4)) (bcd_int (t ! 5))"

text \<open>The byte-wise order of two time stamps.\<close>

fun bytes_less :: "byte list \<Rightarrow> byte list \<Rightarrow> bool" where
  "bytes_less (a # as) (b # bs) \<longleftrightarrow> (a < b \<or> (a = b \<and> bytes_less as bs))"
| "bytes_less [] (b # bs) \<longleftrightarrow> True"
| "bytes_less as [] \<longleftrightarrow> False"

definition bcd_local :: "byte list \<Rightarrow> int" where
  "bcd_local t =
     local_seconds (2000 + bcd_int (t ! 0)) (bcd_int (t ! 1)) (bcd_int (t ! 2))
       (bcd_int (t ! 3)) (bcd_int (t ! 4)) (bcd_int (t ! 5))"

lemma six_bytes:
  assumes "length t = 6"
  obtains a b c d e f where "t = [a, b, c, d, e, f]"
  using assms by (auto simp: eval_nat_numeral length_Suc_conv)

lemma bcd_local_less:
  assumes "valid_bcd_time t" and "valid_bcd_time t'" and "bytes_less t t'"
  shows "bcd_local t < bcd_local t'"
proof -
  obtain y m d h i s where t: "t = [y, m, d, h, i, s]"
    using six_bytes [of t] assms(1) unfolding valid_bcd_time_def by blast
  obtain y' m' d' h' i' s' where t': "t' = [y', m', d', h', i', s']"
    using six_bytes [of t'] assms(2) unfolding valid_bcd_time_def by blast
  have bcd: "is_bcd y" "is_bcd m" "is_bcd d" "is_bcd h" "is_bcd i" "is_bcd s"
    "is_bcd y'" "is_bcd m'" "is_bcd d'" "is_bcd h'" "is_bcd i'" "is_bcd s'"
    and date: "valid_date (2000 + bcd_int y) (bcd_int m) (bcd_int d)"
      "valid_date (2000 + bcd_int y') (bcd_int m') (bcd_int d')"
    and clock: "valid_clock (bcd_int h) (bcd_int i) (bcd_int s)"
      "valid_clock (bcd_int h') (bcd_int i') (bcd_int s')"
    using assms(1,2) by (simp_all add: valid_bcd_time_def t t')
  have lt: "bcd_int u < bcd_int v" if "is_bcd u" "is_bcd v" "u < v" for u v
    using that by (simp add: bcd_int_less_iff)
  have day: "local_seconds (2000 + bcd_int y) (bcd_int m) (bcd_int d) (bcd_int h) (bcd_int i) (bcd_int s)
      < local_seconds (2000 + bcd_int y') (bcd_int m') (bcd_int d') (bcd_int h') (bcd_int i') (bcd_int s')"
    if "2000 + bcd_int y < 2000 + bcd_int y'
      \<or> 2000 + bcd_int y = 2000 + bcd_int y' \<and> (bcd_int m < bcd_int m' \<or> bcd_int m = bcd_int m' \<and> bcd_int d < bcd_int d')
      \<or> 2000 + bcd_int y = 2000 + bcd_int y' \<and> bcd_int m = bcd_int m' \<and> bcd_int d = bcd_int d' \<and>
        clock_seconds (bcd_int h) (bcd_int i) (bcd_int s) < clock_seconds (bcd_int h') (bcd_int i') (bcd_int s')"
    by (rule local_seconds_mono [OF date(1) clock(1) date(2) clock(2)]) (use that in argo)
  have clk: "clock_seconds (bcd_int h) (bcd_int i) (bcd_int s) < clock_seconds (bcd_int h') (bcd_int i') (bcd_int s')"
    if "bcd_int h < bcd_int h' \<or> bcd_int h = bcd_int h' \<and>
      (bcd_int i < bcd_int i' \<or> bcd_int i = bcd_int i' \<and> bcd_int s < bcd_int s')"
    using that clock by (auto simp: valid_clock_def clock_seconds_def)
  from assms(3) consider "y < y'" | "y = y'" "m < m'" | "y = y'" "m = m'" "d < d'"
    | "y = y'" "m = m'" "d = d'" "h < h' \<or> h = h' \<and> (i < i' \<or> i = i' \<and> s < s')"
    by (auto simp: t t')
  then show ?thesis
  proof cases
    case 4
    then have "clock_seconds (bcd_int h) (bcd_int i) (bcd_int s) < clock_seconds (bcd_int h') (bcd_int i') (bcd_int s')"
      using bcd lt by (intro clk) auto
    with 4 show ?thesis using day by (simp add: bcd_local_def t t')
  qed (use bcd lt day in \<open>simp_all add: bcd_local_def t t'\<close>)
qed

lemma bytes_less_total: "length s = length t \<Longrightarrow> \<not> bytes_less s t \<Longrightarrow> \<not> bytes_less t s \<Longrightarrow> s = t"
  by (induction s t rule: list_induct2) auto

lemma bcd_local_less_iff:
  assumes "valid_bcd_time t" and "valid_bcd_time t'"
  shows "bcd_local t < bcd_local t' \<longleftrightarrow> bytes_less t t'"
proof -
  have "length t = length t'" using assms by (simp add: valid_bcd_time_def)
  from bytes_less_total [OF this] bcd_local_less [OF assms] bcd_local_less [OF assms(2,1)]
  show ?thesis by force
qed

lemma days_before_year_bounds:
  assumes "2000 \<le> y" and "y \<le> 2099"
  shows "0 \<le> days_before_year y \<and> days_before_year y \<le> 1000000"
proof -
  have "0 \<le> 365 * (y - 1) + a - b + c \<and> 365 * (y - 1) + a - b + c \<le> 1000000"
    if "0 \<le> a" "a \<le> 2098" "0 \<le> b" "b \<le> 2098" "0 \<le> c" "c \<le> 2098" for a b c
    using that assms by (simp add: right_diff_distrib)
  then show ?thesis
    unfolding days_before_year_def using assms by (simp add: pos_imp_zdiv_nonneg_iff)
qed

lemma bcd_local_bounds:
  assumes "valid_bcd_time t"
  shows "- (2 ^ 62) \<le> bcd_local t \<and> bcd_local t \<le> 2 ^ 62"
proof -
  obtain y m d h i s where t: "t = [y, m, d, h, i, s]"
    using six_bytes [of t] assms unfolding valid_bcd_time_def by blast
  have date: "valid_date (2000 + bcd_int y) (bcd_int m) (bcd_int d)"
    and clock: "valid_clock (bcd_int h) (bcd_int i) (bcd_int s)" and "is_bcd y"
    using assms by (simp_all add: valid_bcd_time_def t)
  have "0 \<le> days_before_month (2000 + bcd_int y) (bcd_int m)
      \<and> days_before_month (2000 + bcd_int y) (bcd_int m) \<le> 366"
    using date month_cases [of "bcd_int m"]
    by (auto simp: valid_date_def days_before_month_def month_starts_def)
  moreover have "1 \<le> bcd_int d" "bcd_int d \<le> 31"
    using date by (simp_all add: valid_date_def days_in_month_def split: if_splits)
  ultimately have "\<bar>unix_days (2000 + bcd_int y) (bcd_int m) (bcd_int d)\<bar> \<le> 2000000"
    using days_before_year_bounds [of "2000 + bcd_int y"] bcd_int_bounds [OF \<open>is_bcd y\<close>]
    unfolding unix_days_def by linarith
  moreover have "0 \<le> bcd_int h * 3600 + bcd_int i * 60 + bcd_int s
      \<and> bcd_int h * 3600 + bcd_int i * 60 + bcd_int s < 86400"
    using clock_seconds_bounds [OF clock] by (simp add: clock_seconds_def)
  ultimately show ?thesis
    using local_seconds_valid [OF date clock] by (simp add: bcd_local_def t) linarith
qed

lemma parseBCDTime_fixed:
  assumes "valid_bcd_time t" and "\<bar>offset\<bar> \<le> 86400"
  shows "parseBCDTime (fixed_zone offset) t = (bcd_local t - offset) * 10 ^ 9"
proof -
  have "to_utc (fixed_zone offset) (bcd_local t) = bcd_local t - offset"
    using bcd_local_bounds [OF assms(1)] assms(2) by (intro to_utc_fixed) auto
  then show ?thesis
    using assms(1) by (simp add: parseBCDTime_def go_Date_def bcd_local_def valid_bcd_time_def Let_def)
qed

section \<open>Properties\<close>

text \<open>C20. \<^verbatim>\<open>ParseLocationReport\<close> recovers every field of a location body, whatever additional
  items follow the 28 fixed bytes: the integers exactly, and from the two rounded coordinates
  (\<open>raw / 100000.0\<close>) the raw integers by multiplying and rounding.\<close>

theorem ParseLocationReport_fields:
  assumes "length bcd = 6"
  shows "\<exists>r. ParseLocationReport loc (location_body alarm status lat lng altitude speed direction bcd @ extra) = Ok r
    \<and> LR_AlarmFlag r = alarm \<and> LR_Status r = status
    \<and> round (LR_Latitude r * 100000) = uint lat \<and> round (LR_Longitude r * 100000) = uint lng
    \<and> LR_Altitude r = altitude \<and> LR_Speed r = speed \<and> LR_Direction r = direction
    \<and> LR_Time r = parseBCDTime loc bcd"
proof -
  let ?body = "location_body alarm status lat lng altitude speed direction bcd @ extra"
  have "body_u32 ?body 0 = Ok alarm"
    using body_u32_append [of "[]" 0] by (simp add: location_body_def)
  moreover have "body_u32 ?body 4 = Ok status"
    using body_u32_append [of "put_u32 alarm" 4] by (simp add: location_body_def)
  moreover have "body_u32 ?body 8 = Ok lat"
    using body_u32_append [of "put_u32 alarm @ put_u32 status" 8] by (simp add: location_body_def)
  moreover have "body_u32 ?body 12 = Ok lng"
    using body_u32_append [of "put_u32 alarm @ put_u32 status @ put_u32 lat" 12]
    by (simp add: location_body_def)
  moreover have "body_u16 ?body 16 = Ok altitude"
    using body_u16_append [of "put_u32 alarm @ put_u32 status @ put_u32 lat @ put_u32 lng" 16]
    by (simp add: location_body_def)
  moreover have "body_u16 ?body 18 = Ok speed"
    using body_u16_append
      [of "put_u32 alarm @ put_u32 status @ put_u32 lat @ put_u32 lng @ put_u16 altitude" 18]
    by (simp add: location_body_def)
  moreover have "body_u16 ?body 20 = Ok direction"
    using body_u16_append
      [of "put_u32 alarm @ put_u32 status @ put_u32 lat @ put_u32 lng @ put_u16 altitude @ put_u16 speed" 20]
    by (simp add: location_body_def)
  moreover have "go_slice ?body 22 28 = Ok bcd" and "length ?body = 28 + length extra"
    using assms by (simp_all add: location_body_def)
  ultimately show ?thesis
    using assms by (simp add: ParseLocationReport_def coordinate_recover)
qed

definition sample_bcd :: "byte list" where
  "sample_bcd = [0x24, 0x02, 0x29, 0x23, 0x59, 0x58]"

theorem ParseLocationReport_fields_witness:
  "\<exists>r. ParseLocationReport (fixed_zone 28800)
      (location_body 1 2 3990800 11640000 50 600 90 sample_bcd @ [0x01, 0x04, 0, 0, 0, 100]) = Ok r
    \<and> round (LR_Latitude r * 100000) = 3990800 \<and> LR_Time r = 1709222398 * 10 ^ 9"
proof -
  have "length sample_bcd = 6" by (simp add: sample_bcd_def)
  from ParseLocationReport_fields [OF this, of "fixed_zone 28800" 1 2 3990800 11640000 50 600 90
      "[0x01, 0x04, 0, 0, 0, 100]"]
  obtain r where "ParseLocationReport (fixed_zone 28800)
      (location_body 1 2 3990800 11640000 50 600 90 sample_bcd @ [0x01, 0x04, 0, 0, 0, 100]) = Ok r"
    and "round (LR_Latitude r * 100000) = uint (3990800 :: uint32)"
    and "LR_Time r = parseBCDTime (fixed_zone 28800) sample_bcd"
    by blast
  moreover have "parseBCDTime (fixed_zone 28800) sample_bcd = 1709222398 * 10 ^ 9"
    by code_simp
  ultimately show ?thesis by auto
qed

text \<open>C21. \<^verbatim>\<open>ParseTerminalRegister\<close> inverts the register layout: fields that fit their slots and do not
  end in a zero byte come back, the padded ones without their padding.\<close>

theorem ParseTerminalRegister_roundtrip:
  assumes "register_fits r"
  shows "ParseTerminalRegister (register_body r) = Ok r"
proof -
  let ?b = "register_body r"
  have len: "length ?b = 47 + length (PlateNo r)"
    and man: "length (ManufacturerID r) = 5"
    using assms by (simp_all add: register_body_def register_fits_def)
  have "body_u16 ?b 0 = Ok (ProvinceID r)" and "body_u16 ?b 2 = Ok (CityID r)"
    using body_u16_append [of "[]" 0] body_u16_append [of "put_u16 (ProvinceID r)" 2]
    by (simp_all add: register_body_def)
  moreover have "go_slice ?b 4 9 = Ok (ManufacturerID r)"
    and "go_slice ?b 9 39 = Ok (pad_nul 30 (TerminalType r))"
    and "go_slice ?b 39 46 = Ok (pad_nul 7 (TerminalID r))"
    and "go_index ?b 46 = Ok (PlateColor r)"
    and "go_slice ?b 47 (length ?b) = Ok (PlateNo r)"
    using assms len by (simp_all add: register_body_def register_fits_def nth_append)
  ultimately show ?thesis
    using assms len
    by (simp add: ParseTerminalRegister_def terminalRegisterMinLength_def register_fits_def)
qed

definition sample_register :: TerminalRegister where
  "sample_register =
     \<lparr>ProvinceID = 11, CityID = 100, ManufacturerID = go_str ''MFR01'', TerminalType = go_str ''TYPE-A'',
      TerminalID = go_str ''T0001'', PlateColor = 1, PlateNo = go_str ''A12345''\<rparr>"

theorem ParseTerminalRegister_roundtrip_witness:
  "ParseTerminalRegister (register_body sample_register) = Ok sample_register"
  by (rule ParseTerminalRegister_roundtrip) code_simp

text \<open>The body parsers are total: neither panics on any input, and each returns an error exactly
  for the bodies shorter than its fixed part.\<close>

theorem body_parsers_total:
  "safe (ParseLocationReport loc body) \<and> safe (ParseTerminalRegister body)
   \<and> ((\<exists>e. ParseLocationReport loc body = Err e) \<longleftrightarrow> length body < 28)
   \<and> ((\<exists>e. ParseTerminalRegister body = Err e) \<longleftrightarrow> length body < 47)"
proof (intro conjI)
  have loc: "\<exists>r. ParseLocationReport loc body = Ok r" if "28 \<le> length body"
    using that body_u32_long [of 0 body] body_u32_long [of 4 body] body_u32_long [of 8 body]
      body_u32_long [of 12 body] body_u16_long [of 16 body] body_u16_long [of 18 body]
      body_u16_long [of 20 body]
    by (auto simp: ParseLocationReport_def)
  then show "safe (ParseLocationReport loc body)"
    and "(\<exists>e. ParseLocationReport loc body = Err e) \<longleftrightarrow> length body < 28"
    by (cases "length body < 28"; force simp: ParseLocationReport_def)+
  have reg: "\<exists>r. ParseTerminalRegister body = Ok r" if "47 \<le> length body"
    using that body_u16_long [of 0 body] body_u16_long [of 2 body]
    by (auto simp: ParseTerminalRegister_def terminalRegisterMinLength_def)
  then show "safe (ParseTerminalRegister body)"
    and "(\<exists>e. ParseTerminalRegister body = Err e) \<longleftrightarrow> length body < 47"
    by (cases "length body < 47"; force simp: ParseTerminalRegister_def terminalRegisterMinLength_def)+
qed

text \<open>In a zone without transitions \<^verbatim>\<open>parseBCDTime\<close> maps the valid BCD time stamps to instants in the
  order of their bytes (so equal instants come from equal bytes).\<close>

theorem parseBCDTime_order:
  assumes "valid_bcd_time t" and "valid_bcd_time t'" and "\<bar>offset\<bar> \<le> 86400"
  shows "parseBCDTime (fixed_zone offset) t < parseBCDTime (fixed_zone offset) t' \<longleftrightarrow> bytes_less t t'"
  using bcd_local_less_iff [OF assms(1,2)]
  by (simp add: parseBCDTime_fixed [OF assms(1,3)] parseBCDTime_fixed [OF assms(2,3)])

theorem parseBCDTime_order_witness:
  "parseBCDTime (fixed_zone 28800) [0x24, 0x02, 0x29, 0x23, 0x59, 0x58]
     < parseBCDTime (fixed_zone 28800) [0x24, 0x03, 0x01, 0x00, 0x00, 0x00]"
proof -
  have "valid_bcd_time [0x24, 0x02, 0x29, 0x23, 0x59, 0x58]"
    and "valid_bcd_time [0x24, 0x03, 0x01, 0x00, 0x00, 0x00]"
    by code_simp+
  from parseBCDTime_order [OF this, of 28800] show ?thesis by simp
qed

end
