(* ===== verification/Registry.thy ===== *)
theory Registry
  imports CoreTypes "HOL-Library.AList" "HOL-Library.Multiset"
begin

text \<open>
  Go maps, and what the servers promise of a registry of connections by device ID. A Go map
  (and a \<^verbatim>\<open>sync.Map\<close>) is an association list with distinct keys; the order of the list stands for
  the unspecified iteration order.

  The interface is a hierarchy of locales: \<open>registry\<close> (lookup after put), \<open>registry_delete\<close>
  (delete), \<open>registry_cad\<close> (compare and delete), \<open>registry_enum\<close> (enumeration and size). The protocol by
  which a connection claims and gives up a device ID is written once, over the operations of the
  interface, and its lemmas are proved once inside \<open>registry_cad\<close>.
\<close>

named_theorems map_simps \<open>lookups after updates\<close>

section \<open>Go maps\<close>

type_synonym ('k, 'v) gomap = "('k \<times> 'v) list"

definition gm_wf :: "('k, 'v) gomap \<Rightarrow> bool" where
  "gm_wf m \<longleftrightarrow> distinct (map fst m)"

definition gm_get :: "('k, 'v) gomap \<Rightarrow> 'k \<Rightarrow> 'v option" where
  "gm_get m k = map_of m k"

definition gm_put :: "'k \<Rightarrow> 'v \<Rightarrow> ('k, 'v) gomap \<Rightarrow> ('k, 'v) gomap" where
  "gm_put k v m = AList.update k v m"

definition gm_delete :: "'k \<Rightarrow> ('k, 'v) gomap \<Rightarrow> ('k, 'v) gomap" where
  "gm_delete k m = AList.delete k m"

text \<open>\<^verbatim>\<open>sync.Map.CompareAndDelete\<close>\<close>

definition gm_cad :: "'k \<Rightarrow> 'v \<Rightarrow> ('k, 'v) gomap \<Rightarrow> ('k, 'v) gomap" where
  "gm_cad k v m = (if gm_get m k = Some v then gm_delete k m else m)"

lemma gm_wf_Nil [simp]: "gm_wf []"
  by (simp add: gm_wf_def)

lemma gm_wf_put [simp]: "gm_wf m \<Longrightarrow> gm_wf (gm_put k v m)"
  by (simp add: gm_wf_def gm_put_def distinct_update)

lemma gm_wf_delete [simp]: "gm_wf m \<Longrightarrow> gm_wf (gm_delete k m)"
  by (simp add: gm_wf_def gm_delete_def distinct_delete)

lemma gm_wf_cad [simp]: "gm_wf m \<Longrightarrow> gm_wf (gm_cad k v m)"
  by (simp add: gm_cad_def)

lemma gm_get_Nil [simp, map_simps]: "gm_get [] k = None"
  by (simp add: gm_get_def)

lemma gm_get_put [map_simps]: "gm_get (gm_put k v m) = (gm_get m)(k \<mapsto> v)"
  by (rule ext) (simp add: gm_get_def gm_put_def update_conv')

lemma gm_get_delete [map_simps]: "gm_get (gm_delete k m) = (gm_get m)(k := None)"
  by (rule ext) (simp add: gm_get_def gm_delete_def delete_conv')

lemma gm_get_cad [map_simps]:
  "gm_get (gm_cad k v m) = (if gm_get m k = Some v then (gm_get m)(k := None) else gm_get m)"
  by (simp add: gm_cad_def gm_get_delete)

lemma gm_get_map_of: "gm_get m = map_of m"
  by (rule ext) (simp add: gm_get_def)

lemma dom_gm_get: "dom (gm_get m) = fst ` set m"
  by (simp add: gm_get_map_of dom_map_of_conv_image_fst)

lemma gm_get_in_set: "gm_wf m \<Longrightarrow> gm_get m k = Some v \<longleftrightarrow> (k, v) \<in> set m"
  by (simp add: gm_get_def gm_wf_def)

lemma gm_length: "gm_wf m \<Longrightarrow> length m = card (dom (gm_get m))"
  using distinct_card [of "map fst m"] by (simp add: dom_gm_get gm_wf_def)

lemma finite_dom_gm_get [simp]: "finite (dom (gm_get m))"
  by (simp add: dom_gm_get)

section \<open>The interface\<close>

locale registry =
  fixes invar :: "'m \<Rightarrow> bool"
    and lookup :: "'m \<Rightarrow> 'k \<Rightarrow> 'v option"
    and put :: "'k \<Rightarrow> 'v \<Rightarrow> 'm \<Rightarrow> 'm"
  assumes invar_put: "invar m \<Longrightarrow> invar (put k v m)"
    and lookup_put: "invar m \<Longrightarrow> lookup (put k v m) = (lookup m)(k \<mapsto> v)"

locale registry_delete = registry +
  fixes delete :: "'k \<Rightarrow> 'm \<Rightarrow> 'm"
  assumes invar_delete: "invar m \<Longrightarrow> invar (delete k m)"
    and lookup_delete: "invar m \<Longrightarrow> lookup (delete k m) = (lookup m)(k := None)"
begin

lemma delete_put: "invar m \<Longrightarrow> lookup (delete k (put k v m)) = (lookup m)(k := None)"
  by (simp add: invar_put lookup_put lookup_delete)

end

locale registry_enum = registry_delete +
  fixes entries :: "'m \<Rightarrow> ('k \<times> 'v) list"
    and size :: "'m \<Rightarrow> int64"
  assumes entries_lookup: "invar m \<Longrightarrow> lookup m = map_of (entries m)"
    and entries_distinct: "invar m \<Longrightarrow> distinct (map fst (entries m))"
    and size_entries: "invar m \<Longrightarrow> size m = of_nat (length (entries m))"
begin

lemma size_card: "invar m \<Longrightarrow> size m = of_nat (card (dom (lookup m)))"
  using distinct_card [OF entries_distinct, of m]
  by (simp add: size_entries entries_lookup dom_map_of_conv_image_fst)

lemma finite_dom: "invar m \<Longrightarrow> finite (dom (lookup m))"
  by (simp add: entries_lookup finite_dom_map_of)

lemma size_put:
  assumes "invar m"
  shows "size (put k v m) = (if lookup m k = None then size m + 1 else size m)"
  using assms finite_dom [OF assms]
  by (auto simp: size_card invar_put lookup_put card_insert_if domIff insert_absorb)

lemma size_delete:
  assumes "invar m"
  shows "size (delete k m) = (if lookup m k = None then size m else size m - 1)"
proof (cases "k \<in> dom (lookup m)")
  case True
  then have "0 < card (dom (lookup m))"
    using finite_dom [OF assms] card_gt_0_iff by blast
  with True assms show ?thesis
    by (auto simp: size_card invar_delete lookup_delete of_nat_diff)
qed (use assms in \<open>simp add: size_card invar_delete lookup_delete domIff fun_upd_idem\<close>)

lemma entries_set: "invar m \<Longrightarrow> lookup m k = Some v \<longleftrightarrow> (k, v) \<in> set (entries m)"
  by (simp add: entries_lookup entries_distinct)

end

section \<open>Claiming and giving up a device ID\<close>

text \<open>
  \<^verbatim>\<open>SetDeviceID\<close> of both connection types, on the registry: the connection \<open>c\<close>, whose device ID was
  \<open>old\<close>, takes the ID \<open>d\<close>; and the clean-up of \<^verbatim>\<open>handleConn\<close>.
\<close>

definition claim_device ::
  "(gostring \<Rightarrow> 'v \<Rightarrow> 'm \<Rightarrow> 'm) \<Rightarrow> (gostring \<Rightarrow> 'v \<Rightarrow> 'm \<Rightarrow> 'm) \<Rightarrow> gostring \<Rightarrow> gostring \<Rightarrow> 'v \<Rightarrow> 'm \<Rightarrow> 'm" where
  "claim_device put cad old d c m =
     (let m1 = (if old \<noteq> [] \<and> old \<noteq> d then cad old c m else m)
      in if d \<noteq> [] then put d c m1 else m1)"

definition release_device ::
  "(gostring \<Rightarrow> 'v \<Rightarrow> 'm \<Rightarrow> 'm) \<Rightarrow> gostring \<Rightarrow> 'v \<Rightarrow> 'm \<Rightarrow> 'm" where
  "release_device cad d c m = (if d \<noteq> [] then cad d c m else m)"

text \<open>Every entry belongs to a connection whose device ID is the entry's key.\<close>

definition owned :: "('v \<Rightarrow> gostring) \<Rightarrow> (gostring \<Rightarrow> 'v option) \<Rightarrow> bool" where
  "owned dev l \<longleftrightarrow> (\<forall>k c. l k = Some c \<longrightarrow> dev c = k \<and> k \<noteq> [])"

locale registry_cad = registry invar lookup put
  for invar :: "'m \<Rightarrow> bool" and lookup :: "'m \<Rightarrow> gostring \<Rightarrow> 'v option" and put +
  fixes cad :: "gostring \<Rightarrow> 'v \<Rightarrow> 'm \<Rightarrow> 'm"
  assumes invar_cad: "invar m \<Longrightarrow> invar (cad k v m)"
    and lookup_cad: "invar m \<Longrightarrow>
      lookup (cad k v m) = (if lookup m k = Some v then (lookup m)(k := None) else lookup m)"
begin

lemma invar_claim: "invar m \<Longrightarrow> invar (claim_device put cad old d c m)"
  by (simp add: claim_device_def Let_def invar_put invar_cad)

lemma invar_release: "invar m \<Longrightarrow> invar (release_device cad d c m)"
  by (simp add: release_device_def invar_cad)

lemma lookup_claim:
  assumes "invar m"
  shows "lookup (claim_device put cad old d c m) k =
    (if k = d \<and> d \<noteq> [] then Some c
     else if k = old \<and> old \<noteq> [] \<and> old \<noteq> d \<and> lookup m old = Some c then None
     else lookup m k)"
  using assms by (auto simp: claim_device_def Let_def lookup_put lookup_cad invar_cad)

lemma lookup_release:
  assumes "invar m"
  shows "lookup (release_device cad d c m) k =
    (if k = d \<and> d \<noteq> [] \<and> lookup m d = Some c then None else lookup m k)"
  using assms by (auto simp: release_device_def lookup_cad)

lemma owned_claim:
  assumes "invar m" and "owned dev (lookup m)"
  shows "owned (dev(c := d)) (lookup (claim_device put cad (dev c) d c m))"
  using assms(2) unfolding owned_def lookup_claim [OF assms(1)]
  by (auto split: if_splits)

lemma owned_release:
  assumes "invar m" and "owned dev (lookup m)"
  shows "owned dev (lookup (release_device cad d c m))"
  using assms(2) unfolding owned_def lookup_release [OF assms(1)]
  by (auto split: if_splits)

text \<open>The clean-up of a connection removes all that leads to it and nothing else.\<close>

lemma release_exact:
  assumes "invar m" and "owned dev (lookup m)"
  shows "lookup (release_device cad (dev c) c m) k =
    (if lookup m k = Some c then None else lookup m k)"
  using assms(2) unfolding owned_def lookup_release [OF assms(1)]
  by (auto split: if_splits)

lemma claim_others:
  assumes "invar m" and "lookup m k = Some c'" and "c' \<noteq> c" and "k \<noteq> d"
  shows "lookup (claim_device put cad old d c m) k = Some c'"
  using assms by (auto simp: lookup_claim)

end

interpretation gm: registry_enum gm_wf gm_get gm_put gm_delete "\<lambda>m. m" "\<lambda>m. of_nat (length m)"
  by unfold_locales (simp_all add: gm_get_put gm_get_delete, simp_all add: gm_get_map_of gm_wf_def)

interpretation gmc: registry_cad gm_wf gm_get gm_put gm_cad
  by unfold_locales (auto simp: gm_get_cad)

end
