(* ===== verification/ConnPools.thy ===== *)
theory ConnPools
  imports Registry
begin

text \<open>
  The sharded connection pools: \<^verbatim>\<open>ShardedConnPool\<close> of \<^verbatim>\<open>core/pool.go\<close> and \<^verbatim>\<open>ShardedConnectionPool\<close> of
  \<^verbatim>\<open>transport/tcp_highperf.go\<close>. They differ in the hash function (FNV-1a of the standard library
  against \<^verbatim>\<open>fnvHash\<close>, which multiplies before the exclusive or) and in \<^verbatim>\<open>Clear\<close> and \<^verbatim>\<open>DeleteConn\<close>; the
  operations take the hash as a parameter. Every method holds its shard's lock while it works on the
  shard, so a call is one step.

  The refinement: with its invariant, a pool is the map \<open>pool_Get\<close>, and its 64-bit counters count
  the entries. Both pools are interpretations of the \<open>registry\<close> locales.
\<close>

record 'v shard =
  shard_conns :: "(gostring, 'v) gomap"
  shard_count :: int64

record 'v pool =
  shards :: "'v shard list"
  shardCount :: nat
  totalCount :: int64

section \<open>Hash functions\<close>

text \<open>\<^verbatim>\<open>fnv.New32a\<close>, \<^verbatim>\<open>Write\<close>, \<^verbatim>\<open>Sum32\<close>\<close>

definition fnv1a :: "gostring \<Rightarrow> uint32" where
  "fnv1a key = foldl (\<lambda>h b. (h XOR ucast b) * 16777619) 2166136261 key"

definition fnvHash :: "gostring \<Rightarrow> uint32" where
  "fnvHash key = foldl (\<lambda>h b. (h * 16777619) XOR ucast b) 2166136261 key"

section \<open>Operations\<close>

definition new_pool :: "int \<Rightarrow> int \<Rightarrow> 'v pool" where
  "new_pool dflt shard_num =
     (let n = nat (if shard_num \<le> 0 then dflt else shard_num)
      in \<lparr>shards = replicate n \<lparr>shard_conns = [], shard_count = 0\<rparr>, shardCount = n, totalCount = 0\<rparr>)"

definition NewShardedConnPool :: "int \<Rightarrow> 'v pool" where
  "NewShardedConnPool shard_num = new_pool 16 shard_num"

definition defaultShardCount :: int where
  "defaultShardCount = 256"

definition NewShardedConnectionPool :: "int \<Rightarrow> 'v pool" where
  "NewShardedConnectionPool shard_num = new_pool defaultShardCount shard_num"

definition getShard :: "(gostring \<Rightarrow> uint32) \<Rightarrow> 'v pool \<Rightarrow> gostring \<Rightarrow> nat" where
  "getShard hash p key = unat (hash key mod of_nat (shardCount p))"

definition pool_Put :: "(gostring \<Rightarrow> uint32) \<Rightarrow> ('v \<Rightarrow> gostring) \<Rightarrow> 'v \<Rightarrow> 'v pool \<Rightarrow> 'v pool" where
  "pool_Put hash DeviceID conn p =
     (let i = getShard hash p (DeviceID conn);
          sh = shards p ! i;
          exists = gm_get (shard_conns sh) (DeviceID conn) \<noteq> None;
          sh1 = (if \<not> exists then sh\<lparr>shard_count := shard_count sh + 1\<rparr> else sh);
          sh2 = sh1\<lparr>shard_conns := gm_put (DeviceID conn) conn (shard_conns sh1)\<rparr>
      in p\<lparr>shards := (shards p)[i := sh2],
           totalCount := (if \<not> exists then totalCount p + 1 else totalCount p)\<rparr>)"

definition pool_Get :: "(gostring \<Rightarrow> uint32) \<Rightarrow> 'v pool \<Rightarrow> gostring \<Rightarrow> 'v option" where
  "pool_Get hash p deviceID = gm_get (shard_conns (shards p ! getShard hash p deviceID)) deviceID"

definition pool_Delete :: "(gostring \<Rightarrow> uint32) \<Rightarrow> gostring \<Rightarrow> 'v pool \<Rightarrow> 'v pool" where
  "pool_Delete hash deviceID p =
     (let i = getShard hash p deviceID; sh = shards p ! i
      in if gm_get (shard_conns sh) deviceID \<noteq> None
         then p\<lparr>shards := (shards p)[i :=
                  \<lparr>shard_conns = gm_delete deviceID (shard_conns sh), shard_count = shard_count sh - 1\<rparr>],
                totalCount := totalCount p - 1\<rparr>
         else p)"

definition pool_DeleteConn :: "(gostring \<Rightarrow> uint32) \<Rightarrow> gostring \<Rightarrow> 'v \<Rightarrow> 'v pool \<Rightarrow> 'v pool" where
  "pool_DeleteConn hash deviceID conn p =
     (let i = getShard hash p deviceID; sh = shards p ! i
      in if gm_get (shard_conns sh) deviceID = Some conn
         then p\<lparr>shards := (shards p)[i :=
                  \<lparr>shard_conns = gm_delete deviceID (shard_conns sh), shard_count = shard_count sh - 1\<rparr>],
                totalCount := totalCount p - 1\<rparr>
         else p)"

definition pool_Size :: "'v pool \<Rightarrow> int64" where
  "pool_Size p = totalCount p"

definition pool_Clear :: "'v pool \<Rightarrow> 'v pool" where
  "pool_Clear p =
     p\<lparr>shards := map (\<lambda>sh. \<lparr>shard_conns = [], shard_count = 0\<rparr>) (shards p), totalCount := 0\<rparr>"

text \<open>
  \<^verbatim>\<open>Range\<close> visits the shards in order and each shard's map in an unspecified order: \<open>ess\<close> is the order
  taken, one list per shard. The callback returns its new state and whether to go on.
\<close>

fun range_shard :: "('k \<Rightarrow> 'v \<Rightarrow> 's \<Rightarrow> 's \<times> bool) \<Rightarrow> ('k \<times> 'v) list \<Rightarrow> 's \<Rightarrow> 's \<times> bool" where
  "range_shard fn [] s = (s, True)"
| "range_shard fn ((k, v) # es) s =
     (case fn k v s of (s', goon) \<Rightarrow> if goon then range_shard fn es s' else (s', False))"

fun pool_Range :: "('k \<Rightarrow> 'v \<Rightarrow> 's \<Rightarrow> 's \<times> bool) \<Rightarrow> ('k \<times> 'v) list list \<Rightarrow> 's \<Rightarrow> 's" where
  "pool_Range fn [] s = s"
| "pool_Range fn (es # ess) s =
     (case range_shard fn es s of (s', goon) \<Rightarrow> if goon then pool_Range fn ess s' else s')"

definition traversal :: "'v pool \<Rightarrow> (gostring \<times> 'v) list list \<Rightarrow> bool" where
  "traversal p ess \<longleftrightarrow> list_all2 (\<lambda>sh es. mset es = mset (shard_conns sh)) (shards p) ess"

text \<open>The connection pool of the high-performance server: the same operations with its own hash.\<close>

definition hp_getShard :: "'v pool \<Rightarrow> gostring \<Rightarrow> nat" where [simp]:
  "hp_getShard p key = getShard fnvHash p key"

definition hp_Put :: "('v \<Rightarrow> gostring) \<Rightarrow> 'v \<Rightarrow> 'v pool \<Rightarrow> 'v pool" where [simp]:
  "hp_Put DeviceID conn p = pool_Put fnvHash DeviceID conn p"

definition hp_Get :: "'v pool \<Rightarrow> gostring \<Rightarrow> 'v option" where [simp]:
  "hp_Get p deviceID = pool_Get fnvHash p deviceID"

definition hp_Delete :: "gostring \<Rightarrow> 'v pool \<Rightarrow> 'v pool" where [simp]:
  "hp_Delete deviceID p = pool_Delete fnvHash deviceID p"

definition hp_DeleteConn :: "gostring \<Rightarrow> 'v \<Rightarrow> 'v pool \<Rightarrow> 'v pool" where [simp]:
  "hp_DeleteConn deviceID conn p = pool_DeleteConn fnvHash deviceID conn p"

definition hp_Size :: "'v pool \<Rightarrow> int64" where [simp]:
  "hp_Size p = pool_Size p"

section \<open>The invariant\<close>

definition pool_entries :: "'v pool \<Rightarrow> (gostring \<times> 'v) list" where
  "pool_entries p = concat (map shard_conns (shards p))"

definition pool_wf :: "(gostring \<Rightarrow> uint32) \<Rightarrow> 'v pool \<Rightarrow> bool" where
  "pool_wf hash p \<longleftrightarrow>
     0 < shardCount p \<and> shardCount p < 2 ^ 32 \<and> length (shards p) = shardCount p \<and>
     (\<forall>i < shardCount p. gm_wf (shard_conns (shards p ! i)) \<and>
        shard_count (shards p ! i) = of_nat (length (shard_conns (shards p ! i))) \<and>
        (\<forall>e \<in> set (shard_conns (shards p ! i)). getShard hash p (fst e) = i)) \<and>
     totalCount p = sum_list (map shard_count (shards p))"

lemma getShard_bound: "pool_wf hash p \<Longrightarrow> getShard hash p k < length (shards p)"
proof -
  assume wf: "pool_wf hash p"
  then have n: "0 < shardCount p" "shardCount p < 2 ^ 32"
    by (simp_all add: pool_wf_def)
  then have "unat (of_nat (shardCount p) :: uint32) = shardCount p"
    by (simp add: unsigned_of_nat take_bit_nat_eq_self)
  with n wf show ?thesis
    by (simp add: getShard_def unat_mod pool_wf_def)
qed

lemma getShard_update [simp]:
  "getShard hash (p\<lparr>shards := ss, totalCount := tc\<rparr>) k = getShard hash p k"
  by (simp add: getShard_def)

lemma sum_list_map_update:
  "i < length xs \<Longrightarrow> sum_list (map f (xs[i := x])) = sum_list (map f xs) - f (xs ! i) + (f x :: 'a::ab_group_add)"
  by (induction xs arbitrary: i) (auto simp: algebra_simps split: nat.splits)

text \<open>Replacing one shard by another consistent one keeps the invariant.\<close>

lemma pool_wf_update:
  assumes wf: "pool_wf hash p" and i: "i = getShard hash p k"
    and sh: "gm_wf (shard_conns sh)" "shard_count sh = of_nat (length (shard_conns sh))"
    and keys: "fst ` set (shard_conns sh) \<subseteq> insert k (fst ` set (shard_conns (shards p ! i)))"
    and total: "tc = totalCount p - shard_count (shards p ! i) + shard_count sh"
  shows "pool_wf hash (p\<lparr>shards := (shards p)[i := sh], totalCount := tc\<rparr>)"
proof -
  let ?p = "p\<lparr>shards := (shards p)[i := sh], totalCount := tc\<rparr>"
  have bound: "i < length (shards p)" using getShard_bound [OF wf] i by simp
  have "getShard hash ?p (fst e) = j"
    if "j < shardCount p" "e \<in> set (shard_conns ((shards p)[i := sh] ! j))" for j e
  proof (cases "j = i")
    case True
    with that bound keys have "fst e \<in> insert k (fst ` set (shard_conns (shards p ! i)))"
      by auto
    then consider "fst e = k" | e' where "e' \<in> set (shard_conns (shards p ! i))" "fst e = fst e'"
      by auto
    then show ?thesis
      using True wf bound i by cases (simp_all add: pool_wf_def)
  next
    case False
    with that wf show ?thesis by (simp add: pool_wf_def)
  qed
  with wf sh total bound show ?thesis
    unfolding pool_wf_def by (simp add: nth_list_update sum_list_map_update)
qed

text \<open>The shard after an insertion and after a removal.\<close>

lemma gm_put_length:
  "gm_wf m \<Longrightarrow> (of_nat (length (gm_put k v m)) :: int64) =
    (if gm_get m k = None then of_nat (length m) + 1 else of_nat (length m))"
  using gm.size_put [of m k v] by simp

lemma gm_delete_length:
  "gm_wf m \<Longrightarrow> (of_nat (length (gm_delete k m)) :: int64) =
    (if gm_get m k = None then of_nat (length m) else of_nat (length m) - 1)"
  using gm.size_delete [of m k] by simp

lemma fst_gm_put: "fst ` set (gm_put k v m) = insert k (fst ` set m)"
  using gm_get_put [of k v m] by (simp flip: dom_gm_get)

lemma fst_gm_delete: "fst ` set (gm_delete k m) \<subseteq> fst ` set m"
  using gm_get_delete [of k m] by (auto simp flip: dom_gm_get)

lemma pool_shard_wf:
  assumes "pool_wf hash p"
  shows "gm_wf (shard_conns (shards p ! getShard hash p k))"
    and "shard_count (shards p ! getShard hash p k) = of_nat (length (shard_conns (shards p ! getShard hash p k)))"
  using assms getShard_bound [OF assms] by (simp_all add: pool_wf_def)

lemma pool_wf_Put:
  assumes "pool_wf hash p"
  shows "pool_wf hash (pool_Put hash dev c p)"
  unfolding pool_Put_def Let_def
  by (rule pool_wf_update [OF assms refl])
    (use pool_shard_wf [OF assms, of "dev c"] in \<open>auto simp: gm_put_length fst_gm_put\<close>)

lemma pool_wf_Delete:
  assumes "pool_wf hash p"
  shows "pool_wf hash (pool_Delete hash k p)"
proof (cases "gm_get (shard_conns (shards p ! getShard hash p k)) k = None")
  case False
  have "pool_wf hash (p\<lparr>shards := (shards p)[getShard hash p k :=
        \<lparr>shard_conns = gm_delete k (shard_conns (shards p ! getShard hash p k)),
         shard_count = shard_count (shards p ! getShard hash p k) - 1\<rparr>],
      totalCount := totalCount p - 1\<rparr>)"
    by (rule pool_wf_update [OF assms refl])
      (use pool_shard_wf [OF assms, of k] False fst_gm_delete in
        \<open>simp_all add: gm_delete_length subset_insertI2 [OF fst_gm_delete]\<close>)
  with False show ?thesis by (simp add: pool_Delete_def Let_def)
qed (simp add: pool_Delete_def assms)

lemma pool_DeleteConn_Delete:
  "pool_DeleteConn hash k c p = (if pool_Get hash p k = Some c then pool_Delete hash k p else p)"
  by (simp add: pool_DeleteConn_def pool_Delete_def pool_Get_def Let_def)

lemma pool_Get_update:
  assumes "pool_wf hash p" and "i = getShard hash p k" and "gm_get (shard_conns sh) =
    (gm_get (shard_conns (shards p ! i)))(k := v)"
  shows "pool_Get hash (p\<lparr>shards := (shards p)[i := sh], totalCount := tc\<rparr>) = (pool_Get hash p)(k := v)"
proof
  fix k'
  have "i < length (shards p)" using getShard_bound assms by blast
  with assms(2,3) show "pool_Get hash (p\<lparr>shards := (shards p)[i := sh], totalCount := tc\<rparr>) k'
      = ((pool_Get hash p)(k := v)) k'"
    by (cases "getShard hash p k' = i") (auto simp: pool_Get_def)
qed

lemma pool_Get_Put:
  assumes "pool_wf hash p"
  shows "pool_Get hash (pool_Put hash dev c p) = (pool_Get hash p)(dev c \<mapsto> c)"
  unfolding pool_Put_def Let_def
  by (rule pool_Get_update [OF assms refl]) (auto simp: gm_get_put)

lemma pool_Get_Delete:
  assumes "pool_wf hash p"
  shows "pool_Get hash (pool_Delete hash k p) = (pool_Get hash p)(k := None)"
proof (cases "pool_Get hash p k = None")
  case True
  then have "pool_Delete hash k p = p"
    by (simp add: pool_Delete_def pool_Get_def)
  with True show ?thesis by (simp add: fun_upd_idem)
next
  case False
  have "pool_Get hash (p\<lparr>shards := (shards p)[getShard hash p k :=
        \<lparr>shard_conns = gm_delete k (shard_conns (shards p ! getShard hash p k)),
         shard_count = shard_count (shards p ! getShard hash p k) - 1\<rparr>],
      totalCount := totalCount p - 1\<rparr>) = (pool_Get hash p)(k := None)"
    by (rule pool_Get_update [OF assms refl]) (simp add: gm_get_delete)
  with False show ?thesis by (simp add: pool_Delete_def pool_Get_def Let_def)
qed

section \<open>Enumeration\<close>

lemma pool_entries_iff:
  assumes "pool_wf hash p"
  shows "(k, v) \<in> set (pool_entries p) \<longleftrightarrow> pool_Get hash p k = Some v"
proof
  assume "(k, v) \<in> set (pool_entries p)"
  then obtain sh where "sh \<in> set (shards p)" "(k, v) \<in> set (shard_conns sh)"
    by (auto simp: pool_entries_def)
  then obtain i where i: "i < length (shards p)" "(k, v) \<in> set (shard_conns (shards p ! i))"
    by (auto simp: in_set_conv_nth [of sh])
  with assms have "getShard hash p k = i" and "gm_wf (shard_conns (shards p ! i))"
    by (force simp: pool_wf_def)+
  with i show "pool_Get hash p k = Some v"
    by (simp add: pool_Get_def gm_get_in_set)
next
  assume "pool_Get hash p k = Some v"
  then have "(k, v) \<in> set (shard_conns (shards p ! getShard hash p k))"
    using pool_shard_wf [OF assms] by (simp add: pool_Get_def gm_get_in_set)
  moreover have "shards p ! getShard hash p k \<in> set (shards p)"
    using getShard_bound [OF assms] by simp
  ultimately show "(k, v) \<in> set (pool_entries p)"
    by (auto simp: pool_entries_def)
qed

lemma distinct_concat_keys:
  assumes "\<And>i. i < length ms \<Longrightarrow> gm_wf (ms ! i)"
    and "\<And>i e. i < length ms \<Longrightarrow> e \<in> set (ms ! i) \<Longrightarrow> g (fst e) = i + (n::nat)"
  shows "distinct (map fst (concat ms))"
  using assms
proof (induction ms arbitrary: n)
  case (Cons m ms)
  have "distinct (map fst (concat ms))"
  proof (rule Cons.IH)
    show "gm_wf (ms ! i)" if "i < length ms" for i
      using Cons.prems(1) [of "Suc i"] that by simp
    show "g (fst e) = i + Suc n" if "i < length ms" "e \<in> set (ms ! i)" for i e
      using Cons.prems(2) [of "Suc i" e] that by simp
  qed
  moreover have "distinct (map fst m)"
    using Cons.prems(1) [of 0] by (simp add: gm_wf_def)
  moreover have "fst e \<noteq> fst e'" if e: "e \<in> set m" "e' \<in> set (concat ms)" for e e'
  proof -
    obtain m' where "m' \<in> set ms" "e' \<in> set m'"
      using e(2) by auto
    then obtain j where "j < length ms" "e' \<in> set (ms ! j)"
      by (auto simp: in_set_conv_nth [of m'])
    then show ?thesis
      using Cons.prems(2) [of 0 e] Cons.prems(2) [of "Suc j" e'] e(1) by auto
  qed
  ultimately show ?case by (simp, blast)
qed simp

lemma pool_entries_distinct:
  assumes "pool_wf hash p"
  shows "distinct (map fst (pool_entries p))"
  unfolding pool_entries_def
  by (rule distinct_concat_keys [where g = "getShard hash p" and n = 0])
    (use assms in \<open>simp_all add: pool_wf_def\<close>)

lemma length_pool_entries:
  assumes "pool_wf hash p"
  shows "pool_Size p = of_nat (length (pool_entries p))"
proof -
  have "shard_count sh = of_nat (length (shard_conns sh))" if "sh \<in> set (shards p)" for sh
    using that assms by (auto simp: pool_wf_def in_set_conv_nth)
  then have "sum_list (map shard_count shs) = of_nat (length (concat (map shard_conns shs)))"
    if "set shs \<subseteq> set (shards p)" for shs
    using that by (induction shs) auto
  with assms show ?thesis
    by (simp add: pool_Size_def pool_wf_def pool_entries_def)
qed

lemma pool_Get_entries:
  assumes "pool_wf hash p"
  shows "pool_Get hash p = map_of (pool_entries p)"
proof
  fix k
  have "pool_Get hash p k = Some v \<longleftrightarrow> map_of (pool_entries p) k = Some v" for v
    using pool_entries_iff [OF assms, of k v] pool_entries_distinct [OF assms] by simp
  then show "pool_Get hash p k = map_of (pool_entries p) k"
    by (cases "pool_Get hash p k") (simp_all, metis not_None_eq, metis)
qed

section \<open>The pools are registries\<close>

interpretation core_pool: registry_enum "pool_wf fnv1a" "pool_Get fnv1a" "\<lambda>k. pool_Put fnv1a (\<lambda>_. k)"
    "pool_Delete fnv1a" pool_entries pool_Size
  by unfold_locales
    (simp_all only: pool_wf_Put pool_Get_Put pool_wf_Delete pool_Get_Delete,
      simp_all only: pool_Get_entries pool_entries_distinct length_pool_entries)

interpretation hp_pool: registry_enum "pool_wf fnvHash" "pool_Get fnvHash" "\<lambda>k. pool_Put fnvHash (\<lambda>_. k)"
    "pool_Delete fnvHash" pool_entries pool_Size
  by unfold_locales
    (simp_all only: pool_wf_Put pool_Get_Put pool_wf_Delete pool_Get_Delete,
      simp_all only: pool_Get_entries pool_entries_distinct length_pool_entries)

interpretation hp_pool_cad: registry_cad "pool_wf fnvHash" "pool_Get fnvHash" "\<lambda>k. pool_Put fnvHash (\<lambda>_. k)"
    "pool_DeleteConn fnvHash"
  by unfold_locales (simp_all add: pool_DeleteConn_Delete pool_wf_Delete pool_Get_Delete)

lemma pool_wf_new:
  assumes "0 < dflt" and "dflt < 2 ^ 32" and "n < 2 ^ 32"
  shows "pool_wf hash (new_pool dflt n)"
proof -
  have "nat (if n \<le> 0 then dflt else n) < 2 ^ 32"
    using assms by (simp add: nat_less_iff)
  then show ?thesis
    using assms by (simp add: pool_wf_def new_pool_def Let_def sum_list_replicate)
qed

lemma pool_Get_new:
  assumes "pool_wf hash (new_pool dflt n :: 'v pool)"
  shows "pool_Get hash (new_pool dflt n :: 'v pool) k = None"
proof -
  have "shards (new_pool dflt n :: 'v pool) ! getShard hash (new_pool dflt n :: 'v pool) k \<in> set (shards (new_pool dflt n))"
    by (rule nth_mem [OF getShard_bound [OF assms]])
  then have "shard_conns (shards (new_pool dflt n :: 'v pool) ! getShard hash (new_pool dflt n :: 'v pool) k) = []"
    by (simp add: new_pool_def Let_def split: if_splits)
  then show ?thesis by (simp add: pool_Get_def)
qed

lemma pool_wf_Clear: "pool_wf hash p \<Longrightarrow> pool_wf hash (pool_Clear p)"
  by (auto simp: pool_wf_def pool_Clear_def comp_def sum_list_0)

lemma pool_Get_Clear: "pool_wf hash p \<Longrightarrow> pool_Get hash (pool_Clear p) k = None"
  using getShard_bound [OF pool_wf_Clear, of hash p k] by (simp add: pool_Get_def pool_Clear_def)

section \<open>\<^verbatim>\<open>Range\<close>\<close>

lemma range_shard_append:
  "range_shard fn (es @ es') s =
    (case range_shard fn es s of (s', goon) \<Rightarrow> if goon then range_shard fn es' s' else (s', False))"
  by (induction es arbitrary: s) (auto split: prod.splits)

lemma pool_Range_concat: "pool_Range fn ess s = fst (range_shard fn (concat ess) s)"
  by (induction ess arbitrary: s) (auto simp: range_shard_append split: prod.splits)

lemma mset_traversal: "traversal p ess \<Longrightarrow> mset (concat ess) = mset (pool_entries p)"
proof -
  have "mset (concat ess) = mset (concat (map shard_conns shs))"
    if "list_all2 (\<lambda>sh es. mset es = mset (shard_conns sh)) shs ess" for shs
    using that by (induction shs ess rule: list_all2_induct) simp_all
  then show "traversal p ess \<Longrightarrow> mset (concat ess) = mset (pool_entries p)"
    by (simp add: traversal_def pool_entries_def)
qed

section \<open>Properties\<close>

text \<open>The SDK's sharded pool is a map from device IDs to connections, whatever the hash does:
  after \<^verbatim>\<open>Put\<close>, \<^verbatim>\<open>Delete\<close> and \<^verbatim>\<open>Clear\<close> every \<^verbatim>\<open>Get\<close> answers as for that map, and \<^verbatim>\<open>Size\<close>
  (the 64-bit counter kept beside the shards) is the number of its entries.\<close>

theorem core_pool_is_map:
  assumes "pool_wf fnv1a p"
  shows "pool_wf fnv1a (pool_Put fnv1a dev c p) \<and> pool_wf fnv1a (pool_Delete fnv1a k p) \<and> pool_wf fnv1a (pool_Clear p)
    \<and> pool_Get fnv1a (pool_Put fnv1a dev c p) = (pool_Get fnv1a p)(dev c \<mapsto> c)
    \<and> pool_Get fnv1a (pool_Delete fnv1a k p) = (pool_Get fnv1a p)(k := None)
    \<and> pool_Get fnv1a (pool_Clear p) = Map.empty
    \<and> pool_Size p = of_nat (card (dom (pool_Get fnv1a p)))
    \<and> pool_Size (pool_Put fnv1a dev c p) = (if pool_Get fnv1a p (dev c) = None then pool_Size p + 1 else pool_Size p)
    \<and> pool_Size (pool_Delete fnv1a k p) = (if pool_Get fnv1a p k = None then pool_Size p else pool_Size p - 1)"
proof -
  have "pool_Put fnv1a dev c p = pool_Put fnv1a (\<lambda>_. dev c) c p"
    by (simp add: pool_Put_def)
  with assms core_pool.size_put [of p "dev c" c] core_pool.size_delete [of p k] core_pool.size_card [of p]
  show ?thesis
    by (simp add: pool_wf_Put pool_wf_Delete pool_wf_Clear pool_Get_Put pool_Get_Delete pool_Get_Clear fun_eq_iff)
qed

definition sample_dev :: "nat \<Rightarrow> gostring" where
  "sample_dev c = (if c = 0 then go_str ''D1'' else if c = 1 then go_str ''D2'' else go_str ''D1'')"

theorem core_pool_is_map_witness:
  "pool_Get fnv1a (pool_Put fnv1a sample_dev (2::nat) (pool_Put fnv1a sample_dev 0 (NewShardedConnPool 4)))
      (go_str ''D1'') = Some 2
   \<and> pool_Size (pool_Put fnv1a sample_dev (2::nat) (pool_Put fnv1a sample_dev 0 (NewShardedConnPool 4))) = 1"
proof -
  have wf: "pool_wf fnv1a (NewShardedConnPool 4)"
    unfolding NewShardedConnPool_def by (rule pool_wf_new) simp_all
  have wf1: "pool_wf fnv1a (pool_Put fnv1a sample_dev (0::nat) (NewShardedConnPool 4))"
    by (rule pool_wf_Put [OF wf])
  have "pool_Get fnv1a (pool_Put fnv1a sample_dev (0::nat) (NewShardedConnPool 4)) (go_str ''D1'') = Some 0"
    and "pool_Size (pool_Put fnv1a sample_dev (0::nat) (NewShardedConnPool 4)) = 1"
    and "sample_dev 2 = go_str ''D1''"
    by code_simp+
  with core_pool_is_map [OF wf1, of sample_dev 2] show ?thesis
    by simp
qed

text \<open>C17. So is the connection pool of the high-performance server.\<close>

theorem hp_pool_is_map:
  assumes "pool_wf fnvHash p"
  shows "pool_wf fnvHash (hp_Put dev c p) \<and> pool_wf fnvHash (hp_Delete k p)
    \<and> hp_Get (hp_Put dev c p) = (hp_Get p)(dev c \<mapsto> c)
    \<and> hp_Get (hp_Delete k p) = (hp_Get p)(k := None)
    \<and> hp_Size p = of_nat (card (dom (hp_Get p)))
    \<and> hp_Size (hp_Put dev c p) = (if hp_Get p (dev c) = None then hp_Size p + 1 else hp_Size p)
    \<and> hp_Size (hp_Delete k p) = (if hp_Get p k = None then hp_Size p else hp_Size p - 1)"
proof -
  have "pool_Put fnvHash dev c p = pool_Put fnvHash (\<lambda>_. dev c) c p"
    by (simp add: pool_Put_def)
  moreover have "hp_Get q = pool_Get fnvHash q" for q :: "'a pool"
    by (rule ext) simp
  ultimately show ?thesis
    using assms hp_pool.size_put [of p "dev c" c] hp_pool.size_delete [of p k] hp_pool.size_card [of p]
    by (simp add: pool_wf_Put pool_wf_Delete pool_Get_Put pool_Get_Delete)
qed

theorem hp_pool_is_map_witness:
  "hp_Get (hp_Put sample_dev (1::nat) (NewShardedConnectionPool 4)) (go_str ''D2'') = Some 1"
proof -
  have wf: "pool_wf fnvHash (NewShardedConnectionPool 4 :: nat pool)"
    unfolding NewShardedConnectionPool_def by (rule pool_wf_new) (simp_all add: defaultShardCount_def)
  from hp_pool_is_map [OF wf, of sample_dev 1] show ?thesis
    by (simp add: sample_dev_def del: hp_Get_def hp_Put_def)
qed

text \<open>C18. The old connection of a device that has reconnected cannot remove the new connection's entry:
  \<^verbatim>\<open>DeleteConn\<close> changes the pool only where the given connection is the entry, \<^verbatim>\<open>Delete\<close> does not
  look at it.\<close>

theorem DeleteConn_only_own:
  assumes "pool_wf fnvHash p"
  shows "hp_Get (hp_DeleteConn k c p) k' =
      (if k' = k \<and> hp_Get p k = Some c then None else hp_Get p k')
    \<and> hp_Size (hp_DeleteConn k c p) =
      (if hp_Get p k = Some c then hp_Size p - 1 else hp_Size p)
    \<and> pool_wf fnvHash (hp_DeleteConn k c p)"
  using assms hp_pool.size_delete [of p k] hp_pool_cad.invar_cad [of p k c]
  by (auto simp: pool_DeleteConn_Delete pool_Get_Delete)

theorem DeleteConn_only_own_witness:
  "hp_Get (hp_DeleteConn (go_str ''D1'') (0::nat)
     (hp_Put sample_dev 2 (hp_Put sample_dev 0 (NewShardedConnectionPool 0)))) (go_str ''D1'') = Some 2"
proof -
  have wf: "pool_wf fnvHash (NewShardedConnectionPool 0)"
    unfolding NewShardedConnectionPool_def by (rule pool_wf_new) (simp_all add: defaultShardCount_def)
  note wf' = pool_wf_Put [OF pool_wf_Put [OF wf], of sample_dev "2::nat" sample_dev 0]
  show ?thesis
    using DeleteConn_only_own [OF wf', of "go_str ''D1''" 0 "go_str ''D1''"]
    by (simp add: pool_Get_Put pool_wf_Put wf) (simp add: sample_dev_def)
qed

text \<open>\<^verbatim>\<open>Range\<close> with a callback that never stops calls it exactly once for each entry of the pool, in
  some order, whichever order Go's map iteration takes; a callback that stops sees a prefix of it.\<close>

theorem Range_visits_each_once:
  assumes "pool_wf hash p" and "traversal p ess"
  shows "\<exists>es. mset es = mset (pool_entries p) \<and> distinct (map fst es)
    \<and> set es = {(k, v). pool_Get hash p k = Some v}
    \<and> pool_Range (\<lambda>k v seen. (seen @ [(k, v)], True)) ess [] = es
    \<and> (\<forall>stop. \<exists>n. pool_Range (\<lambda>k v seen. (seen @ [(k, v)], \<not> stop k v)) ess [] = take n es)"
proof -
  let ?es = "concat ess"
  have m: "mset ?es = mset (pool_entries p)"
    by (rule mset_traversal [OF assms(2)])
  have visit: "range_shard (\<lambda>k v seen. (seen @ [(k, v)], True)) es s = (s @ es, True)"
    for es s :: "(gostring \<times> 'a) list"
    by (induction es arbitrary: s) auto
  have pre: "\<exists>n. fst (range_shard (\<lambda>k v seen. (seen @ [(k, v)], \<not> stop k v)) es s) = s @ take n es"
    for stop and es s :: "(gostring \<times> 'a) list"
  proof (induction es arbitrary: s)
    case (Cons e es)
    obtain k v where e: "e = (k, v)" by (cases e)
    obtain n where n: "fst (range_shard (\<lambda>k v seen. (seen @ [(k, v)], \<not> stop k v)) es (s @ [e])) = (s @ [e]) @ take n es"
      using Cons.IH by blast
    show ?case
    proof (cases "stop k v")
      case True
      then have "fst (range_shard (\<lambda>k v seen. (seen @ [(k, v)], \<not> stop k v)) (e # es) s) = s @ take 1 (e # es)"
        by (simp add: e)
      then show ?thesis ..
    next
      case False
      with n have "fst (range_shard (\<lambda>k v seen. (seen @ [(k, v)], \<not> stop k v)) (e # es) s) = s @ take (Suc n) (e # es)"
        by (simp add: e)
      then show ?thesis ..
    qed
  qed simp
  have "distinct (map fst ?es)"
    using pool_entries_distinct [OF assms(1)] m
    by (metis mset_eq_imp_distinct_iff mset_map)
  moreover have "set ?es = {(k, v). pool_Get hash p k = Some v}"
    using pool_entries_iff [OF assms(1)] mset_eq_setD [OF m] by auto
  moreover have "\<exists>n. pool_Range (\<lambda>k v seen. (seen @ [(k, v)], \<not> stop k v)) ess [] = take n ?es" for stop
    using pre [of stop ?es "[]"] by (simp add: pool_Range_concat)
  ultimately show ?thesis
    using m by (intro exI [of _ ?es]) (simp add: pool_Range_concat visit)
qed

theorem Range_visits_each_once_witness:
  "set (pool_Range (\<lambda>k v seen. (seen @ [(k, v)], True))
     (map shard_conns (shards (pool_Put fnv1a sample_dev (0::nat) (NewShardedConnPool 4)))) []) = {(go_str ''D1'', 0)}"
proof -
  let ?p = "pool_Put fnv1a sample_dev (0::nat) (NewShardedConnPool 4)"
  have wf: "pool_wf fnv1a (NewShardedConnPool 4 :: nat pool)"
    unfolding NewShardedConnPool_def by (rule pool_wf_new) simp_all
  have "traversal ?p (map shard_conns (shards ?p))"
    by (simp add: traversal_def list_all2_conv_all_nth)
  from Range_visits_each_once [OF pool_wf_Put [OF wf] this]
  obtain es where "set es = {(k, v). pool_Get fnv1a ?p k = Some v}"
    and "pool_Range (\<lambda>k v seen. (seen @ [(k, v)], True)) (map shard_conns (shards ?p)) [] = es"
    by blast
  moreover have "pool_Get fnv1a (NewShardedConnPool 4 :: nat pool) k = None" for k
    using pool_Get_new [of fnv1a 16 4 k] wf by (simp add: NewShardedConnPool_def)
  ultimately show ?thesis
    by (auto simp: pool_Get_Put wf sample_dev_def split: if_splits)
qed

end
