(* ===== verification/MemoryStorage.thy ===== *)
theory MemoryStorage
  imports Registry
begin

text \<open>
  \<^verbatim>\<open>storage/memory.go\<close>: the in-memory \<^verbatim>\<open>Storage\<close>. Every method holds the storage's mutex for its
  whole body, so a call is one step on the state. The reports it stores are pointers that nothing
  in the SDK writes through after saving, and are values here.

  What the clients of a storage rely on is the locale \<open>device_storage\<close>. The refinement theorems relate
  the state after any sequence of calls to the history of the calls.
\<close>

section \<open>Contexts\<close>

text \<open>
  \<^verbatim>\<open>context.WithValue\<close> puts a binding in front of its parent's; \<^verbatim>\<open>Value\<close> finds the innermost one.
\<close>

type_synonym context_values = "(gostring \<times> go_value) list"

definition with_value :: "gostring \<Rightarrow> go_value \<Rightarrow> context_values \<Rightarrow> context_values" where
  "with_value k v ctx = (k, v) # ctx"

definition ctx_string :: "context_values \<Rightarrow> gostring \<Rightarrow> gostring" where
  "ctx_string ctx k = (case map_of ctx k of Some (VString s) \<Rightarrow> s | _ \<Rightarrow> [])"

definition deviceID_key :: gostring where
  "deviceID_key = go_str ''deviceID''"

section \<open>The storage\<close>

record MemoryStorage =
  devices :: "(gostring, TerminalRegister) gomap"
  status :: "(gostring, DeviceStatus) gomap"
  locations :: "(gostring, LocationReport list) gomap"
  alarms :: "(gostring, AlarmReport list) gomap"

definition NewMemoryStorage :: MemoryStorage where
  "NewMemoryStorage = \<lparr>devices = [], status = [], locations = [], alarms = []\<rparr>"

text \<open>A missing key of a Go map of slices reads as the empty slice.\<close>

definition gm_list :: "('k, 'v list) gomap \<Rightarrow> 'k \<Rightarrow> 'v list" where
  "gm_list m k = (case gm_get m k of Some xs \<Rightarrow> xs | None \<Rightarrow> [])"

definition append_capped :: "'k \<Rightarrow> 'v \<Rightarrow> ('k, 'v list) gomap \<Rightarrow> ('k, 'v list) gomap" where
  "append_capped k x m =
     (let m1 = gm_put k (gm_list m k @ [x]) m
      in if length (gm_list m1 k) > 1000
         then gm_put k (drop (length (gm_list m1 k) - 1000) (gm_list m1 k)) m1
         else m1)"

definition SaveLocation ::
  "context_values \<Rightarrow> LocationReport option \<Rightarrow> MemoryStorage \<Rightarrow> unit res \<times> MemoryStorage" where
  "SaveLocation ctx loc s =
     (case loc of
        None \<Rightarrow> (Err LocationIsNil, s)
      | Some l \<Rightarrow>
          (let deviceID = ctx_string ctx deviceID_key
           in if deviceID = [] then (Err DeviceIDNotInContext, s)
              else (Ok (), s\<lparr>locations := append_capped deviceID l (locations s)\<rparr>)))"

definition GetLocations ::
  "gostring \<Rightarrow> go_time \<Rightarrow> go_time \<Rightarrow> MemoryStorage \<Rightarrow> LocationReport list res" where
  "GetLocations deviceID start fin s =
     (case gm_get (locations s) deviceID of
        None \<Rightarrow> Ok []
      | Some ls \<Rightarrow> Ok (filter (\<lambda>l. \<not> LR_Time l < start \<and> \<not> LR_Time l > fin) ls))"

definition SaveAlarm ::
  "context_values \<Rightarrow> AlarmReport option \<Rightarrow> MemoryStorage \<Rightarrow> unit res \<times> MemoryStorage" where
  "SaveAlarm ctx alarm s =
     (case alarm of
        None \<Rightarrow> (Err AlarmIsNil, s)
      | Some a \<Rightarrow>
          (let deviceID = ctx_string ctx deviceID_key
           in if deviceID = [] then (Err DeviceIDNotInContext, s)
              else (Ok (), s\<lparr>alarms := append_capped deviceID a (alarms s)\<rparr>)))"

definition GetAlarms ::
  "gostring \<Rightarrow> go_time \<Rightarrow> go_time \<Rightarrow> MemoryStorage \<Rightarrow> AlarmReport list res" where
  "GetAlarms deviceID start fin s =
     (case gm_get (alarms s) deviceID of
        None \<Rightarrow> Ok []
      | Some as \<Rightarrow> Ok (filter (\<lambda>a. \<not> AR_Time a < start \<and> \<not> AR_Time a > fin) as))"

definition SaveDevice ::
  "gostring \<Rightarrow> TerminalRegister option \<Rightarrow> MemoryStorage \<Rightarrow> unit res \<times> MemoryStorage" where
  "SaveDevice deviceID info s =
     (case info of
        None \<Rightarrow> (Err DeviceInfoIsNil, s)
      | Some r \<Rightarrow>
          (Ok (), s\<lparr>devices := gm_put deviceID r (devices s),
                   status := gm_put deviceID DeviceStatusOnline (status s)\<rparr>))"

definition GetDevice :: "gostring \<Rightarrow> MemoryStorage \<Rightarrow> TerminalRegister res" where
  "GetDevice deviceID s =
     (case gm_get (devices s) deviceID of
        None \<Rightarrow> Err (DeviceNotFound deviceID)
      | Some r \<Rightarrow> Ok r)"

definition UpdateDeviceStatus ::
  "gostring \<Rightarrow> DeviceStatus \<Rightarrow> MemoryStorage \<Rightarrow> unit res \<times> MemoryStorage" where
  "UpdateDeviceStatus deviceID st s = (Ok (), s\<lparr>status := gm_put deviceID st (status s)\<rparr>)"

record MemoryStorageStats =
  DeviceCount :: int
  LocationCount :: int
  AlarmCount :: int

definition GetStats :: "MemoryStorage \<Rightarrow> MemoryStorageStats" where
  "GetStats s =
     \<lparr>DeviceCount = int (length (devices s)),
      LocationCount = foldl (\<lambda>n e. n + int (length (snd e))) 0 (locations s),
      AlarmCount = foldl (\<lambda>n e. n + int (length (snd e))) 0 (alarms s)\<rparr>"

section \<open>Calls in sequence\<close>

datatype storage_call =
    CallSaveLocation context_values "LocationReport option"
  | CallSaveAlarm context_values "AlarmReport option"
  | CallSaveDevice gostring "TerminalRegister option"
  | CallUpdateDeviceStatus gostring DeviceStatus

fun storage_step :: "storage_call \<Rightarrow> MemoryStorage \<Rightarrow> MemoryStorage" where
  "storage_step (CallSaveLocation ctx l) s = snd (SaveLocation ctx l s)"
| "storage_step (CallSaveAlarm ctx a) s = snd (SaveAlarm ctx a s)"
| "storage_step (CallSaveDevice d i) s = snd (SaveDevice d i s)"
| "storage_step (CallUpdateDeviceStatus d st) s = snd (UpdateDeviceStatus d st s)"

definition storage_run :: "storage_call list \<Rightarrow> MemoryStorage \<Rightarrow> MemoryStorage" where
  "storage_run cs s = foldl (\<lambda>s c. storage_step c s) s cs"

text \<open>The specification: what the calls say about a device.\<close>

fun location_of :: "gostring \<Rightarrow> storage_call \<Rightarrow> LocationReport option" where
  "location_of d (CallSaveLocation ctx l) = (if ctx_string ctx deviceID_key = d then l else None)"
| "location_of d c = None"

fun alarm_of :: "gostring \<Rightarrow> storage_call \<Rightarrow> AlarmReport option" where
  "alarm_of d (CallSaveAlarm ctx a) = (if ctx_string ctx deviceID_key = d then a else None)"
| "alarm_of d c = None"

fun device_of :: "gostring \<Rightarrow> storage_call \<Rightarrow> TerminalRegister option" where
  "device_of d (CallSaveDevice d' i) = (if d' = d then i else None)"
| "device_of d c = None"

definition history :: "('c \<Rightarrow> 'a option) \<Rightarrow> 'c list \<Rightarrow> 'a list" where
  "history f cs = List.map_filter f cs"

definition lastn :: "nat \<Rightarrow> 'a list \<Rightarrow> 'a list" where
  "lastn n xs = drop (length xs - n) xs"

lemma history_snoc: "history f (cs @ [c]) = history f cs @ (case f c of Some x \<Rightarrow> [x] | None \<Rightarrow> [])"
  by (induction cs) (auto simp: history_def map_filter_simps split: option.splits)

lemma history_Nil [simp]: "history f [] = []"
  by (simp add: history_def map_filter_simps)

lemma length_lastn [simp]: "length (lastn n xs) = min n (length xs)"
  by (simp add: lastn_def)

lemma lastn_append_lastn: "lastn n (lastn n xs @ ys) = lastn n (xs @ ys)"
proof (cases "length xs \<le> n")
  case False
  then show ?thesis
    by (simp add: lastn_def drop_drop add.commute)
qed (simp add: lastn_def)

lemma lastn_Nil [simp]: "lastn n [] = []"
  by (simp add: lastn_def)

lemma gm_list_capped:
  "gm_list (append_capped k x m) k' = (if k' = k then lastn 1000 (gm_list m k @ [x]) else gm_list m k')"
  by (simp add: append_capped_def gm_list_def gm_get_put Let_def lastn_def)

lemma gm_wf_capped: "gm_wf m \<Longrightarrow> gm_wf (append_capped k x m)"
  by (simp add: append_capped_def Let_def)

lemma dom_capped: "dom (gm_get (append_capped k x m)) = insert k (dom (gm_get m))"
  by (auto simp: append_capped_def gm_get_put Let_def)

section \<open>The invariant\<close>

definition capped :: "('k, 'v list) gomap \<Rightarrow> bool" where
  "capped m \<longleftrightarrow> gm_wf m \<and> (\<forall>k. length (gm_list m k) \<le> 1000)"

definition storage_wf :: "MemoryStorage \<Rightarrow> bool" where
  "storage_wf s \<longleftrightarrow> gm_wf (devices s) \<and> gm_wf (status s) \<and> capped (locations s) \<and> capped (alarms s)"

lemma storage_wf_new: "storage_wf NewMemoryStorage"
  by (simp add: storage_wf_def capped_def NewMemoryStorage_def gm_list_def)

lemma capped_append: "capped m \<Longrightarrow> capped (append_capped k x m)"
  by (simp add: capped_def gm_wf_capped gm_list_capped)

lemma storage_wf_step: "storage_wf s \<Longrightarrow> storage_wf (storage_step c s)"
  by (cases c) (auto simp: storage_wf_def SaveLocation_def SaveAlarm_def SaveDevice_def
      UpdateDeviceStatus_def Let_def capped_append split: option.splits)

lemma storage_run_Nil [simp]: "storage_run [] s = s"
  by (simp add: storage_run_def)

lemma storage_run_snoc [simp]: "storage_run (cs @ [c]) s = storage_step c (storage_run cs s)"
  by (simp add: storage_run_def)

lemma storage_wf_run: "storage_wf (storage_run cs NewMemoryStorage)"
  by (induction cs rule: rev_induct) (simp_all add: storage_wf_new storage_wf_step)

section \<open>What the storage holds\<close>

lemma locations_run:
  "d \<noteq> [] \<Longrightarrow> gm_list (locations (storage_run cs NewMemoryStorage)) d = lastn 1000 (history (location_of d) cs)"
proof (induction cs rule: rev_induct)
  case (snoc c cs)
  then show ?case
    by (cases c) (auto simp: SaveLocation_def SaveAlarm_def SaveDevice_def UpdateDeviceStatus_def Let_def
        history_snoc gm_list_capped lastn_append_lastn split: option.splits)
qed (simp add: NewMemoryStorage_def gm_list_def)

lemma alarms_run:
  "d \<noteq> [] \<Longrightarrow> gm_list (alarms (storage_run cs NewMemoryStorage)) d = lastn 1000 (history (alarm_of d) cs)"
proof (induction cs rule: rev_induct)
  case (snoc c cs)
  then show ?case
    by (cases c) (auto simp: SaveLocation_def SaveAlarm_def SaveDevice_def UpdateDeviceStatus_def Let_def
        history_snoc gm_list_capped lastn_append_lastn split: option.splits)
qed (simp add: NewMemoryStorage_def gm_list_def)

lemma devices_run:
  "gm_get (devices (storage_run cs NewMemoryStorage)) d =
    (case history (device_of d) cs of [] \<Rightarrow> None | r # rs \<Rightarrow> Some (last (r # rs)))"
proof (induction cs rule: rev_induct)
  case (snoc c cs)
  then show ?case
    by (cases c) (auto simp: SaveLocation_def SaveAlarm_def SaveDevice_def UpdateDeviceStatus_def Let_def
        history_snoc gm_get_put split: option.splits list.splits)
qed (simp add: NewMemoryStorage_def)

lemma no_location_without_device: "gm_get (locations (storage_run cs NewMemoryStorage)) [] = None"
proof (induction cs rule: rev_induct)
  case (snoc c cs)
  then show ?case
    using dom_capped [where m = "locations (storage_run cs NewMemoryStorage)"]
    by (cases c) (auto simp: SaveLocation_def SaveAlarm_def SaveDevice_def UpdateDeviceStatus_def Let_def
        append_capped_def gm_get_put split: option.splits)
qed (simp add: NewMemoryStorage_def)

section \<open>What a client relies on\<close>

locale device_storage =
  fixes get_device :: "gostring \<Rightarrow> 's \<Rightarrow> TerminalRegister res"
    and save_device :: "gostring \<Rightarrow> TerminalRegister option \<Rightarrow> 's \<Rightarrow> unit res \<times> 's"
    and other_calls :: "('s \<Rightarrow> 's) set"
  assumes get_saved: "get_device d (snd (save_device d (Some r) s)) = Ok r"
    and get_other_device: "d' \<noteq> d \<Longrightarrow> get_device d' (snd (save_device d i s)) = get_device d' s"
    and save_nil: "save_device d None s = (Err DeviceInfoIsNil, s)"
    and get_other_call: "f \<in> other_calls \<Longrightarrow> get_device d (f s) = get_device d s"
    and get_safe: "safe (get_device d s)"
begin

text \<open>A device once saved stays known.\<close>

lemma get_save_known:
  assumes "get_device d s = Ok r"
  shows "\<exists>r'. get_device d (snd (save_device d' i s)) = Ok r'"
  using assms get_saved get_other_device save_nil by (cases "d = d'"; cases i) auto

lemma get_after_calls:
  assumes "set fs \<subseteq> other_calls"
  shows "get_device d (fold (\<lambda>f s. f s) fs s) = get_device d s"
  using assms by (induction fs arbitrary: s) (auto simp: get_other_call)

end

definition memory_other_calls :: "(MemoryStorage \<Rightarrow> MemoryStorage) set" where
  "memory_other_calls =
     range (\<lambda>(ctx, l). snd \<circ> SaveLocation ctx l) \<union> range (\<lambda>(ctx, a). snd \<circ> SaveAlarm ctx a) \<union>
     range (\<lambda>(d, st). snd \<circ> UpdateDeviceStatus d st)"

interpretation mem: device_storage GetDevice SaveDevice memory_other_calls
  by unfold_locales
    (auto simp: GetDevice_def SaveDevice_def memory_other_calls_def SaveLocation_def SaveAlarm_def
      UpdateDeviceStatus_def gm_get_put Let_def split: option.splits if_splits)

section \<open>Properties\<close>

text \<open>C12. After any sequence of calls the storage answers from the history: \<^verbatim>\<open>GetLocations\<close> and \<^verbatim>\<open>GetAlarms\<close>
  return, in the order in which they were saved, those of the device's last 1000 reports whose
  time is within the closed interval.\<close>

theorem queries_refine_history:
  assumes "d \<noteq> []"
  shows "GetLocations d start fin (storage_run cs NewMemoryStorage) =
      Ok (filter (\<lambda>l. start \<le> LR_Time l \<and> LR_Time l \<le> fin) (lastn 1000 (history (location_of d) cs)))
    \<and> GetAlarms d start fin (storage_run cs NewMemoryStorage) =
      Ok (filter (\<lambda>a. start \<le> AR_Time a \<and> AR_Time a \<le> fin) (lastn 1000 (history (alarm_of d) cs)))"
  unfolding locations_run [OF assms, symmetric] alarms_run [OF assms, symmetric]
  by (simp add: GetLocations_def GetAlarms_def gm_list_def not_less split: option.splits)

definition sample_location :: "go_time \<Rightarrow> LocationReport" where
  "sample_location t =
     \<lparr>LR_AlarmFlag = 0, LR_Status = 3, LR_Latitude = 39, LR_Longitude = 116, LR_Altitude = 50,
      LR_Speed = 600, LR_Direction = 90, LR_Time = t\<rparr>"

definition sample_ctx :: context_values where
  "sample_ctx = with_value deviceID_key (VString (go_str ''D1'')) []"

theorem queries_refine_history_witness:
  "GetLocations (go_str ''D1'') 10 20 (storage_run
      [CallSaveLocation sample_ctx (Some (sample_location 5)), CallSaveLocation sample_ctx (Some (sample_location 15)),
       CallSaveLocation sample_ctx None] NewMemoryStorage) = Ok [sample_location 15]"
proof -
  have "go_str ''D1'' \<noteq> []" by (simp add: go_str_def)
  from queries_refine_history [OF this, of 10 20
      "[CallSaveLocation sample_ctx (Some (sample_location 5)), CallSaveLocation sample_ctx (Some (sample_location 15)),
       CallSaveLocation sample_ctx None]"]
  show ?thesis
    by (simp add: history_def map_filter_simps sample_ctx_def with_value_def ctx_string_def lastn_def sample_location_def)
qed

text \<open>\<^verbatim>\<open>GetDevice\<close> returns the last registration saved for the device, and the error
  "device not found" when there is none.\<close>

theorem GetDevice_last_saved:
  "GetDevice d (storage_run cs NewMemoryStorage) =
    (case history (device_of d) cs of [] \<Rightarrow> Err (DeviceNotFound d) | r # rs \<Rightarrow> Ok (last (r # rs)))"
  by (simp add: GetDevice_def devices_run split: list.splits)

lemma foldl_sum: "foldl (\<lambda>n e. n + int (length (snd e))) z m = z + (\<Sum>e\<leftarrow>m. int (length (snd e)))"
  by (induction m arbitrary: z) simp_all

lemma capped_count: "capped m \<Longrightarrow> (\<Sum>e\<leftarrow>m. int (length (snd e))) \<le> 1000 * int (length m)"
proof -
  assume "capped m"
  then have "length (snd e) \<le> 1000" if "e \<in> set m" for e
    using that gm_get_in_set [of m "fst e" "snd e"] unfolding capped_def gm_list_def
    by (metis option.simps(5) prod.collapse)
  then have "(\<Sum>e\<leftarrow>es. int (length (snd e))) \<le> 1000 * int (length es)" if "set es \<subseteq> set m" for es
    using that by (induction es) force+
  then show ?thesis by simp
qed

text \<open>Memory stays bounded: after any sequence of calls each device holds at most 1000 locations and 1000
  alarms, so the counts of \<^verbatim>\<open>GetStats\<close> are at most 1000 per device that has any.\<close>

theorem storage_bounded:
  "storage_wf (storage_run cs NewMemoryStorage)
   \<and> LocationCount (GetStats (storage_run cs NewMemoryStorage))
      \<le> 1000 * int (length (locations (storage_run cs NewMemoryStorage)))
   \<and> AlarmCount (GetStats (storage_run cs NewMemoryStorage))
      \<le> 1000 * int (length (alarms (storage_run cs NewMemoryStorage)))
   \<and> DeviceCount (GetStats (storage_run cs NewMemoryStorage))
      = int (card {d. history (device_of d) cs \<noteq> []})"
proof -
  have "{d. history (device_of d) cs \<noteq> []} = dom (gm_get (devices (storage_run cs NewMemoryStorage)))"
    by (auto simp: devices_run split: list.splits)
  then show ?thesis
    using storage_wf_run [of cs] gm_length [of "devices (storage_run cs NewMemoryStorage)"]
    by (simp add: GetStats_def foldl_sum capped_count storage_wf_def)
qed

end
