(* ===== verification/Metrics.thy ===== *)
theory Metrics
  imports CoreTypes "HOL-Library.Signed_Division"
begin

text \<open>
  \<^verbatim>\<open>metrics/metrics.go\<close>: ten 64-bit counters, each read and written atomically, and the start time. The
  counters wrap around as \<^verbatim>\<open>int64\<close> does. The theorems relate the counters after any sequence of calls to
  the number of calls, and the average latency to the recorded latencies within the range of a
  64-bit sum.
\<close>

record Metrics =
  m_activeConnections :: int64
  m_totalConnections :: int64
  m_connectionErrors :: int64
  m_receivedMessages :: int64
  m_sentMessages :: int64
  m_messageErrors :: int64
  m_messageLatencySum :: int64
  m_messageLatencyCount :: int64
  m_goroutineCount :: int64
  m_memoryUsage :: int64
  m_startTime :: go_time

definition NewMetrics :: "go_time \<Rightarrow> Metrics" where
  "NewMetrics now =
     \<lparr>m_activeConnections = 0, m_totalConnections = 0, m_connectionErrors = 0, m_receivedMessages = 0,
      m_sentMessages = 0, m_messageErrors = 0, m_messageLatencySum = 0, m_messageLatencyCount = 0,
      m_goroutineCount = 0, m_memoryUsage = 0, m_startTime = now\<rparr>"

definition IncrActiveConnections :: "Metrics \<Rightarrow> Metrics" where
  "IncrActiveConnections m =
     m\<lparr>m_activeConnections := m_activeConnections m + 1, m_totalConnections := m_totalConnections m + 1\<rparr>"

definition DecrActiveConnections :: "Metrics \<Rightarrow> Metrics" where
  "DecrActiveConnections m = m\<lparr>m_activeConnections := m_activeConnections m - 1\<rparr>"

definition IncrConnectionErrors :: "Metrics \<Rightarrow> Metrics" where
  "IncrConnectionErrors m = m\<lparr>m_connectionErrors := m_connectionErrors m + 1\<rparr>"

definition IncrReceivedMessages :: "Metrics \<Rightarrow> Metrics" where
  "IncrReceivedMessages m = m\<lparr>m_receivedMessages := m_receivedMessages m + 1\<rparr>"

definition IncrSentMessages :: "Metrics \<Rightarrow> Metrics" where
  "IncrSentMessages m = m\<lparr>m_sentMessages := m_sentMessages m + 1\<rparr>"

definition IncrMessageErrors :: "Metrics \<Rightarrow> Metrics" where
  "IncrMessageErrors m = m\<lparr>m_messageErrors := m_messageErrors m + 1\<rparr>"

definition RecordMessageLatency :: "go_duration \<Rightarrow> Metrics \<Rightarrow> Metrics" where
  "RecordMessageLatency latency m =
     m\<lparr>m_messageLatencySum := m_messageLatencySum m + of_int latency,
       m_messageLatencyCount := m_messageLatencyCount m + 1\<rparr>"

definition GetMessageLatency :: "Metrics \<Rightarrow> go_duration" where
  "GetMessageLatency m =
     (let total = sint (m_messageLatencySum m); n = sint (m_messageLatencyCount m)
      in if n = 0 then 0 else sint (of_int (total sdiv n) :: int64))"

definition SetGoroutineCount :: "int \<Rightarrow> Metrics \<Rightarrow> Metrics" where
  "SetGoroutineCount n m = m\<lparr>m_goroutineCount := of_int n\<rparr>"

definition SetMemoryUsage :: "int \<Rightarrow> Metrics \<Rightarrow> Metrics" where
  "SetMemoryUsage usage m = m\<lparr>m_memoryUsage := of_int usage\<rparr>"

record MetricsStats =
  st_ActiveConnections :: int
  st_TotalConnections :: int
  st_ConnectionErrors :: int
  st_ReceivedMessages :: int
  st_SentMessages :: int
  st_MessageErrors :: int
  st_MessageLatency :: go_duration
  st_GoroutineCount :: int
  st_MemoryUsage :: int
  st_StartTime :: go_time
  st_Uptime :: go_duration

definition metrics_GetStats :: "go_time \<Rightarrow> Metrics \<Rightarrow> MetricsStats" where
  "metrics_GetStats now m =
     \<lparr>st_ActiveConnections = sint (m_activeConnections m), st_TotalConnections = sint (m_totalConnections m),
      st_ConnectionErrors = sint (m_connectionErrors m), st_ReceivedMessages = sint (m_receivedMessages m),
      st_SentMessages = sint (m_sentMessages m), st_MessageErrors = sint (m_messageErrors m),
      st_MessageLatency = GetMessageLatency m, st_GoroutineCount = sint (m_goroutineCount m),
      st_MemoryUsage = sint (m_memoryUsage m), st_StartTime = m_startTime m, st_Uptime = now - m_startTime m\<rparr>"

text \<open>\<^verbatim>\<open>Reset\<close> leaves the goroutine count and the memory usage as they are.\<close>

definition Reset :: "go_time \<Rightarrow> Metrics \<Rightarrow> Metrics" where
  "Reset now m =
     m\<lparr>m_activeConnections := 0, m_totalConnections := 0, m_connectionErrors := 0, m_receivedMessages := 0,
       m_sentMessages := 0, m_messageErrors := 0, m_messageLatencySum := 0, m_messageLatencyCount := 0,
       m_startTime := now\<rparr>"

section \<open>Calls in sequence\<close>

datatype metrics_call =
    MConnect | MDisconnect | MConnError | MReceived | MSent | MError | MLatency go_duration | MReset go_time

fun metrics_step :: "metrics_call \<Rightarrow> Metrics \<Rightarrow> Metrics" where
  "metrics_step MConnect m = IncrActiveConnections m"
| "metrics_step MDisconnect m = DecrActiveConnections m"
| "metrics_step MConnError m = IncrConnectionErrors m"
| "metrics_step MReceived m = IncrReceivedMessages m"
| "metrics_step MSent m = IncrSentMessages m"
| "metrics_step MError m = IncrMessageErrors m"
| "metrics_step (MLatency d) m = RecordMessageLatency d m"
| "metrics_step (MReset now) m = Reset now m"

lemmas metrics_defs = IncrActiveConnections_def DecrActiveConnections_def IncrConnectionErrors_def
  IncrReceivedMessages_def IncrSentMessages_def IncrMessageErrors_def RecordMessageLatency_def Reset_def

definition metrics_run :: "metrics_call list \<Rightarrow> Metrics \<Rightarrow> Metrics" where
  "metrics_run cs m = foldl (\<lambda>m c. metrics_step c m) m cs"

lemma metrics_run_Nil [simp]: "metrics_run [] m = m"
  by (simp add: metrics_run_def)

lemma metrics_run_snoc [simp]: "metrics_run (cs @ [c]) m = metrics_step c (metrics_run cs m)"
  by (simp add: metrics_run_def)

text \<open>The calls since the last \<^verbatim>\<open>Reset\<close>.\<close>

fun is_reset :: "metrics_call \<Rightarrow> bool" where
  "is_reset (MReset now) = True"
| "is_reset c = False"

definition since_reset :: "metrics_call list \<Rightarrow> metrics_call list" where
  "since_reset cs = rev (takeWhile (\<lambda>c. \<not> is_reset c) (rev cs))"

lemma since_reset_Nil [simp]: "since_reset [] = []"
  by (simp add: since_reset_def)

lemma since_reset_snoc: "since_reset (cs @ [c]) = (if is_reset c then [] else since_reset cs @ [c])"
  by (simp add: since_reset_def)

fun latency_of :: "metrics_call \<Rightarrow> go_duration list" where
  "latency_of (MLatency d) = [d]"
| "latency_of c = []"

definition latencies :: "metrics_call list \<Rightarrow> go_duration list" where
  "latencies cs = concat (map latency_of cs)"

lemma latencies_snoc [simp]: "latencies (cs @ [c]) = latencies cs @ latency_of c"
  by (simp add: latencies_def)

lemma latencies_Nil [simp]: "latencies [] = []"
  by (simp add: latencies_def)

lemma count_list_snoc: "count_list (xs @ [x]) y = count_list xs y + (if x = y then 1 else 0)"
  by (induction xs) simp_all

lemma metrics_run_counters:
  "m_receivedMessages (metrics_run cs (NewMetrics t)) = of_nat (count_list (since_reset cs) MReceived)
   \<and> m_sentMessages (metrics_run cs (NewMetrics t)) = of_nat (count_list (since_reset cs) MSent)
   \<and> m_messageErrors (metrics_run cs (NewMetrics t)) = of_nat (count_list (since_reset cs) MError)
   \<and> m_connectionErrors (metrics_run cs (NewMetrics t)) = of_nat (count_list (since_reset cs) MConnError)
   \<and> m_totalConnections (metrics_run cs (NewMetrics t)) = of_nat (count_list (since_reset cs) MConnect)
   \<and> m_activeConnections (metrics_run cs (NewMetrics t)) =
      of_nat (count_list (since_reset cs) MConnect) - of_nat (count_list (since_reset cs) MDisconnect)"
proof (induction cs rule: rev_induct)
  case (snoc c cs)
  then show ?case
    by (cases c) (simp_all add: metrics_defs since_reset_snoc count_list_snoc)
qed (simp add: NewMetrics_def)

lemma metrics_run_latency:
  "m_messageLatencySum (metrics_run cs (NewMetrics t)) = of_int (sum_list (latencies (since_reset cs)))
   \<and> m_messageLatencyCount (metrics_run cs (NewMetrics t)) = of_nat (length (latencies (since_reset cs)))"
proof (induction cs rule: rev_induct)
  case (snoc c cs)
  then show ?case
    by (cases c) (simp_all add: metrics_defs since_reset_snoc)
qed (simp add: NewMetrics_def)

lemma sint_of_int64: "- (2 ^ 63) \<le> n \<Longrightarrow> n < 2 ^ 63 \<Longrightarrow> sint (of_int n :: int64) = n"
  by (simp add: sint_sbintrunc' signed_take_bit_int_eq_self)

section \<open>Properties\<close>

text \<open>After any sequence of calls the counters hold, modulo \<open>2^64\<close>, the numbers of calls since the last
  \<^verbatim>\<open>Reset\<close>; the active connections are the connects minus the disconnects since then.\<close>

theorem metrics_count_calls:
  "m_receivedMessages (metrics_run cs (NewMetrics t)) = of_nat (count_list (since_reset cs) MReceived)
   \<and> m_messageErrors (metrics_run cs (NewMetrics t)) = of_nat (count_list (since_reset cs) MError)
   \<and> m_totalConnections (metrics_run cs (NewMetrics t)) = of_nat (count_list (since_reset cs) MConnect)
   \<and> m_activeConnections (metrics_run cs (NewMetrics t)) =
      of_nat (count_list (since_reset cs) MConnect) - of_nat (count_list (since_reset cs) MDisconnect)"
  using metrics_run_counters by blast

text \<open>\<^verbatim>\<open>GetMessageLatency\<close> is the truncated mean of the non-negative latencies recorded since the last
  \<^verbatim>\<open>Reset\<close> (0 when there are none) as long as their sum fits 64 bits: it lies between the smallest and the
  largest of them.\<close>

theorem message_latency_mean:
  assumes "\<forall>d \<in> set (latencies (since_reset cs)). 0 \<le> d"
    and "sum_list (latencies (since_reset cs)) < 2 ^ 63" and "length (latencies (since_reset cs)) < 2 ^ 63"
  shows "GetMessageLatency (metrics_run cs (NewMetrics t)) =
      sum_list (latencies (since_reset cs)) div int (length (latencies (since_reset cs)))
    \<and> (\<forall>hi. (\<forall>d \<in> set (latencies (since_reset cs)). d \<le> hi) \<longrightarrow> 0 \<le> hi \<longrightarrow>
        GetMessageLatency (metrics_run cs (NewMetrics t)) \<le> hi)"
proof -
  let ?ls = "latencies (since_reset cs)"
  have nonneg: "0 \<le> sum_list ?ls"
    using assms(1) by (simp add: sum_list_nonneg)
  have upper: "sum_list xs \<le> hi * int (length xs)" if "\<forall>d \<in> set xs. d \<le> hi" for xs :: "int list" and hi
    using that by (induction xs) (auto simp: algebra_simps)
  have count: "sint (of_nat (length ?ls) :: int64) = int (length ?ls)"
    using sint_of_int64 [of "int (length ?ls)"] assms(3) by simp
  have total: "sint (of_int (sum_list ?ls) :: int64) = sum_list ?ls"
    using nonneg assms(2) by (intro sint_of_int64) simp_all
  have quot: "sum_list ?ls sdiv int (length ?ls) = sum_list ?ls div int (length ?ls)"
    using nonneg by (simp add: signed_divide_int_def sgn_if)
  have "0 \<le> sum_list ?ls div int (length ?ls)" "sum_list ?ls div int (length ?ls) \<le> sum_list ?ls"
    using nonneg by (simp_all add: pos_imp_zdiv_nonneg_iff div_int_pos_iff, cases "?ls = []") (simp_all add: zdiv_mono2 [of _ 1, simplified] int_one_le_iff_zero_less)
  then have mean: "GetMessageLatency (metrics_run cs (NewMetrics t)) = sum_list ?ls div int (length ?ls)"
    using assms(2) metrics_run_latency [of cs t]
    by (simp add: GetMessageLatency_def count total quot sint_of_int64)
  moreover have "sum_list ?ls div int (length ?ls) \<le> hi" if "\<forall>d \<in> set ?ls. d \<le> hi" "0 \<le> hi" for hi
  proof (cases "?ls = []")
    case False
    then have "sum_list ?ls div int (length ?ls) \<le> hi * int (length ?ls) div int (length ?ls)"
      using upper [OF that(1)] by (intro zdiv_mono1) simp_all
    with False show ?thesis by simp
  qed (use that in simp)
  ultimately show ?thesis by simp
qed

theorem message_latency_mean_witness:
  "GetMessageLatency (metrics_run [MLatency 100, MReset 5, MReceived, MLatency 10, MLatency 25] (NewMetrics 0)) = 17"
  using message_latency_mean [of "[MLatency 100, MReset 5, MReceived, MLatency 10, MLatency 25]" 0]
  by (simp add: since_reset_def latencies_def)

end
