(* ===== verification/ConfigStore.thy ===== *)
theory ConfigStore
  imports Registry
begin

text \<open>
  \<^verbatim>\<open>config/config.go\<close>: a map of dynamically typed values with typed getters, and watchers that \<^verbatim>\<open>Set\<close>
  starts in goroutines of their own. A watcher is named by a number; the goroutines started are
  the list of (watcher, value) pairs that \<^verbatim>\<open>Set\<close> appends to, in the order of registration (the order
  in which they run is the scheduler's).
\<close>

record ConfigState =
  cfg_values :: "(gostring, go_value) gomap"
  cfg_watchers :: "(gostring, nat list) gomap"
  cfg_notified :: "(nat \<times> go_value) list"

definition NewConfig :: ConfigState where
  "NewConfig = \<lparr>cfg_values = [], cfg_watchers = [], cfg_notified = []\<rparr>"

definition GetString :: "ConfigState \<Rightarrow> gostring \<Rightarrow> gostring" where
  "GetString c key = (case gm_get (cfg_values c) key of Some (VString s) \<Rightarrow> s | _ \<Rightarrow> [])"

definition GetInt :: "ConfigState \<Rightarrow> gostring \<Rightarrow> int" where
  "GetInt c key = (case gm_get (cfg_values c) key of Some (VInt i) \<Rightarrow> i | _ \<Rightarrow> 0)"

definition GetBool :: "ConfigState \<Rightarrow> gostring \<Rightarrow> bool" where
  "GetBool c key = (case gm_get (cfg_values c) key of Some (VBool b) \<Rightarrow> b | _ \<Rightarrow> False)"

definition GetDuration :: "ConfigState \<Rightarrow> gostring \<Rightarrow> go_duration" where
  "GetDuration c key = (case gm_get (cfg_values c) key of Some (VDuration d) \<Rightarrow> d | _ \<Rightarrow> 0)"

definition config_Set :: "gostring \<Rightarrow> go_value \<Rightarrow> ConfigState \<Rightarrow> ConfigState" where
  "config_Set key v c =
     (let c1 = c\<lparr>cfg_values := gm_put key v (cfg_values c)\<rparr>
      in case gm_get (cfg_watchers c1) key of
           Some ws \<Rightarrow> c1\<lparr>cfg_notified := cfg_notified c1 @ map (\<lambda>w. (w, v)) ws\<rparr>
         | None \<Rightarrow> c1)"

definition Watch :: "gostring \<Rightarrow> nat \<Rightarrow> ConfigState \<Rightarrow> ConfigState" where
  "Watch key callback c =
     c\<lparr>cfg_watchers := gm_put key
         ((case gm_get (cfg_watchers c) key of Some ws \<Rightarrow> ws | None \<Rightarrow> []) @ [callback]) (cfg_watchers c)\<rparr>"

text \<open>\<^verbatim>\<open>Unmarshal\<close>, \<^verbatim>\<open>LoadFromFile\<close> and \<^verbatim>\<open>LoadFromEnv\<close> are stubs that return \<^verbatim>\<open>nil\<close>.\<close>

definition Unmarshal :: "ConfigState \<Rightarrow> unit res \<times> ConfigState" where "Unmarshal c = (Ok (), c)"
definition LoadFromFile :: "gostring \<Rightarrow> ConfigState \<Rightarrow> unit res \<times> ConfigState" where "LoadFromFile path c = (Ok (), c)"
definition LoadFromEnv :: "ConfigState \<Rightarrow> unit res \<times> ConfigState" where "LoadFromEnv c = (Ok (), c)"

record ServerConfig =
  sc_ListenAddr :: gostring
  sc_MaxConnections :: int
  sc_ReadTimeout :: go_duration
  sc_WriteTimeout :: go_duration
  sc_IdleTimeout :: go_duration
  sc_ReadBufferSize :: int
  sc_WriteBufferSize :: int
  sc_WorkerMinWorkers :: int
  sc_WorkerMaxWorkers :: int
  sc_WorkerQueueSize :: int
  sc_PoolShardCount :: int

definition DefaultServerConfig :: ServerConfig where
  "DefaultServerConfig =
     \<lparr>sc_ListenAddr = go_str '':8080'', sc_MaxConnections = 1000000, sc_ReadTimeout = 30 * 10 ^ 9,
      sc_WriteTimeout = 30 * 10 ^ 9, sc_IdleTimeout = 300 * 10 ^ 9, sc_ReadBufferSize = 4096,
      sc_WriteBufferSize = 4096, sc_WorkerMinWorkers = 100, sc_WorkerMaxWorkers = 10000,
      sc_WorkerQueueSize = 100000, sc_PoolShardCount = 16\<rparr>"

section \<open>Calls in sequence\<close>

datatype config_call = ConfSet gostring go_value | ConfWatch gostring nat

fun config_step :: "config_call \<Rightarrow> ConfigState \<Rightarrow> ConfigState" where
  "config_step (ConfSet k v) c = config_Set k v c"
| "config_step (ConfWatch k w) c = Watch k w c"

fun config_run :: "config_call list \<Rightarrow> ConfigState \<Rightarrow> ConfigState" where
  "config_run [] c = c"
| "config_run (x # xs) c = config_run xs (config_step x c)"

text \<open>The specification over the calls, latest first: the last value set, the watchers of a key in order,
  and the notifications.\<close>

fun last_value :: "config_call list \<Rightarrow> gostring \<Rightarrow> go_value option" where
  "last_value [] k = None"
| "last_value (ConfSet k' v # cs) k = (if k' = k then Some v else last_value cs k)"
| "last_value (ConfWatch k' w # cs) k = last_value cs k"

fun watchers_of :: "config_call list \<Rightarrow> gostring \<Rightarrow> nat list" where
  "watchers_of [] k = []"
| "watchers_of (ConfWatch k' w # cs) k = watchers_of cs k @ (if k' = k then [w] else [])"
| "watchers_of (ConfSet k' v # cs) k = watchers_of cs k"

fun notifications :: "config_call list \<Rightarrow> (nat \<times> go_value) list" where
  "notifications [] = []"
| "notifications (ConfSet k v # cs) = notifications cs @ map (\<lambda>w. (w, v)) (watchers_of cs k)"
| "notifications (ConfWatch k w # cs) = notifications cs"

lemma config_run_append: "config_run (xs @ ys) c = config_run ys (config_run xs c)"
  by (induction xs arbitrary: c) simp_all

lemma config_run_spec:
  "gm_get (cfg_values (config_run (rev cs) NewConfig)) = last_value cs
   \<and> (\<forall>k. (case gm_get (cfg_watchers (config_run (rev cs) NewConfig)) k of Some ws \<Rightarrow> ws | None \<Rightarrow> []) = watchers_of cs k)
   \<and> cfg_notified (config_run (rev cs) NewConfig) = notifications cs"
proof (induction cs)
  case Nil
  then show ?case by (auto simp: NewConfig_def)
next
  case (Cons x cs)
  show ?case
  proof (cases x)
    case (ConfSet k v)
    from Cons have "map (\<lambda>w. (w, v)) (watchers_of cs k) =
        (case gm_get (cfg_watchers (config_run (rev cs) NewConfig)) k of
           Some ws \<Rightarrow> map (\<lambda>w. (w, v)) ws | None \<Rightarrow> [])"
      by (metis (mono_tags, lifting) list.simps(8) option.case_eq_if)
    with Cons ConfSet show ?thesis
      by (auto simp: config_run_append config_Set_def gm_get_put Let_def fun_eq_iff split: option.splits)
  next
    case (ConfWatch k w)
    with Cons show ?thesis
      by (auto simp: config_run_append Watch_def gm_get_put split: option.splits)
  qed
qed

section \<open>Properties\<close>

text \<open>After any sequence of calls a typed getter returns the last value set under the key when it has
  the getter's type, and the zero value otherwise; and \<^verbatim>\<open>Set\<close> has started exactly the watchers that were
  registered for its key by then, each with the value set.\<close>

theorem config_getters_and_watchers:
  "GetString (config_run (rev cs) NewConfig) k = (case last_value cs k of Some (VString s) \<Rightarrow> s | _ \<Rightarrow> [])
   \<and> GetInt (config_run (rev cs) NewConfig) k = (case last_value cs k of Some (VInt i) \<Rightarrow> i | _ \<Rightarrow> 0)
   \<and> GetBool (config_run (rev cs) NewConfig) k = (case last_value cs k of Some (VBool b) \<Rightarrow> b | _ \<Rightarrow> False)
   \<and> GetDuration (config_run (rev cs) NewConfig) k = (case last_value cs k of Some (VDuration d) \<Rightarrow> d | _ \<Rightarrow> 0)
   \<and> cfg_notified (config_run (rev cs) NewConfig) = notifications cs"
  using config_run_spec [of cs] by (simp add: GetString_def GetInt_def GetBool_def GetDuration_def)

end
