(* ===== verification/WorkerPools.thy ===== *)
theory WorkerPools
  imports CoreTypes
begin

text \<open>
  The two worker pools: \<^verbatim>\<open>core/worker.go\<close> and the \<^verbatim>\<open>WorkerPool\<close> of \<^verbatim>\<open>transport/tcp_highperf.go\<close>, as step
  relations. A channel is a bounded queue; a \<^verbatim>\<open>select\<close> with several ready cases takes any of them;
  a worker goroutine is idle (at its \<^verbatim>\<open>select\<close>), running a task, or has returned. The number of
  goroutines and the queue are unbounded lists, the atomic counters are integers: an \<^verbatim>\<open>int32\<close> counter of
  workers cannot overflow before memory is exhausted.
\<close>

section \<open>Queue usage\<close>

text \<open>\<^verbatim>\<open>usage := float64(queueLen) / float64(queueCap)\<close> compared with the constants 0.8 and 0.2; the
  capacity is positive (a quotient 0/0 would be NaN, which compares false both ways).\<close>

definition queue_usage :: "nat \<Rightarrow> nat \<Rightarrow> float64" where
  "queue_usage queueLen queueCap = f64_div (f64_of_int (int queueLen)) (f64_of_int (int queueCap))"

definition usage_high :: "nat \<Rightarrow> nat \<Rightarrow> bool" where
  "usage_high queueLen queueCap \<longleftrightarrow> 0 < queueCap \<and> queue_usage queueLen queueCap > f64 (8 / 10)"

definition usage_low :: "nat \<Rightarrow> nat \<Rightarrow> bool" where
  "usage_low queueLen queueCap \<longleftrightarrow> 0 < queueCap \<and> queue_usage queueLen queueCap < f64 (2 / 10)"

lemma f64_less_of_gap:
  assumes "0 < x" and "x * (1 + 1 / 2 ^ 51) < y" and "0 < y"
  shows "f64 x < f64 y"
proof -
  have "f64 x - x \<le> x / 2 ^ 53"
    using order_trans [OF abs_ge_self fl.rnd_error [of x]] assms(1) by (simp only: abs_of_pos)
  moreover have "y - f64 y \<le> y / 2 ^ 53"
    using order_trans [OF abs_ge_minus_self fl.rnd_error [of y]] assms(3)
    by (simp only: abs_of_pos minus_diff_eq)
  moreover have "x + x / 2 ^ 53 < y - y / 2 ^ 53"
    using assms by (simp add: field_simps)
  ultimately show ?thesis by linarith
qed

lemma queue_usage_exact:
  assumes "len \<le> 2 ^ 50" and "cap \<le> 2 ^ 50"
  shows "queue_usage len cap = f64 (of_nat len / of_nat cap)"
  using fl.rnd_of_int [of "int len"] fl.rnd_of_int [of "int cap"] assms
  by (simp add: queue_usage_def f64_div_def f64_of_int_def)

lemma usage_high_iff:
  assumes "len \<le> cap" and "0 < cap" and "cap \<le> 2 ^ 48"
  shows "usage_high len cap \<longleftrightarrow> 4 * cap < 5 * len"
proof
  assume "usage_high len cap"
  then have "f64 (8 / 10) < f64 (of_nat len / of_nat cap)"
    using assms queue_usage_exact [of len cap] by (simp add: usage_high_def)
  then have "(8 / 10 :: rat) < of_nat len / of_nat cap"
    using f64_mono not_less by metis
  then have "(8 :: rat) * of_nat cap < 10 * of_nat len"
    using assms by (simp add: field_simps)
  then show "4 * cap < 5 * len" by linarith
next
  assume "4 * cap < 5 * len"
  then have "4 * cap + 1 \<le> 5 * len" by simp
  then have "(of_nat (4 * cap + 1) :: rat) \<le> of_nat (5 * len)"
    by (simp only: of_nat_le_iff)
  then have "(4 * of_nat cap + 1 :: rat) \<le> 5 * of_nat len"
    by simp
  moreover have "(of_nat cap :: rat) \<le> 2 ^ 48"
    using of_nat_mono [OF assms(3), where 'a = rat] by simp
  then have "1 / (5 * 2 ^ 48) * (of_nat cap :: rat) \<le> 1 / 5"
    by simp
  ultimately have "(4 / 5 + 1 / (5 * 2 ^ 48)) * of_nat cap \<le> (of_nat len :: rat)"
    unfolding distrib_right by linarith
  then have "(4 / 5 + 1 / (5 * 2 ^ 48) :: rat) \<le> of_nat len / of_nat cap"
    using assms(2) by (simp only: pos_le_divide_eq of_nat_0_less_iff)
  then have "(8 / 10 :: rat) * (1 + 1 / 2 ^ 51) < of_nat len / of_nat cap"
    by (rule less_le_trans [rotated]) simp
  moreover have "0 < (of_nat len / of_nat cap :: rat)"
    using assms(2) \<open>4 * cap < 5 * len\<close> by (intro divide_pos_pos) simp_all
  ultimately have "f64 (8 / 10) < f64 (of_nat len / of_nat cap)"
    by (intro f64_less_of_gap) simp_all
  then show "usage_high len cap"
    using assms queue_usage_exact [of len cap] by (simp add: usage_high_def)
qed

section \<open>Workers\<close>

datatype 't worker = Idle | Running 't | Exited

fun is_running :: "'t worker \<Rightarrow> bool" where
  "is_running (Running t) = True"
| "is_running w = False"

fun is_idle :: "'t worker \<Rightarrow> bool" where
  "is_idle Idle = True"
| "is_idle w = False"

lemma filter_update:
  "i < length xs \<Longrightarrow> length (filter P (xs[i := x])) + of_bool (P (xs ! i)) = length (filter P xs) + of_bool (P x)"
proof (induction xs arbitrary: i)
  case (Cons a xs)
  then show ?case by (cases i) auto
qed simp

section \<open>The core pool\<close>

record 't core_pool =
  cq :: "'t list"
  cq_cap :: nat
  cq_closed :: bool
  cworkers :: "'t worker list"
  cminWorkers :: int
  cmaxWorkers :: int
  cdone :: bool
  cactive :: int

definition addWorker :: "'t core_pool \<Rightarrow> 't core_pool" where
  "addWorker p = p\<lparr>cworkers := cworkers p @ [Idle]\<rparr>"

definition NewWorkerPool :: "int \<Rightarrow> int \<Rightarrow> int \<Rightarrow> 't core_pool" where
  "NewWorkerPool minW maxW queueSize =
     (let minWorkers = (if minW \<le> 0 then 100 else minW);
          maxWorkers = (if maxW \<le> 0 then 10000 else maxW);
          size = (if queueSize \<le> 0 then 100000 else queueSize);
          pool = \<lparr>cq = [], cq_cap = nat size, cq_closed = False, cworkers = [], cminWorkers = minWorkers,
                  cmaxWorkers = maxWorkers, cdone = False, cactive = 0\<rparr>
      in (addWorker ^^ nat minWorkers) pool)"

definition adjustWorkers :: "'t core_pool \<Rightarrow> 't core_pool" where
  "adjustWorkers p =
     (let currentWorkers = int (length (cworkers p))
      in if usage_high (length (cq p)) (cq_cap p) \<and> currentWorkers < cmaxWorkers p
         then (addWorker ^^ nat (min (currentWorkers * 2) (cmaxWorkers p) - currentWorkers)) p
         else p)"

text \<open>The cases of \<^verbatim>\<open>Submit\<close>'s \<^verbatim>\<open>select\<close> that can proceed: the context is done, or the send can proceed
  (a send on a closed channel proceeds by panicking). None: the call blocks.\<close>

datatype submit_case = CaseDone | CaseSend

definition submit_ready :: "'t core_pool \<Rightarrow> submit_case list" where
  "submit_ready p =
     (if cdone p then [CaseDone] else []) @
     (if cq_closed p \<or> length (cq p) < cq_cap p then [CaseSend] else [])"

fun Submit :: "submit_case \<Rightarrow> 't \<Rightarrow> 't core_pool \<Rightarrow> unit res \<times> 't core_pool" where
  "Submit CaseDone task p = (Err ContextCanceled, p)"
| "Submit CaseSend task p =
     (if cq_closed p then (Panic SendOnClosedChannel, p)
      else (Ok (), adjustWorkers (p\<lparr>cq := cq p @ [task]\<rparr>)))"

text \<open>\<^verbatim>\<open>SubmitAsync\<close> has the same body and drops the error.\<close>

fun SubmitAsync :: "submit_case \<Rightarrow> 't \<Rightarrow> 't core_pool \<Rightarrow> unit res \<times> 't core_pool" where
  "SubmitAsync CaseDone task p = (Ok (), p)"
| "SubmitAsync CaseSend task p =
     (if cq_closed p then (Panic SendOnClosedChannel, p)
      else (Ok (), adjustWorkers (p\<lparr>cq := cq p @ [task]\<rparr>)))"

text \<open>\<^verbatim>\<open>Stop\<close> up to its wait for the workers.\<close>

definition Stop :: "'t core_pool \<Rightarrow> unit res \<times> 't core_pool" where
  "Stop p =
     (let p1 = p\<lparr>cdone := True\<rparr>
      in if cq_closed p1 then (Panic CloseOfClosedChannel, p1) else (Ok (), p1\<lparr>cq_closed := True\<rparr>))"

record core_stats =
  ActiveWorkers :: int
  TotalWorkers :: int
  QueueLength :: int
  QueueCapacity :: int

definition Stats :: "'t core_pool \<Rightarrow> core_stats" where
  "Stats p = \<lparr>ActiveWorkers = cactive p, TotalWorkers = int (length (cworkers p)),
     QueueLength = int (length (cq p)), QueueCapacity = int (cq_cap p)\<rparr>"

datatype 't core_event =
    ESubmit 't "unit res"
  | ETake nat 't
  | EFinish nat 't
  | EExit nat
  | EStop "unit res"

text \<open>A worker's loop (\<^verbatim>\<open>start\<close>): the moves of worker \<open>i\<close>.\<close>

inductive worker_step :: "'t core_pool \<Rightarrow> 't core_event \<Rightarrow> 't core_pool \<Rightarrow> bool" where
  exit_done: "i < length (cworkers p) \<Longrightarrow> cworkers p ! i = Idle \<Longrightarrow> cdone p \<Longrightarrow>
    worker_step p (EExit i) (p\<lparr>cworkers := (cworkers p)[i := Exited]\<rparr>)"
| exit_closed: "i < length (cworkers p) \<Longrightarrow> cworkers p ! i = Idle \<Longrightarrow> cq p = [] \<Longrightarrow> cq_closed p \<Longrightarrow>
    worker_step p (EExit i) (p\<lparr>cworkers := (cworkers p)[i := Exited]\<rparr>)"
| take: "i < length (cworkers p) \<Longrightarrow> cworkers p ! i = Idle \<Longrightarrow> cq p = t # ts \<Longrightarrow>
    worker_step p (ETake i t)
      (p\<lparr>cq := ts, cworkers := (cworkers p)[i := Running t], cactive := cactive p + 1\<rparr>)"
| finish: "i < length (cworkers p) \<Longrightarrow> cworkers p ! i = Running t \<Longrightarrow>
    worker_step p (EFinish i t) (p\<lparr>cworkers := (cworkers p)[i := Idle], cactive := cactive p - 1\<rparr>)"

inductive core_step :: "'t core_pool \<Rightarrow> 't core_event \<Rightarrow> 't core_pool \<Rightarrow> bool" where
  submit: "c \<in> set (submit_ready p) \<Longrightarrow> Submit c t p = (r, p') \<Longrightarrow> core_step p (ESubmit t r) p'"
| stop: "Stop p = (r, p') \<Longrightarrow> core_step p (EStop r) p'"
| worker: "worker_step p e p' \<Longrightarrow> core_step p e p'"

inductive core_run :: "'t core_pool \<Rightarrow> 't core_event list \<Rightarrow> 't core_pool \<Rightarrow> bool" where
  nil: "core_run p [] p"
| snoc: "core_run p es q \<Longrightarrow> core_step q e q' \<Longrightarrow> core_run p (es @ [e]) q'"

inductive_simps core_run_Nil [simp]: "core_run p [] q"
inductive_cases worker_stepE: "worker_step p e p'"
inductive_cases core_stepE: "core_step p e p'"

definition accepted :: "'t core_event list \<Rightarrow> 't list" where
  "accepted es = List.map_filter (\<lambda>e. case e of ESubmit t (Ok _) \<Rightarrow> Some t | _ \<Rightarrow> None) es"

definition taken :: "'t core_event list \<Rightarrow> 't list" where
  "taken es = List.map_filter (\<lambda>e. case e of ETake i t \<Rightarrow> Some t | _ \<Rightarrow> None) es"

lemma map_filter_append: "List.map_filter f (xs @ ys) = List.map_filter f xs @ List.map_filter f ys"
  by (induction xs) (auto simp: map_filter_simps split: option.splits)

subsection \<open>Invariant\<close>

definition core_inv :: "'t core_pool \<Rightarrow> bool" where
  "core_inv p \<longleftrightarrow>
     cactive p = int (length (filter is_running (cworkers p))) \<and> length (cq p) \<le> cq_cap p \<and>
     (cq_closed p \<longrightarrow> cdone p) \<and>
     0 < cminWorkers p \<and> cminWorkers p \<le> int (length (cworkers p)) \<and>
     int (length (cworkers p)) \<le> max (cminWorkers p) (cmaxWorkers p)"

lemma addWorker_funpow: "(addWorker ^^ n) p = p\<lparr>cworkers := cworkers p @ replicate n Idle\<rparr>"
  by (induction n) (simp_all add: addWorker_def replicate_append_same)

lemma filter_running_replicate [simp]: "filter is_running (replicate n Idle) = []"
  by (induction n) simp_all

lemma core_inv_new: "core_inv (NewWorkerPool a b c)"
  by (simp add: core_inv_def NewWorkerPool_def Let_def addWorker_funpow)

lemma core_inv_adjust: "core_inv p \<Longrightarrow> core_inv (adjustWorkers p)"
  by (auto simp: core_inv_def adjustWorkers_def Let_def addWorker_funpow)

lemma adjust_simps [simp]: "cq (adjustWorkers p) = cq p" "cdone (adjustWorkers p) = cdone p"
    "cq_closed (adjustWorkers p) = cq_closed p" "cq_cap (adjustWorkers p) = cq_cap p"
    "cminWorkers (adjustWorkers p) = cminWorkers p" "cmaxWorkers (adjustWorkers p) = cmaxWorkers p"
  by (simp_all add: adjustWorkers_def Let_def addWorker_funpow)

lemma length_filter_update:
  "i < length ws \<Longrightarrow> int (length (filter P (ws[i := x]))) =
    int (length (filter P ws)) - of_bool (P (ws ! i)) + of_bool (P x)"
  using filter_update [of i ws P x] by (simp add: of_bool_def split: if_splits)

lemma core_inv_worker: "worker_step p e p' \<Longrightarrow> core_inv p \<Longrightarrow> core_inv p'"
  by (induction rule: worker_step.induct) (simp_all add: core_inv_def length_filter_update)

lemma core_inv_step: "core_step p e p' \<Longrightarrow> core_inv p \<Longrightarrow> core_inv p'"
proof (induction rule: core_step.induct)
  case (submit c p t r p')
  show ?case
  proof (cases c)
    case CaseSend
    with submit core_inv_adjust [of "p\<lparr>cq := cq p @ [t]\<rparr>"] show ?thesis
      by (auto simp: submit_ready_def core_inv_def split: if_splits)
  qed (use submit in simp)
next
  case (stop p r p')
  then show ?case by (auto simp: Stop_def Let_def core_inv_def split: if_splits)
qed (rule core_inv_worker)

subsection \<open>Order of the tasks, and stopping\<close>

lemma accepted_snoc: "accepted (es @ [e]) = accepted es @ (case e of ESubmit t (Ok _) \<Rightarrow> [t] | _ \<Rightarrow> [])"
  by (auto simp: accepted_def map_filter_append map_filter_simps split: core_event.splits go.splits)

lemma taken_snoc: "taken (es @ [e]) = taken es @ (case e of ETake i t \<Rightarrow> [t] | _ \<Rightarrow> [])"
  by (auto simp: taken_def map_filter_append map_filter_simps split: core_event.splits)

lemma core_fifo:
  "core_run p es q \<Longrightarrow> cq p = [] \<Longrightarrow> accepted es = taken es @ cq q"
proof (induction rule: core_run.induct)
  case (snoc p es q e q')
  from snoc.hyps(2) show ?case
  proof cases
    case (submit c t r)
    with snoc show ?thesis
      by (cases c) (auto simp: accepted_snoc taken_snoc split: if_splits)
  next
    case (stop r)
    with snoc show ?thesis
      by (auto simp: accepted_snoc taken_snoc Stop_def Let_def split: if_splits)
  next
    case worker
    then show ?thesis
      using snoc by cases (auto simp: accepted_snoc taken_snoc)
  qed
qed (simp add: accepted_def taken_def map_filter_simps)

lemma core_run_inv: "core_run p es q \<Longrightarrow> core_inv p \<Longrightarrow> core_inv q"
  by (induction rule: core_run.induct) (simp_all add: core_inv_step)

definition drain :: "'t core_pool \<Rightarrow> nat" where
  "drain p = 2 * length (cq p) + 2 * length (filter is_running (cworkers p)) + length (filter is_idle (cworkers p))"

lemma drain_update:
  assumes "i < length (cworkers p)"
  shows "drain (p\<lparr>cq := q, cworkers := (cworkers p)[i := w], cactive := n\<rparr>)
      + 2 * of_bool (is_running (cworkers p ! i)) + of_bool (is_idle (cworkers p ! i)) + 2 * length (cq p)
    = drain p + 2 * of_bool (is_running w) + of_bool (is_idle w) + 2 * length q"
  using filter_update [OF assms, of is_running w] filter_update [OF assms, of is_idle w]
  by (simp add: drain_def)

lemma drain_worker: "worker_step p e p' \<Longrightarrow> drain p' < drain p"
proof (induction rule: worker_step.induct)
  case (exit_done i p)
  with drain_update [of i p, where q = "cq p" and w = Exited and n = "cactive p"] show ?case by simp
next
  case (exit_closed i p)
  show ?case
    using exit_closed(1,2) drain_update [of i p, where q = "cq p" and w = Exited and n = "cactive p"] by simp
next
  case (take i p t ts)
  with drain_update [of i p, where q = ts and w = "Running t" and n = "cactive p + 1"] show ?case by simp
next
  case (finish i p t)
  with drain_update [of i p, where q = "cq p" and w = Idle and n = "cactive p - 1"] show ?case by simp
qed

section \<open>The pool of the high-performance server\<close>

text \<open>
  A queued \<open>None\<close> is the nil task that tells a worker to return. \<open>subs\<close> are the goroutines that call
  \<^verbatim>\<open>Submit\<close>, each at one of its points: past the first check of the context, decided to spawn, or
  blocked in the last \<^verbatim>\<open>select\<close>.
\<close>

datatype 't submitter = SIdle | SChecked 't | SSpawn 't | SBlock 't

record 't hp_workers =
  tq :: "'t option list"
  tq_cap :: nat
  tworkers :: "'t worker list"
  wcount :: int
  tminWorkers :: int
  tmaxWorkers :: int
  tdone :: bool
  tactive :: int
  subs :: "'t submitter list"

definition spawnWorker :: "'t hp_workers \<Rightarrow> 't hp_workers" where
  "spawnWorker p = p\<lparr>wcount := wcount p + 1, tworkers := tworkers p @ [Idle]\<rparr>"

text \<open>\<^verbatim>\<open>NewWorkerPool(ctx, minWorkers, maxWorkers, queueSize)\<close>, with \<open>n\<close> goroutines that may submit;
  \<^verbatim>\<open>make(chan)\<close> panics on a negative size.\<close>

definition NewHPWorkerPool :: "nat \<Rightarrow> int \<Rightarrow> int \<Rightarrow> int \<Rightarrow> 't hp_workers res" where
  "NewHPWorkerPool n minW maxW queueSize =
     (if queueSize < 0 then Panic MakeChanSize
      else Ok ((spawnWorker ^^ nat minW)
        \<lparr>tq = [], tq_cap = nat queueSize, tworkers = [], wcount = 0, tminWorkers = minW, tmaxWorkers = maxW,
         tdone = False, tactive = 0, subs = replicate n SIdle\<rparr>))"

definition adjust :: "'t hp_workers \<Rightarrow> 't hp_workers" where
  "adjust p =
     (let queueLen = length (tq p);
          currentWorkers = wcount p;
          p1 = (if usage_high queueLen (tq_cap p) \<and> currentWorkers < tmaxWorkers p
                then (spawnWorker ^^ nat (min (currentWorkers * 2) (tmaxWorkers p) - currentWorkers)) p
                else p)
      in if usage_low queueLen (tq_cap p) \<and> currentWorkers > tminWorkers p \<and> tactive p < currentWorkers div 2
         then p1\<lparr>tq := tq p1 @ replicate (min (nat (currentWorkers - tminWorkers p)) (tq_cap p - length (tq p1))) None\<rparr>
         else p1)"

text \<open>The moves, one event each; \<open>None\<close> when the move is not possible.\<close>

datatype 't hp_event =
    HCall nat 't
  | HSelectSend nat
  | HSelectDone nat
  | HSelectDefault nat
  | HSpawn nat
  | HBlockedSend nat
  | HBlockedDone nat
  | HWorkerDone nat
  | HWorkerTake nat
  | HWorkerFinish nat
  | HAdjust
  | HStop

definition set_sub :: "nat \<Rightarrow> 't submitter \<Rightarrow> 't hp_workers \<Rightarrow> 't hp_workers" where
  "set_sub i s p = p\<lparr>subs := (subs p)[i := s]\<rparr>"

definition has_space :: "'t hp_workers \<Rightarrow> bool" where
  "has_space p \<longleftrightarrow> length (tq p) < tq_cap p"

fun submit_move :: "'t hp_event \<Rightarrow> 't submitter \<Rightarrow> 't hp_workers \<Rightarrow> 't hp_workers option" where
  "submit_move (HCall i t) SIdle p = Some (if tdone p then p else set_sub i (SChecked t) p)"
| "submit_move (HSelectSend i) (SChecked t) p =
     (if has_space p then Some (set_sub i SIdle (p\<lparr>tq := tq p @ [Some t]\<rparr>)) else None)"
| "submit_move (HSelectDone i) (SChecked t) p = (if tdone p then Some (set_sub i SIdle p) else None)"
| "submit_move (HSelectDefault i) (SChecked t) p =
     (if has_space p \<or> tdone p then None
      else Some (set_sub i (if wcount p < tmaxWorkers p then SSpawn t else SBlock t) p))"
| "submit_move (HSpawn i) (SSpawn t) p = Some (set_sub i (SBlock t) (spawnWorker p))"
| "submit_move (HBlockedSend i) (SBlock t) p =
     (if has_space p then Some (set_sub i SIdle (p\<lparr>tq := tq p @ [Some t]\<rparr>)) else None)"
| "submit_move (HBlockedDone i) (SBlock t) p = (if tdone p then Some (set_sub i SIdle p) else None)"
| "submit_move e s p = None"

fun worker_move :: "'t hp_event \<Rightarrow> 't worker \<Rightarrow> 't hp_workers \<Rightarrow> 't hp_workers option" where
  "worker_move (HWorkerDone i) Idle p =
     (if tdone p then Some (p\<lparr>tworkers := (tworkers p)[i := Exited], wcount := wcount p - 1\<rparr>) else None)"
| "worker_move (HWorkerTake i) Idle p =
     (case tq p of
        [] \<Rightarrow> None
      | None # q \<Rightarrow> Some (p\<lparr>tq := q, tworkers := (tworkers p)[i := Exited], wcount := wcount p - 1\<rparr>)
      | Some t # q \<Rightarrow> Some (p\<lparr>tq := q, tworkers := (tworkers p)[i := Running t], tactive := tactive p + 1\<rparr>))"
| "worker_move (HWorkerFinish i) (Running t) p =
     Some (p\<lparr>tworkers := (tworkers p)[i := Idle], tactive := tactive p - 1\<rparr>)"
| "worker_move e w p = None"

fun event_sub :: "'t hp_event \<Rightarrow> nat option" where
  "event_sub (HCall i t) = Some i"
| "event_sub (HSelectSend i) = Some i"
| "event_sub (HSelectDone i) = Some i"
| "event_sub (HSelectDefault i) = Some i"
| "event_sub (HSpawn i) = Some i"
| "event_sub (HBlockedSend i) = Some i"
| "event_sub (HBlockedDone i) = Some i"
| "event_sub e = None"

fun event_worker :: "'t hp_event \<Rightarrow> nat option" where
  "event_worker (HWorkerDone i) = Some i"
| "event_worker (HWorkerTake i) = Some i"
| "event_worker (HWorkerFinish i) = Some i"
| "event_worker e = None"

definition hp_exec :: "'t hp_event \<Rightarrow> 't hp_workers \<Rightarrow> 't hp_workers option" where
  "hp_exec e p =
     (case e of
        HAdjust \<Rightarrow> if tdone p then None else Some (adjust p)
      | HStop \<Rightarrow> Some (p\<lparr>tdone := True\<rparr>)
      | _ \<Rightarrow>
        (case event_sub e of
           Some i \<Rightarrow> if i < length (subs p) then submit_move e (subs p ! i) p else None
         | None \<Rightarrow>
           (case event_worker e of
              Some i \<Rightarrow> if i < length (tworkers p) then worker_move e (tworkers p ! i) p else None
            | None \<Rightarrow> None)))"

fun hp_run :: "'t hp_event list \<Rightarrow> 't hp_workers \<Rightarrow> 't hp_workers option" where
  "hp_run [] p = Some p"
| "hp_run (e # es) p = (case hp_exec e p of None \<Rightarrow> None | Some q \<Rightarrow> hp_run es q)"

record hp_worker_stats =
  hp_ActiveWorkers :: int
  hp_TotalWorkers :: int
  hp_QueueLength :: int
  hp_QueueCapacity :: int

definition hp_Stats :: "'t hp_workers \<Rightarrow> hp_worker_stats" where
  "hp_Stats p = \<lparr>hp_ActiveWorkers = tactive p, hp_TotalWorkers = wcount p,
     hp_QueueLength = int (length (tq p)), hp_QueueCapacity = int (tq_cap p)\<rparr>"

subsection \<open>Invariant\<close>

fun is_live :: "'t worker \<Rightarrow> bool" where
  "is_live Exited = False"
| "is_live w = True"

fun is_spawning :: "'t submitter \<Rightarrow> bool" where
  "is_spawning (SSpawn t) = True"
| "is_spawning s = False"

definition hp_limit :: "'t hp_workers \<Rightarrow> int" where
  "hp_limit p = max (tminWorkers p) (tmaxWorkers p) + int (length (subs p))"

definition hp_inv :: "'t hp_workers \<Rightarrow> bool" where
  "hp_inv p \<longleftrightarrow>
     tactive p = int (length (filter is_running (tworkers p))) \<and>
     wcount p = int (length (filter is_live (tworkers p))) \<and>
     length (tq p) \<le> tq_cap p \<and>
     wcount p + int (length (filter is_spawning (subs p))) \<le> hp_limit p"

lemma spawnWorker_funpow:
  "(spawnWorker ^^ n) p = p\<lparr>wcount := wcount p + int n, tworkers := tworkers p @ replicate n Idle\<rparr>"
  by (induction n) (simp_all add: spawnWorker_def replicate_append_same)

lemma filter_live_replicate [simp]: "filter is_live (replicate n Idle) = replicate n Idle"
  by (induction n) simp_all

lemma filter_spawning_replicate [simp]: "filter is_spawning (replicate n SIdle) = []"
  by (induction n) simp_all

lemma hp_limit_simps [simp]:
  "hp_limit (set_sub i s p) = hp_limit p" "hp_limit (spawnWorker p) = hp_limit p"
  "hp_limit (tq_update f p) = hp_limit p" "hp_limit (tworkers_update g p) = hp_limit p"
  "hp_limit (wcount_update h p) = hp_limit p" "hp_limit (tactive_update h p) = hp_limit p"
  "hp_limit (tdone_update k p) = hp_limit p"
  by (simp_all add: hp_limit_def set_sub_def spawnWorker_def)

lemma hp_inv_new: "NewHPWorkerPool n a b c = Ok p \<Longrightarrow> 0 \<le> a \<Longrightarrow> hp_inv p"
  by (auto simp: NewHPWorkerPool_def spawnWorker_funpow hp_inv_def hp_limit_def split: if_splits)

lemma spawning_not_all:
  "i < length ss \<Longrightarrow> \<not> P (ss ! i) \<Longrightarrow> length (filter P ss) + 1 \<le> length ss"
  using length_filter_less [of "ss ! i" ss P] nth_mem by fastforce

lemma limit_room:
  assumes "i < length (subs p)" and "\<not> is_spawning (subs p ! i)" and "wcount p < tmaxWorkers p"
  shows "wcount p + (int (length (filter is_spawning (subs p))) + 1) \<le> hp_limit p"
  using spawning_not_all [OF assms(1), of is_spawning] assms(2,3) by (simp add: hp_limit_def)

lemma hp_inv_adjust:
  assumes "hp_inv p"
  shows "hp_inv (adjust p)"
proof -
  have "tmaxWorkers p + int (length (filter is_spawning (subs p))) \<le> hp_limit p"
    by (simp add: hp_limit_def max_def add_mono)
  with assms show ?thesis
    by (auto simp: adjust_def Let_def spawnWorker_funpow hp_inv_def min_def)
qed

lemma hp_inv_set_sub:
  assumes "hp_inv p" and "i < length (subs p)" and "is_spawning s \<longrightarrow> is_spawning (subs p ! i)"
  shows "hp_inv (set_sub i s p)"
  using assms by (simp add: hp_inv_def, simp add: set_sub_def length_filter_update of_bool_def split: if_splits)

lemma hp_inv_submit_move:
  assumes inv: "hp_inv p" and i: "i < length (subs p)" and "event_sub e = Some i"
    and "submit_move e (subs p ! i) p = Some p'"
  shows "hp_inv p'"
proof -
  have send: "hp_inv (set_sub i SIdle (p\<lparr>tq := tq p @ [Some t]\<rparr>))" if "has_space p" for t
    using that inv i by (intro hp_inv_set_sub) (simp_all add: hp_inv_def has_space_def)
  have idle: "hp_inv (set_sub i s p)" if "\<not> is_spawning s" for s
    using that inv i by (intro hp_inv_set_sub) simp_all
  have decide: "hp_inv (set_sub i (SSpawn t) p)" if "subs p ! i = SChecked t" "wcount p < tmaxWorkers p" for t
    using limit_room [OF i] that inv i
    by (simp add: hp_inv_def) (simp add: set_sub_def length_filter_update)
  have spawn: "hp_inv (set_sub i (SBlock t) (spawnWorker p))" if "subs p ! i = SSpawn t" for t
    using that inv i
    by (simp add: hp_inv_def) (simp add: set_sub_def spawnWorker_def length_filter_update)
  show ?thesis
    using assms(3,4) inv send idle decide spawn
    by (elim submit_move.elims) (auto split: if_splits)
qed

lemma hp_inv_worker_move:
  assumes inv: "hp_inv p" and i: "i < length (tworkers p)" and "event_worker e = Some i"
    and "worker_move e (tworkers p ! i) p = Some p'"
  shows "hp_inv p'"
proof -
  have "hp_inv (p\<lparr>tq := q, tworkers := (tworkers p)[i := w], wcount := wcount p + a, tactive := tactive p + b\<rparr>)"
    if "length q \<le> length (tq p)" "a = of_bool (is_live w) - of_bool (is_live (tworkers p ! i))"
      "b = of_bool (is_running w) - of_bool (is_running (tworkers p ! i))" "a \<le> 0" for q w a b
    using that inv i by (simp add: hp_inv_def length_filter_update)
  note upd = this [where q = "tq p" and w = Exited and a = "-1" and b = 0]
    this [where q = "tl (tq p)" and w = Exited and a = "-1" and b = 0]
    this [where q = "tl (tq p)" and w = "Running t" and a = 0 and b = 1 for t]
    this [where q = "tq p" and w = Idle and a = 0 and b = "-1"]
  show ?thesis
    using assms(3,4) upd
    by (elim worker_move.elims) (auto split: if_splits list.splits option.splits)
qed

lemma hp_exec_sub:
  "event_sub e = Some i \<Longrightarrow> hp_exec e p = (if i < length (subs p) then submit_move e (subs p ! i) p else None)"
  by (cases e) (simp_all add: hp_exec_def)

lemma hp_exec_worker:
  "event_worker e = Some i \<Longrightarrow>
    hp_exec e p = (if i < length (tworkers p) then worker_move e (tworkers p ! i) p else None)"
  by (cases e) (simp_all add: hp_exec_def)

lemma hp_event_cases:
  obtains (sub) i where "event_sub e = Some i" | (worker) i where "event_worker e = Some i"
  | (adjust) "e = HAdjust" | (stop) "e = HStop"
  by (cases e) simp_all

lemma hp_inv_exec:
  assumes "hp_exec e p = Some p'" and "hp_inv p"
  shows "hp_inv p'"
proof (cases e rule: hp_event_cases)
  case (sub i)
  with assms hp_inv_submit_move [OF assms(2) _ sub, of p'] show ?thesis
    by (simp add: hp_exec_sub split: if_splits)
next
  case (worker i)
  with assms hp_inv_worker_move [OF assms(2) _ worker, of p'] show ?thesis
    by (simp add: hp_exec_worker split: if_splits)
next
  case adjust
  with assms hp_inv_adjust [of p] show ?thesis
    by (auto simp: hp_exec_def split: if_splits)
next
  case stop
  with assms show ?thesis by (auto simp: hp_exec_def hp_inv_def)
qed

lemma hp_inv_run: "hp_run es p = Some p' \<Longrightarrow> hp_inv p \<Longrightarrow> hp_inv p'"
  by (induction es arbitrary: p) (auto split: option.splits dest: hp_inv_exec)

section \<open>Properties\<close>



text \<open>C34. \<^verbatim>\<open>Stop\<close> of the core pool returns once the running tasks do: after it, as long as some worker has
  not returned some worker can move, and every move of a worker shrinks a measure, so at most
  \<open>drain p\<close> moves remain and none of them can undo the stop.\<close>

theorem core_Stop_terminates:
  fixes p :: "'t core_pool"
  assumes "Stop p = (Ok (), p')"
  shows "cdone p' \<and> cq_closed p'
    \<and> (\<forall>e (q :: 't core_pool) q'. worker_step q e q' \<longrightarrow> drain q' < drain q \<and> cdone q' = cdone q)
    \<and> (\<forall>q :: 't core_pool. cdone q \<longrightarrow> (\<forall>w \<in> set (cworkers q). w = Exited) \<or> (\<exists>e q'. worker_step q e q'))"
proof -
  have stuck: "\<exists>e q'. worker_step q e q'" if q: "cdone q" and w: "w \<in> set (cworkers q)" "w \<noteq> Exited"
    for q :: "'t core_pool" and w
  proof -
    obtain i where i: "i < length (cworkers q)" "cworkers q ! i = w"
      using w(1) by (auto simp: in_set_conv_nth)
    show ?thesis
    proof (cases w)
      case Idle
      with i q worker_step.exit_done [of i q] show ?thesis by blast
    next
      case (Running t)
      with i worker_step.finish [of i q t] show ?thesis by blast
    qed (use w in simp)
  qed
  have keeps: "cdone q' = cdone q" if "worker_step q e q'" for q q' :: "'t core_pool" and e
    using that by cases simp_all
  show ?thesis
  proof (intro conjI allI impI)
    show "cdone p'" and "cq_closed p'"
      using assms by (auto simp: Stop_def Let_def split: if_splits)
    show "drain q' < drain q" and "cdone q' = cdone q" if "worker_step q e q'" for e and q q' :: "'t core_pool"
      using that drain_worker keeps by blast+
    show "(\<forall>w \<in> set (cworkers q). w = Exited) \<or> (\<exists>e q'. worker_step q e q')" if "cdone q" for q :: "'t core_pool"
      using stuck [OF that] by blast
  qed
qed

theorem core_Stop_terminates_witness:
  "\<exists>p'. Stop (NewWorkerPool 1 2 4 :: nat core_pool) = (Ok (), p') \<and> cdone p'"
proof -
  obtain p' where "Stop (NewWorkerPool 1 2 4 :: nat core_pool) = (Ok (), p')"
    by (simp add: Stop_def NewWorkerPool_def addWorker_funpow)
  with core_Stop_terminates [of "NewWorkerPool 1 2 4 :: nat core_pool" p'] show ?thesis by blast
qed

text \<open>\<^verbatim>\<open>Stop\<close> closes the queue that \<^verbatim>\<open>Submit\<close> sends on. A \<^verbatim>\<open>Submit\<close> after (or blocked across) a
  \<^verbatim>\<open>Stop\<close> therefore has two ready cases: it may return the context's error, and it may as well panic with
  a send on a closed channel; and a second \<^verbatim>\<open>Stop\<close> always panics.\<close>

theorem core_Submit_after_Stop:
  assumes "Stop p = (Ok (), p')"
  shows "(\<lambda>c. fst (Submit c t p')) ` set (submit_ready p') = {Err ContextCanceled, Panic SendOnClosedChannel}
    \<and> fst (Stop p') = Panic CloseOfClosedChannel"
  using assms by (auto simp: Stop_def Let_def submit_ready_def split: if_splits)

theorem core_Submit_after_Stop_witness:
  "\<exists>p' :: nat core_pool. \<exists>c \<in> set (submit_ready p'). fst (Submit c 0 p') = Panic SendOnClosedChannel"
proof -
  obtain p' where "Stop (NewWorkerPool 1 2 4 :: nat core_pool) = (Ok (), p')"
    by (simp add: Stop_def NewWorkerPool_def addWorker_funpow)
  from core_Submit_after_Stop [OF this, of 0]
  have "Panic SendOnClosedChannel \<in> (\<lambda>c. fst (Submit c 0 p')) ` set (submit_ready p')"
    by simp
  then obtain c where c: "Panic SendOnClosedChannel = fst (Submit c 0 p')" "c \<in> set (submit_ready p')"
    by (rule imageE)
  show ?thesis
    by (rule exI [of _ p'], rule bexI [OF _ c(2)], rule c(1) [symmetric])
qed

text \<open>In every run of the high-performance server's pool the two counters are the numbers of running and
  of live workers, the queue stays within its capacity, and the workers exceed \<^verbatim>\<open>maxWorkers\<close> by at
  most one per goroutine that submits: the check of the count and the spawn are not one step.\<close>

theorem hp_pool_run:
  assumes "NewHPWorkerPool n a b c = Ok p" and "0 \<le> a" and "hp_run es p = Some q"
  shows "tactive q = int (length (filter is_running (tworkers q)))
    \<and> wcount q = int (length (filter is_live (tworkers q)))
    \<and> length (tq q) \<le> tq_cap q \<and> wcount q \<le> max (tminWorkers q) (tmaxWorkers q) + int (length (subs q))"
  using hp_inv_run [OF assms(3) hp_inv_new [OF assms(1,2)]] by (simp add: hp_inv_def hp_limit_def)

theorem hp_pool_run_witness:
  "\<exists>p q. NewHPWorkerPool 1 1 2 6 = Ok p \<and> hp_run [HCall 0 (9::nat), HSelectSend 0, HWorkerTake 0] p = Some q \<and> tactive q = 1
     \<and> wcount q \<le> max (tminWorkers q) (tmaxWorkers q) + int (length (subs q))"
proof -
  obtain p :: "nat hp_workers" where p: "NewHPWorkerPool 1 1 2 6 = Ok p"
    by (simp add: NewHPWorkerPool_def)
  obtain q where q: "hp_run [HCall 0 9, HSelectSend 0, HWorkerTake 0] p = Some q" "tactive q = 1"
    using p by (auto simp: NewHPWorkerPool_def spawnWorker_def hp_exec_def set_sub_def has_space_def)
  with p hp_pool_run [OF p _ q(1)] show ?thesis by auto
qed

lemma usage_facts:
  "usage_high 5 6" "\<not> usage_high 0 6" "\<not> usage_high (Suc 0) 6"
  "usage_low 0 6" "usage_low (Suc 0) 6" "\<not> usage_low 5 6"
proof -
  show "usage_high 5 6" "\<not> usage_high 0 6" "\<not> usage_high (Suc 0) 6"
    by (simp_all add: usage_high_iff)
  have u: "queue_usage len 6 = f64 (of_nat len / 6)" if "len \<le> 6" for len
    using that queue_usage_exact [of len 6] by simp
  have "f64 (1 / 6) < f64 (2 / 10)" "f64 (2 / 10) < f64 (5 / 6)" "0 < f64 (2 / 10)"
    using f64_less_of_gap [of "1 / 6" "2 / 10"] f64_less_of_gap [of "2 / 10" "5 / 6"]
      fl.rnd_nonneg [of "1 / 6"] by simp_all
  then show "usage_low 0 6" "usage_low (Suc 0) 6" "\<not> usage_low 5 6"
    by (simp_all add: usage_low_def u)
qed

definition starving_run :: "nat hp_event list" where
  "starving_run =
     concat (replicate 5 [HCall 0 9, HSelectSend 0]) @ [HAdjust] @
     concat (replicate 5 [HWorkerTake 0, HWorkerFinish 0]) @ [HAdjust, HAdjust, HWorkerTake 0, HWorkerTake 1]"

lemma adjust_no_workers: "wcount p = 0 \<Longrightarrow> 0 \<le> tminWorkers p \<Longrightarrow> adjust p = p"
  by (simp add: adjust_def Let_def)

text \<open>C36. The pool can lose all its workers: the nil tasks by which one \<^verbatim>\<open>adjust\<close> asks for fewer workers are
  not accounted for by the next, so two calls before a worker takes the first nil remove too many. A run
  from a fresh pool with \<^verbatim>\<open>minWorkers\<close> 1 ends with no worker although nobody stopped it, and from
  then on \<^verbatim>\<open>adjust\<close> never adds one (it doubles zero).\<close>

theorem hp_pool_can_starve:
  "\<exists>p q. NewHPWorkerPool 1 1 2 6 = Ok p \<and> hp_run starving_run p = Some q
     \<and> \<not> tdone q \<and> tminWorkers q = 1 \<and> wcount q = 0 \<and> filter is_live (tworkers q) = [] \<and> adjust q = q"
proof -
  obtain p :: "nat hp_workers" where p: "NewHPWorkerPool 1 1 2 6 = Ok p"
    by (simp add: NewHPWorkerPool_def)
  have "\<exists>q. hp_run starving_run p = Some q \<and> \<not> tdone q \<and> tminWorkers q = 1 \<and> wcount q = 0
      \<and> filter is_live (tworkers q) = []"
    using p usage_facts by (auto simp: NewHPWorkerPool_def spawnWorker_def hp_exec_def set_sub_def
        has_space_def starving_run_def adjust_def numeral_eq_Suc Let_def)
  then obtain q where "hp_run starving_run p = Some q" "\<not> tdone q" "tminWorkers q = 1" "wcount q = 0"
      "filter is_live (tworkers q) = []"
    by blast
  with p adjust_no_workers [of q] show ?thesis by auto
qed

end
