(* ===== verification/Logger.thy ===== *)
theory Logger
  imports CoreTypes
begin

text \<open>
  \<^verbatim>\<open>logger/logger.go\<close>: levels, fields, \<^verbatim>\<open>With\<close>, and the line a call writes. The output file is a list of
  lines. How \<^verbatim>\<open>%v\<close> prints a field's value and how the clock is formatted are standard library code
  that no theorem depends on; they are the parameters \<open>fmt\<close> and \<open>clock\<close>.
\<close>

type_synonym Level = int

definition DebugLevel :: Level where "DebugLevel = 0"
definition InfoLevel :: Level where "InfoLevel = 1"
definition WarnLevel :: Level where "WarnLevel = 2"
definition ErrorLevel :: Level where "ErrorLevel = 3"
definition FatalLevel :: Level where "FatalLevel = 4"

lemmas level_defs = DebugLevel_def InfoLevel_def WarnLevel_def ErrorLevel_def FatalLevel_def

record LogField =
  Key :: gostring
  Val :: go_value

record Logger =
  level :: Level
  log_fields :: "LogField list"

definition NewLogger :: "Level \<Rightarrow> Logger" where
  "NewLogger lvl = \<lparr>level = lvl, log_fields = []\<rparr>"

definition With :: "Logger \<Rightarrow> LogField list \<Rightarrow> Logger" where
  "With l fs = \<lparr>level = level l, log_fields = log_fields l @ fs\<rparr>"

definition SetLevel :: "Level \<Rightarrow> Logger \<Rightarrow> Logger" where
  "SetLevel lvl l = l\<lparr>level := lvl\<rparr>"

section \<open>The line written\<close>

definition field_text :: "(go_value \<Rightarrow> gostring) \<Rightarrow> LogField \<Rightarrow> gostring" where
  "field_text fmt f = Key f @ go_str ''='' @ fmt (Val f)"

fun join_fields :: "(go_value \<Rightarrow> gostring) \<Rightarrow> LogField list \<Rightarrow> gostring" where
  "join_fields fmt [] = []"
| "join_fields fmt [f] = field_text fmt f"
| "join_fields fmt (f # g # fs) = field_text fmt f @ go_str '' '' @ join_fields fmt (g # fs)"

definition log_line ::
  "(go_value \<Rightarrow> gostring) \<Rightarrow> gostring \<Rightarrow> gostring \<Rightarrow> gostring \<Rightarrow> LogField list \<Rightarrow> Logger \<Rightarrow> gostring" where
  "log_line fmt clock lvl msg fs l =
     (let logMsg = clock @ go_str '' ['' @ lvl @ go_str ''] '' @ msg;
          allFields = log_fields l @ fs;
          logMsg1 = (if allFields \<noteq> [] then logMsg @ go_str '' '' @ join_fields fmt allFields else logMsg)
      in logMsg1 @ [10])"

section \<open>The calls: the lines written, and whether the process exits\<close>

type_synonym log_call =
  "(go_value \<Rightarrow> gostring) \<Rightarrow> gostring \<Rightarrow> gostring \<Rightarrow> LogField list \<Rightarrow> Logger \<Rightarrow> gostring list \<times> bool"

definition log_Debug :: log_call where
  "log_Debug fmt clock msg fs l =
     ((if level l \<le> DebugLevel then [log_line fmt clock (go_str ''DEBUG'') msg fs l] else []), False)"

definition log_Info :: log_call where
  "log_Info fmt clock msg fs l =
     ((if level l \<le> InfoLevel then [log_line fmt clock (go_str ''INFO'') msg fs l] else []), False)"

definition log_Warn :: log_call where
  "log_Warn fmt clock msg fs l =
     ((if level l \<le> WarnLevel then [log_line fmt clock (go_str ''WARN'') msg fs l] else []), False)"

definition log_Error :: log_call where
  "log_Error fmt clock msg fs l =
     ((if level l \<le> ErrorLevel then [log_line fmt clock (go_str ''ERROR'') msg fs l] else []), False)"

definition log_Fatal :: log_call where
  "log_Fatal fmt clock msg fs l =
     ((if level l \<le> FatalLevel then [log_line fmt clock (go_str ''FATAL'') msg fs l] else []), True)"

lemmas log_calls = log_Debug_def log_Info_def log_Warn_def log_Error_def log_Fatal_def

lemma log_line_With: "log_line fmt clock lvl msg fs (With l extra) = log_line fmt clock lvl msg (extra @ fs) l"
  by (simp add: log_line_def With_def)

section \<open>Properties\<close>

text \<open>Each logging call writes one line exactly when the logger's level admits it, only \<^verbatim>\<open>Fatal\<close> ends the
  process (and does so even when its line is filtered out); a logger made by \<^verbatim>\<open>With\<close> has its parent's
  level and writes what the parent writes with the added fields in front of the call's.\<close>

theorem logger_levels_and_fields:
  "length (fst (log_Debug fmt clock msg fs l)) = (if level l \<le> 0 then 1 else 0)
   \<and> length (fst (log_Info fmt clock msg fs l)) = (if level l \<le> 1 then 1 else 0)
   \<and> length (fst (log_Warn fmt clock msg fs l)) = (if level l \<le> 2 then 1 else 0)
   \<and> length (fst (log_Error fmt clock msg fs l)) = (if level l \<le> 3 then 1 else 0)
   \<and> length (fst (log_Fatal fmt clock msg fs l)) = (if level l \<le> 4 then 1 else 0)
   \<and> snd (log_Fatal fmt clock msg fs l) \<and> \<not> snd (log_Error fmt clock msg fs l)
   \<and> log_Info fmt clock msg fs (With l extra) = log_Info fmt clock msg (extra @ fs) l
   \<and> log_Error fmt clock msg fs (With l extra) = log_Error fmt clock msg (extra @ fs) l
   \<and> log_Info fmt clock msg fs (With (With l extra) extra') = log_Info fmt clock msg fs (With l (extra @ extra'))
   \<and> log_Info fmt clock msg fs (With (SetLevel n l) extra) = log_Info fmt clock msg fs (SetLevel n (With l extra))"
  by (simp add: log_calls level_defs log_line_With) (simp add: With_def SetLevel_def log_line_def)

end
