(* ===== verification/Middleware.thy ===== *)
theory Middleware
  imports MemoryStorage Logger ProtocolTypes "HOL-Library.Signed_Division"
begin

text \<open>
  The middleware of \<^verbatim>\<open>middleware/\<close>. A handler is a function of the context, the connection, the message
  and the world, that returns its outcome and the new world; a middleware maps handlers to
  handlers. The world is a parameter: what a middleware uses of it (the attributes and device ID of
  connections, the clock, the log) are the functions of the record \<open>conn_iface\<close> and of \<open>log_env\<close>, and
  the laws of the connection attributes are the locale \<open>conn_attributes\<close>, which the two servers'
  worlds interpret.
\<close>

section \<open>Handlers and middleware\<close>

record go_context =
  ctx_values :: context_values
  ctx_deadline :: "go_time option"

definition Background :: go_context where
  "Background = \<lparr>ctx_values = [], ctx_deadline = None\<rparr>"

type_synonym 'w handler = "go_context \<Rightarrow> nat \<Rightarrow> Message \<Rightarrow> 'w \<Rightarrow> unit res \<times> 'w"
type_synonym 'w middleware = "'w handler \<Rightarrow> 'w handler"

record 'w conn_iface =
  conn_Get :: "nat \<Rightarrow> gostring \<Rightarrow> 'w \<Rightarrow> go_value option"
  conn_Set :: "nat \<Rightarrow> gostring \<Rightarrow> go_value \<Rightarrow> 'w \<Rightarrow> 'w"
  conn_DeviceID :: "nat \<Rightarrow> 'w \<Rightarrow> gostring"
  conn_RemoteAddr :: "nat \<Rightarrow> 'w \<Rightarrow> gostring"

text \<open>
  The loop of the servers, \<^verbatim>\<open>for i := len(s.middleware) - 1; i >= 0; i--\<close>: the middleware registered
  last is applied first.
\<close>

definition apply_middleware :: "'w middleware list \<Rightarrow> 'w handler \<Rightarrow> 'w handler" where
  "apply_middleware ms handler = foldl (\<lambda>h m. m h) handler (rev ms)"

section \<open>\<^verbatim>\<open>auth.go\<close>\<close>

definition authenticated_key :: gostring where
  "authenticated_key = go_str ''authenticated''"

definition SetAuthenticated :: "'w conn_iface \<Rightarrow> nat \<Rightarrow> 'w \<Rightarrow> 'w" where
  "SetAuthenticated ops conn w = conn_Set ops conn authenticated_key (VBool True) w"

definition ClearAuthenticated :: "'w conn_iface \<Rightarrow> nat \<Rightarrow> 'w \<Rightarrow> 'w" where
  "ClearAuthenticated ops conn w = conn_Set ops conn authenticated_key (VBool False) w"

text \<open>
  \<^verbatim>\<open>authenticated, exists := conn.Get("authenticated"); !exists || !authenticated.(bool)\<close>: the type
  assertion panics for an attribute that is not a \<^verbatim>\<open>bool\<close>.
\<close>

definition not_authenticated :: "'w conn_iface \<Rightarrow> nat \<Rightarrow> 'w \<Rightarrow> bool res" where
  "not_authenticated ops conn w =
     (case conn_Get ops conn authenticated_key w of
        None \<Rightarrow> Ok True
      | Some (VBool b) \<Rightarrow> Ok (\<not> b)
      | Some _ \<Rightarrow> Panic TypeAssertionFailed)"

text \<open>\<^verbatim>\<open>msg.Header.MsgID\<close>\<close>

definition msg_id :: "Message \<Rightarrow> uint16 res" where
  "msg_id msg = (case Header msg of None \<Rightarrow> Panic NilDereference | Some h \<Rightarrow> Ok (MsgID h))"

text \<open>The sequencing of a call that only reads with the rest of the handler.\<close>

definition reading :: "'a res \<Rightarrow> ('a \<Rightarrow> 'w \<Rightarrow> 'b res \<times> 'w) \<Rightarrow> 'w \<Rightarrow> 'b res \<times> 'w" where
  "reading r k w = (case r of Ok x \<Rightarrow> k x w | Err e \<Rightarrow> (Err e, w) | Panic p \<Rightarrow> (Panic p, w))"

definition Auth :: "'w conn_iface \<Rightarrow> 'w middleware" where
  "Auth ops next ctx conn msg w =
     reading (msg_id msg) (\<lambda>mid w.
       if mid = MsgIDTerminalRegister then next ctx conn msg w
       else if mid = MsgIDTerminalAuth then next ctx conn msg w
       else
         reading (not_authenticated ops conn w) (\<lambda>refused w.
           if refused then (Err (AuthError (conn_DeviceID ops conn w) NotAuthenticated), w)
           else next ctx conn msg w) w) w"

definition AuthWithCode :: "'w conn_iface \<Rightarrow> (gostring \<Rightarrow> gostring \<Rightarrow> bool) \<Rightarrow> 'w middleware" where
  "AuthWithCode ops validateFunc next ctx conn msg w =
     reading (msg_id msg) (\<lambda>mid w.
       if mid = MsgIDTerminalRegister then next ctx conn msg w
       else if mid = MsgIDTerminalAuth then
         (case next ctx conn msg w of
            (Ok _, w') \<Rightarrow> (Ok (), SetAuthenticated ops conn w')
          | (r, w') \<Rightarrow> (r, w'))
       else
         reading (not_authenticated ops conn w) (\<lambda>refused w.
           if refused then (Err (AuthError (conn_DeviceID ops conn w) NotAuthenticated), w)
           else next ctx conn msg w) w) w"

definition AuthWithStorage ::
  "'w conn_iface \<Rightarrow> (gostring \<Rightarrow> 'w \<Rightarrow> TerminalRegister res) \<Rightarrow> 'w middleware" where
  "AuthWithStorage ops get_device next ctx conn msg w =
     reading (msg_id msg) (\<lambda>mid w.
       if mid = MsgIDTerminalRegister then next ctx conn msg w
       else if mid = MsgIDTerminalAuth then next ctx conn msg w
       else
         reading (not_authenticated ops conn w) (\<lambda>refused w.
           if refused then
             (let deviceID = conn_DeviceID ops conn w
              in if deviceID = [] then (Err DeviceIDEmpty, w)
                 else
                   (case get_device deviceID w of
                      Ok _ \<Rightarrow> next ctx conn msg (SetAuthenticated ops conn w)
                    | Err _ \<Rightarrow> (Err (AuthError deviceID NotRegistered), w)
                    | Panic p \<Rightarrow> (Panic p, w)))
           else next ctx conn msg w) w) w"

section \<open>\<^verbatim>\<open>logging.go\<close> and \<^verbatim>\<open>recovery.go\<close>\<close>

record 'w log_env =
  le_fmt :: "go_value \<Rightarrow> gostring"
  le_clock :: "'w \<Rightarrow> gostring"
  le_now :: "'w \<Rightarrow> go_time"
  le_stack :: "'w \<Rightarrow> gostring"
  le_emit :: "gostring list \<Rightarrow> 'w \<Rightarrow> 'w"

definition log_to :: "'w log_env \<Rightarrow> log_call \<Rightarrow> gostring \<Rightarrow> LogField list \<Rightarrow> Logger \<Rightarrow> 'w \<Rightarrow> 'w" where
  "log_to env call msg fs l w = le_emit env (fst (call (le_fmt env) (le_clock env w) msg fs l)) w"

definition log_field :: "string \<Rightarrow> go_value \<Rightarrow> LogField" where
  "log_field k v = \<lparr>Key = go_str k, Val = v\<rparr>"

text \<open>The messages, in UTF-8.\<close>

definition text_request_start :: gostring where
  "text_request_start = [0xE8, 0xAF, 0xB7, 0xE6, 0xB1, 0x82, 0xE5, 0xBC, 0x80, 0xE5, 0xA7, 0x8B]"

definition text_request_failed :: gostring where
  "text_request_failed = [0xE8, 0xAF, 0xB7, 0xE6, 0xB1, 0x82, 0xE5, 0xA4, 0xB1, 0xE8, 0xB4, 0xA5]"

definition text_request_done :: gostring where
  "text_request_done = [0xE8, 0xAF, 0xB7, 0xE6, 0xB1, 0x82, 0xE5, 0xAE, 0x8C, 0xE6, 0x88, 0x90]"

definition text_panic_recovered :: gostring where
  "text_panic_recovered = go_str ''Panic'' @ [0xE6, 0x81, 0xA2, 0xE5, 0xA4, 0x8D]"

definition Logging :: "'w log_env \<Rightarrow> 'w conn_iface \<Rightarrow> Logger \<Rightarrow> 'w middleware" where
  "Logging env ops lg next ctx conn msg w =
     reading (msg_id msg) (\<lambda>mid w.
       let start = le_now env w;
           w1 = log_to env log_Info text_request_start
                  [log_field ''device_id'' (VString (conn_DeviceID ops conn w)),
                   log_field ''msg_id'' (VInt (uint mid)),
                   log_field ''remote_addr'' (VString (conn_RemoteAddr ops conn w))] lg w
       in case next ctx conn msg w1 of
            (Panic p, w2) \<Rightarrow> (Panic p, w2)
          | (Err e, w2) \<Rightarrow>
              (Err e, log_to env log_Error text_request_failed
                        [log_field ''device_id'' (VString (conn_DeviceID ops conn w2)),
                         log_field ''msg_id'' (VInt (uint mid)),
                         log_field ''duration'' (VDuration (le_now env w2 - start)),
                         log_field ''error'' (VError e)] lg w2)
          | (Ok _, w2) \<Rightarrow>
              (Ok (), log_to env log_Info text_request_done
                        [log_field ''device_id'' (VString (conn_DeviceID ops conn w2)),
                         log_field ''msg_id'' (VInt (uint mid)),
                         log_field ''duration'' (VDuration (le_now env w2 - start))] lg w2)) w"

text \<open>
  The deferred function runs after a panic of the goroutine itself; it dereferences the header again,
  and a panic in it replaces the first.
\<close>

definition Recovery :: "'w log_env \<Rightarrow> 'w conn_iface \<Rightarrow> Logger \<Rightarrow> 'w middleware" where
  "Recovery env ops lg next ctx conn msg w =
     (case next ctx conn msg w of
        (Panic (ProcessCrash p), w1) \<Rightarrow> (Panic (ProcessCrash p), w1)
      | (Panic p, w1) \<Rightarrow>
          reading (msg_id msg) (\<lambda>mid w1.
            (Err (PanicError p),
             log_to env log_Error text_panic_recovered
               [log_field ''device_id'' (VString (conn_DeviceID ops conn w1)),
                log_field ''msg_id'' (VInt (uint mid)),
                log_field ''panic'' (VString (le_stack env w1))] lg w1)) w1
      | (r, w1) \<Rightarrow> (r, w1))"

section \<open>\<^verbatim>\<open>timeout.go\<close>\<close>

text \<open>
  The handler runs in a goroutine of its own. \<open>in_time\<close> is the outcome of the race with the timer: when
  the handler's result arrives first it is returned; otherwise the goroutine goes on by itself, which is
  \<open>spawn\<close>. A panic in that goroutine has no recovering frame below it and ends the process.
\<close>

fun uncaught :: "go_panic \<Rightarrow> go_panic" where
  "uncaught (ProcessCrash p) = ProcessCrash p"
| "uncaught p = ProcessCrash p"

definition with_timeout :: "go_time \<Rightarrow> go_duration \<Rightarrow> go_context \<Rightarrow> go_context" where
  "with_timeout now timeout ctx =
     ctx\<lparr>ctx_deadline := Some (case ctx_deadline ctx of None \<Rightarrow> now + timeout | Some d \<Rightarrow> min d (now + timeout))\<rparr>"

definition Timeout ::
  "('w \<Rightarrow> go_time) \<Rightarrow> (go_context \<Rightarrow> nat \<Rightarrow> Message \<Rightarrow> 'w \<Rightarrow> bool) \<Rightarrow> (('w \<Rightarrow> unit res \<times> 'w) \<Rightarrow> 'w \<Rightarrow> 'w)
   \<Rightarrow> go_duration \<Rightarrow> 'w middleware" where
  "Timeout now in_time spawn timeout next ctx conn msg w =
     (let ctx1 = with_timeout (now w) timeout ctx
      in if in_time ctx1 conn msg w
         then
           (case next ctx1 conn msg w of
              (Panic p, w1) \<Rightarrow> (Panic (uncaught p), w1)
            | (r, w1) \<Rightarrow> (r, w1))
         else (Err (TimeoutError timeout), spawn (next ctx1 conn msg) w))"

section \<open>\<^verbatim>\<open>ratelimit.go\<close>\<close>

record TokenBucket =
  tb_rate :: int
  tb_burst :: int
  tb_tokens :: float64
  tb_lastTime :: go_time

definition NewTokenBucket :: "int \<Rightarrow> int \<Rightarrow> go_time \<Rightarrow> TokenBucket" where
  "NewTokenBucket rate burst now =
     \<lparr>tb_rate = rate, tb_burst = burst, tb_tokens = f64_of_int burst, tb_lastTime = now\<rparr>"

text \<open>\<^verbatim>\<open>Time.Sub\<close> saturates at the bounds of a 64-bit duration; \<^verbatim>\<open>Duration.Seconds\<close> adds whole seconds and
  the fraction.\<close>

definition time_Sub :: "go_time \<Rightarrow> go_time \<Rightarrow> go_duration" where
  "time_Sub t u = max (- (2 ^ 63)) (min (2 ^ 63 - 1) (t - u))"

definition duration_Seconds :: "go_duration \<Rightarrow> float64" where
  "duration_Seconds d =
     f64_add (f64_of_int (d sdiv 1000000000)) (f64_div (f64_of_int (d smod 1000000000)) 1000000000)"

definition refill :: "go_time \<Rightarrow> TokenBucket \<Rightarrow> float64" where
  "refill now tb =
     (let elapsed = time_Sub now (tb_lastTime tb);
          tokens = f64_add (tb_tokens tb) (f64_mul (duration_Seconds elapsed) (f64_of_int (tb_rate tb)))
      in if tokens > f64_of_int (tb_burst tb) then f64_of_int (tb_burst tb) else tokens)"

definition Allow :: "go_time \<Rightarrow> TokenBucket \<Rightarrow> bool \<times> TokenBucket" where
  "Allow now tb =
     (let tokens = refill now tb
      in if tokens < 1 then (False, tb\<lparr>tb_lastTime := now, tb_tokens := tokens\<rparr>)
         else (True, tb\<lparr>tb_lastTime := now, tb_tokens := f64_sub tokens 1\<rparr>))"

text \<open>The limiter is created when the middleware is; every handler it wraps shares it.\<close>

definition RateLimit ::
  "('w \<Rightarrow> go_time) \<Rightarrow> ('w \<Rightarrow> TokenBucket) \<Rightarrow> (TokenBucket \<Rightarrow> 'w \<Rightarrow> 'w) \<Rightarrow> 'w middleware" where
  "RateLimit now limiter set_limiter next ctx conn msg w =
     (case Allow (now w) (limiter w) of
        (allowed, tb) \<Rightarrow>
          if \<not> allowed then (Err RateLimitError, set_limiter tb w)
          else next ctx conn msg (set_limiter tb w))"

fun allow_run :: "go_time list \<Rightarrow> TokenBucket \<Rightarrow> bool list \<times> TokenBucket" where
  "allow_run [] tb = ([], tb)"
| "allow_run (t # ts) tb =
     (case Allow t tb of (a, tb1) \<Rightarrow> (case allow_run ts tb1 of (as, tb2) \<Rightarrow> (a # as, tb2)))"

subsection \<open>The bucket's invariant\<close>

definition bucket_ok :: "TokenBucket \<Rightarrow> bool" where
  "bucket_ok tb \<longleftrightarrow>
     0 \<le> tb_rate tb \<and> tb_rate tb \<le> 2 ^ 53 \<and> 0 \<le> tb_burst tb \<and> tb_burst tb \<le> 2 ^ 53 \<and>
     0 \<le> tb_tokens tb \<and> tb_tokens tb \<le> of_int (tb_burst tb)"

lemma f64_of_int_small [simp]: "0 \<le> n \<Longrightarrow> n \<le> 2 ^ 53 \<Longrightarrow> f64_of_int n = of_int n"
  unfolding f64_of_int_def by (rule fl.rnd_of_int) simp

lemma sdiv_smod_nonneg:
  assumes "0 \<le> (d::int)"
  shows "d sdiv 1000000000 = d div 1000000000" and "d smod 1000000000 = d mod 1000000000"
  using assms by (simp_all add: signed_divide_int_def signed_modulo_int_def modulo_int_def sgn_if minus_div_mult_eq_mod [symmetric] split: if_splits)

lemma duration_Seconds_nonneg: "0 \<le> d \<Longrightarrow> 0 \<le> duration_Seconds d"
  unfolding duration_Seconds_def f64_add_def f64_div_def f64_of_int_def
  by (intro fl.rnd_nonneg add_nonneg_nonneg divide_nonneg_nonneg) (simp_all add: sdiv_smod_nonneg pos_imp_zdiv_nonneg_iff)

lemma duration_Seconds_whole: "0 \<le> s \<Longrightarrow> s \<le> 2 ^ 53 \<Longrightarrow> duration_Seconds (s * 1000000000) = of_int s"
  by (simp add: duration_Seconds_def sdiv_smod_nonneg f64_add_def f64_div_def f64_of_int_def fl.rnd_of_int)

lemma time_Sub_nonneg: "u \<le> t \<Longrightarrow> 0 \<le> time_Sub t u"
  by (simp add: time_Sub_def)

lemma refill_bounds:
  assumes ok: "bucket_ok tb" and "tb_lastTime tb \<le> now"
  shows "0 \<le> refill now tb" and "refill now tb \<le> of_int (tb_burst tb)"
proof -
  let ?inc = "f64_mul (duration_Seconds (time_Sub now (tb_lastTime tb))) (f64_of_int (tb_rate tb))"
  have inc: "0 \<le> ?inc"
    unfolding f64_mul_def using assms
    by (intro fl.rnd_nonneg mult_nonneg_nonneg duration_Seconds_nonneg time_Sub_nonneg)
      (simp_all add: bucket_ok_def)
  then have "0 \<le> f64_add (tb_tokens tb) ?inc"
    unfolding f64_add_def using ok by (intro fl.rnd_nonneg) (simp add: bucket_ok_def)
  with ok show "0 \<le> refill now tb" and "refill now tb \<le> of_int (tb_burst tb)"
    by (simp_all add: refill_def Let_def bucket_ok_def)
qed

lemma Allow_ok:
  assumes ok: "bucket_ok tb" and "tb_lastTime tb \<le> now"
  shows "bucket_ok (snd (Allow now tb))"
proof -
  note bounds = refill_bounds [OF assms]
  have "f64_sub (refill now tb) 1 \<le> of_int (tb_burst tb)"
    unfolding f64_sub_def using bounds ok by (intro fl.rnd_le_int) (auto simp: bucket_ok_def)
  moreover have "0 \<le> f64_sub (refill now tb) 1" if "\<not> refill now tb < 1"
    unfolding f64_sub_def using that by (intro fl.rnd_nonneg) simp
  ultimately show ?thesis
    using ok bounds by (simp add: Allow_def Let_def bucket_ok_def)
qed

text \<open>A whole number of tokens stays whole over whole seconds.\<close>

lemma refill_whole:
  assumes "bucket_ok tb" and "tb_tokens tb = of_int k" and "now = tb_lastTime tb + s * 1000000000"
    and "0 \<le> s" and "s * 1000000000 < 2 ^ 63" and "k + s * tb_rate tb \<le> 2 ^ 53"
  shows "refill now tb = of_int (min (tb_burst tb) (k + s * tb_rate tb))"
proof -
  define x where "x = k + s * tb_rate tb"
  have ranges: "0 \<le> k" "0 \<le> tb_rate tb" "tb_rate tb \<le> 2 ^ 53" "0 \<le> tb_burst tb" "tb_burst tb \<le> 2 ^ 53"
    "0 \<le> s * tb_rate tb"
    using assms by (simp_all add: bucket_ok_def)
  have "time_Sub now (tb_lastTime tb) = s * 1000000000"
    using assms(3,4,5) by (simp add: time_Sub_def)
  then have secs: "duration_Seconds (time_Sub now (tb_lastTime tb)) = of_int s"
    using assms(4,5) by (simp add: duration_Seconds_whole)
  have "f64_mul (of_int s) (f64_of_int (tb_rate tb)) = of_int (s * tb_rate tb)"
    using ranges assms(6) fl.rnd_of_int [of "s * tb_rate tb"] by (simp add: f64_mul_def)
  then have "f64_add (tb_tokens tb) (f64_mul (of_int s) (f64_of_int (tb_rate tb))) = of_int x"
    using ranges assms(6) fl.rnd_of_int [of "k + s * tb_rate tb"]
    by (simp add: f64_add_def x_def assms(2))
  then show ?thesis
    using ranges by (simp add: refill_def Let_def secs x_def [symmetric] min_def)
qed

lemma Allow_whole:
  assumes "bucket_ok tb" and "tb_tokens tb = of_int k" and "now = tb_lastTime tb + s * 1000000000"
    and "0 \<le> s" and "s * 1000000000 < 2 ^ 63" and "k + s * tb_rate tb \<le> 2 ^ 53"
    and k': "k' = min (tb_burst tb) (k + s * tb_rate tb)"
  shows "Allow now tb =
    (1 \<le> k', tb\<lparr>tb_lastTime := now, tb_tokens := of_int (if 1 \<le> k' then k' - 1 else k')\<rparr>)"
proof -
  have "refill now tb = of_int k'"
    using refill_whole [OF assms(1-6)] k' by simp
  moreover have "f64_sub (of_int k') 1 = of_int (k' - 1)" if "1 \<le> k'"
    using that k' assms(1,6) fl.rnd_of_int [of "k' - 1"] by (simp add: f64_sub_def bucket_ok_def)
  ultimately show ?thesis
    by (simp add: Allow_def)
qed

lemma allow_run_same_instant:
  assumes "bucket_ok tb" and "tb_tokens tb = of_nat k" and "tb_lastTime tb = t"
  shows "fst (allow_run (replicate n t) tb) = replicate (min n k) True @ replicate (n - k) False
    \<and> bucket_ok (snd (allow_run (replicate n t) tb))
    \<and> tb_lastTime (snd (allow_run (replicate n t) tb)) = t
    \<and> tb_rate (snd (allow_run (replicate n t) tb)) = tb_rate tb
    \<and> tb_burst (snd (allow_run (replicate n t) tb)) = tb_burst tb
    \<and> tb_tokens (snd (allow_run (replicate n t) tb)) = of_nat (k - n)"
  using assms
proof (induction n arbitrary: tb k)
  case (Suc n)
  have "of_int (int k) \<le> (of_int (tb_burst tb) :: rat)" "tb_burst tb \<le> 2 ^ 53"
    using Suc.prems(1,2) by (simp_all add: bucket_ok_def)
  then have k: "int k \<le> tb_burst tb" "tb_burst tb \<le> 2 ^ 53"
    by (simp_all only: of_int_le_iff)
  have a: "Allow t tb = (1 \<le> k, tb\<lparr>tb_lastTime := t, tb_tokens := of_nat (k - 1)\<rparr>)"
    using Allow_whole [of tb "int k" t 0 "int k"] Suc.prems k
    by (cases k) (simp_all add: min_def)
  have ok: "bucket_ok (snd (Allow t tb))"
    using Suc.prems by (intro Allow_ok) simp_all
  have "k - 1 - n = k - Suc n" by simp
  with Suc.IH [of "snd (Allow t tb)" "k - 1"] ok Suc.prems show ?case
    by (cases k) (auto simp: a split: prod.splits)
qed simp

section \<open>Sequences of messages\<close>

text \<open>One connection's messages in order, until a panic ends the goroutine.\<close>

fun serve :: "'w handler \<Rightarrow> go_context \<Rightarrow> nat \<Rightarrow> Message list \<Rightarrow> 'w \<Rightarrow> unit res list \<times> 'w" where
  "serve h ctx conn [] w = ([], w)"
| "serve h ctx conn (m # ms) w =
     (case h ctx conn m w of
        (Panic p, w1) \<Rightarrow> ([Panic p], w1)
      | (r, w1) \<Rightarrow> (case serve h ctx conn ms w1 of (rs, w2) \<Rightarrow> (r # rs, w2)))"

definition is_auth :: "Message \<Rightarrow> bool" where
  "is_auth m \<longleftrightarrow> msg_id m = Ok MsgIDTerminalAuth"

text \<open>The messages that need an authenticated connection.\<close>

definition gated :: "Message \<Rightarrow> bool" where
  "gated m \<longleftrightarrow> (\<exists>i. msg_id m = Ok i \<and> i \<noteq> MsgIDTerminalRegister \<and> i \<noteq> MsgIDTerminalAuth)"

definition authenticated :: "'w conn_iface \<Rightarrow> nat \<Rightarrow> 'w \<Rightarrow> bool" where
  "authenticated ops c w \<longleftrightarrow> conn_Get ops c authenticated_key w = Some (VBool True)"

lemma msg_kind_cases:
  obtains (nil) "msg_id m = Panic NilDereference"
  | (register) "msg_id m = Ok MsgIDTerminalRegister"
  | (auth) "is_auth m" "msg_id m = Ok MsgIDTerminalAuth"
  | (gated) i where "gated m" "msg_id m = Ok i" "i \<noteq> MsgIDTerminalRegister" "i \<noteq> MsgIDTerminalAuth"
  by (cases "Header m") (auto simp: is_auth_def gated_def msg_id_def)

lemma kinds_exclusive: "MsgIDTerminalAuth \<noteq> MsgIDTerminalRegister"
  by (simp add: proto_consts)

lemma not_authenticated_cases:
  "not_authenticated ops c w = Ok False \<longleftrightarrow> authenticated ops c w"
  "not_authenticated ops c w \<noteq> Err e"
  by (auto simp: not_authenticated_def authenticated_def split: option.splits go_value.splits)

text \<open>The three authentication middleware, message kind by message kind.\<close>

lemma reading_simps [simp]:
  "reading (Ok x) k w = k x w" "reading (Err e) k w = (Err e, w)" "reading (Panic p) k w = (Panic p, w)"
  by (simp_all add: reading_def)

lemma AuthWithCode_auth:
  "msg_id m = Ok MsgIDTerminalAuth \<Longrightarrow> AuthWithCode ops v h ctx c m w =
    (case h ctx c m w of (Ok _, w') \<Rightarrow> (Ok (), SetAuthenticated ops c w') | (r, w') \<Rightarrow> (r, w'))"
  by (simp add: AuthWithCode_def kinds_exclusive)

lemma AuthWithCode_register: "msg_id m = Ok MsgIDTerminalRegister \<Longrightarrow> AuthWithCode ops v h ctx c m w = h ctx c m w"
  by (simp add: AuthWithCode_def)

lemma AuthWithCode_nil: "msg_id m = Panic p \<Longrightarrow> AuthWithCode ops v h ctx c m w = (Panic p, w)"
  by (simp add: AuthWithCode_def)

lemma AuthWithCode_gated:
  "gated m \<Longrightarrow> AuthWithCode ops v h ctx c m w =
    reading (not_authenticated ops c w) (\<lambda>refused w.
      if refused then (Err (AuthError (conn_DeviceID ops c w) NotAuthenticated), w) else h ctx c m w) w"
  by (auto simp: AuthWithCode_def gated_def)

lemma AuthWithCode_gated_fst:
  assumes "gated m"
  shows "authenticated ops c w \<Longrightarrow> AuthWithCode ops v h ctx c m w = h ctx c m w"
    and "\<not> authenticated ops c w \<Longrightarrow> snd (AuthWithCode ops v h ctx c m w) = w"
    and "\<not> authenticated ops c w \<Longrightarrow> fst (AuthWithCode ops v h ctx c m w) \<noteq> Ok ()"
  using not_authenticated_cases [of ops c w]
  by (cases "not_authenticated ops c w"; auto simp: AuthWithCode_gated [OF assms])+

section \<open>The laws of connection attributes\<close>

locale conn_attributes =
  fixes valid :: "nat \<Rightarrow> 'w \<Rightarrow> bool" and ops :: "'w conn_iface"
  assumes get_set: "valid c w \<Longrightarrow> conn_Get ops c k (conn_Set ops c k v w) = Some v"
    and get_set_other: "(c', k') \<noteq> (c, k) \<Longrightarrow> conn_Get ops c' k' (conn_Set ops c k v w) = conn_Get ops c' k' w"
    and valid_set: "valid c' (conn_Set ops c k v w) = valid c' w"
    and device_set: "conn_DeviceID ops c' (conn_Set ops c k v w) = conn_DeviceID ops c' w"
begin

lemma authenticated_Set: "valid c w \<Longrightarrow> authenticated ops c (SetAuthenticated ops c w)"
  by (simp add: authenticated_def SetAuthenticated_def get_set)

lemma authenticated_Clear: "valid c w \<Longrightarrow> \<not> authenticated ops c (ClearAuthenticated ops c w)"
  by (simp add: authenticated_def ClearAuthenticated_def get_set)

lemma authenticated_Set_other:
  "c' \<noteq> c \<Longrightarrow> authenticated ops c' (SetAuthenticated ops c w) = authenticated ops c' w"
  by (simp add: authenticated_def SetAuthenticated_def get_set_other)

text \<open>Handlers that leave the attribute of the connection they serve alone.\<close>

definition keeps_attribute :: "nat \<Rightarrow> 'w handler \<Rightarrow> bool" where
  "keeps_attribute c h \<longleftrightarrow>
     (\<forall>ctx m w. conn_Get ops c authenticated_key (snd (h ctx c m w)) = conn_Get ops c authenticated_key w
        \<and> valid c (snd (h ctx c m w)) = valid c w)"

lemma AuthWithCode_step:
  assumes "keeps_attribute c h" and "valid c w"
  shows "valid c (snd (AuthWithCode ops v h ctx c m w))"
    and "authenticated ops c (snd (AuthWithCode ops v h ctx c m w)) \<longleftrightarrow>
      authenticated ops c w \<or> (is_auth m \<and> fst (AuthWithCode ops v h ctx c m w) = Ok ())"
proof -
  have k: "authenticated ops c (snd (h ctx c m w)) = authenticated ops c w" "valid c (snd (h ctx c m w))"
    using assms by (simp_all add: keeps_attribute_def authenticated_def)
  have "valid c (snd (AuthWithCode ops v h ctx c m w)) \<and>
    (authenticated ops c (snd (AuthWithCode ops v h ctx c m w)) \<longleftrightarrow>
      authenticated ops c w \<or> (is_auth m \<and> fst (AuthWithCode ops v h ctx c m w) = Ok ()))"
  proof (cases rule: msg_kind_cases [of m])
    case nil
    with assms(2) show ?thesis by (simp add: AuthWithCode_nil is_auth_def)
  next
    case register
    with k kinds_exclusive show ?thesis by (simp add: AuthWithCode_register is_auth_def)
  next
    case auth
    obtain r w1 where h: "h ctx c m w = (r, w1)" by fastforce
    with k authenticated_Set [of c w1] auth show ?thesis
      by (cases r) (simp_all add: AuthWithCode_auth SetAuthenticated_def valid_set)
  next
    case (gated i)
    then have "\<not> is_auth m" by (simp add: is_auth_def)
    with gated(1) k assms(2) AuthWithCode_gated_fst [of m ops c w v h ctx] show ?thesis
      by (cases "authenticated ops c w") auto
  qed
  then show "valid c (snd (AuthWithCode ops v h ctx c m w))"
    and "authenticated ops c (snd (AuthWithCode ops v h ctx c m w)) \<longleftrightarrow>
      authenticated ops c w \<or> (is_auth m \<and> fst (AuthWithCode ops v h ctx c m w) = Ok ())"
    by blast+
qed

text \<open>
  The session: a connection is authenticated after a sequence of messages exactly when it was before or
  an authentication message of the sequence was handled without error.
\<close>

lemma AuthWithCode_session:
  assumes "keeps_attribute c h" and "valid c w"
    and "serve (AuthWithCode ops v h) ctx c ms w = (rs, w')"
  shows "valid c w' \<and> (authenticated ops c w' \<longleftrightarrow>
    authenticated ops c w \<or> (\<exists>i < length rs. is_auth (ms ! i) \<and> rs ! i = Ok ()))"
  using assms(2,3)
proof (induction ms arbitrary: w rs)
  case (Cons m ms)
  let ?H = "AuthWithCode ops v h"
  obtain r w1 where H: "?H ctx c m w = (r, w1)" by fastforce
  have step: "valid c w1" "authenticated ops c w1 \<longleftrightarrow> authenticated ops c w \<or> is_auth m \<and> r = Ok ()"
    using AuthWithCode_step [OF assms(1) Cons.prems(1), of v ctx m] by (simp_all add: H)
  show ?case
  proof (cases r)
    case (Panic p)
    with Cons.prems step show ?thesis by (auto simp: H)
  next
    case (Ok x)
    then obtain rs' where rs: "rs = Ok () # rs'" "serve ?H ctx c ms w1 = (rs', w')"
      using Cons.prems(2) by (auto simp: H split: prod.splits)
    from Cons.IH [OF step(1) rs(2)] step(2) Ok show ?thesis
      by (auto simp: rs(1) less_Suc_eq_0_disj)
  next
    case (Err e)
    then obtain rs' where rs: "rs = Err e # rs'" "serve ?H ctx c ms w1 = (rs', w')"
      using Cons.prems(2) by (auto simp: H split: prod.splits)
    from Cons.IH [OF step(1) rs(2)] step(2) Err show ?thesis
      by (auto simp: rs(1) less_Suc_eq_0_disj)
  qed
qed simp

text \<open>A message that needs an authenticated connection is handled without error only on a connection that
  is authenticated, or was by an earlier message of the sequence.\<close>

lemma AuthWithCode_gate:
  assumes "keeps_attribute c h" and "valid c w"
    and "serve (AuthWithCode ops v h) ctx c ms w = (rs, w')"
    and "i < length rs" and "gated (ms ! i)" and "rs ! i = Ok ()"
  shows "authenticated ops c w \<or> (\<exists>j < i. is_auth (ms ! j) \<and> rs ! j = Ok ())"
  using assms(2-)
proof (induction ms arbitrary: w rs i)
  case (Cons m ms)
  let ?H = "AuthWithCode ops v h"
  obtain r w1 where H: "?H ctx c m w = (r, w1)" by fastforce
  have step: "valid c w1" "authenticated ops c w1 \<longleftrightarrow> authenticated ops c w \<or> is_auth m \<and> r = Ok ()"
    using AuthWithCode_step [OF assms(1) Cons.prems(1), of v ctx m] by (simp_all add: H)
  obtain rs' where rs: "rs = r # rs'" "rs' = [] \<or> serve ?H ctx c ms w1 = (rs', w')"
    using Cons.prems(2) by (cases r) (auto simp: H split: prod.splits)
  show ?case
  proof (cases i)
    case 0
    with Cons.prems(4,5) rs(1) AuthWithCode_gated_fst(3) [of m ops c w v h ctx] show ?thesis
      by (auto simp: H)
  next
    case (Suc i')
    with Cons.prems rs have "authenticated ops c w1 \<or> (\<exists>j < i'. is_auth (ms ! j) \<and> rs' ! j = Ok ())"
      by (intro Cons.IH [OF step(1)]) auto
    then show ?thesis
    proof
      assume "authenticated ops c w1"
      with step(2) rs(1) Suc show ?thesis by auto
    next
      assume "\<exists>j < i'. is_auth (ms ! j) \<and> rs' ! j = Ok ()"
      then obtain j where "j < i'" "is_auth (ms ! j)" "rs' ! j = Ok ()" by blast
      with rs(1) Suc show ?thesis by (intro disjI2 exI [of _ "Suc j"]) simp
    qed
  qed
qed simp

end

section \<open>The chain\<close>

lemma apply_middleware_Nil [simp]: "apply_middleware [] h = h"
  by (simp add: apply_middleware_def)

text \<open>The middleware registered first is the outermost.\<close>

lemma apply_middleware_Cons [simp]: "apply_middleware (m # ms) h = m (apply_middleware ms h)"
  by (simp add: apply_middleware_def)

lemma apply_middleware_append: "apply_middleware (ms @ ms') h = apply_middleware ms (apply_middleware ms' h)"
  by (induction ms) simp_all

fun recoverable :: "go_panic \<Rightarrow> bool" where
  "recoverable (ProcessCrash p) = False"
| "recoverable p = True"

lemma Recovery_Panic:
  "Header m = Some hdr \<Longrightarrow> h ctx c m w = (Panic p, w1) \<Longrightarrow> recoverable p \<Longrightarrow>
    fst (Recovery env ops lg h ctx c m w) = Err (PanicError p)"
  by (cases p) (simp_all add: Recovery_def msg_id_def)

lemma Recovery_crash:
  "h ctx c m w = (Panic (ProcessCrash p), w1) \<Longrightarrow>
    Recovery env ops lg h ctx c m w = (Panic (ProcessCrash p), w1)"
  by (simp add: Recovery_def)

lemma Recovery_other:
  "h ctx c m w = (r, w1) \<Longrightarrow> safe r \<Longrightarrow> Recovery env ops lg h ctx c m w = (r, w1)"
  by (cases r) (simp_all add: Recovery_def)

lemma uncaught_plain: "recoverable p \<Longrightarrow> uncaught p = ProcessCrash p"
  by (cases p) simp_all

lemma allow_run_append:
  "allow_run (ts @ ts') tb =
    (case allow_run ts tb of (as, tb1) \<Rightarrow> (case allow_run ts' tb1 of (bs, tb2) \<Rightarrow> (as @ bs, tb2)))"
  by (induction ts arbitrary: tb) (auto split: prod.splits)

section \<open>Properties\<close>

text \<open>C22. With \<^verbatim>\<open>Recovery\<close> registered first no handler and no other middleware can panic the connection's
  goroutine: the outcome of the chain for a message with a header is a value or an error, unless
  a goroutine of its own has already brought the process down, and outcomes that are not panics pass
  unchanged.\<close>

theorem Recovery_first_protects:
  assumes "Header m \<noteq> None"
  shows "(safe (fst (apply_middleware (Recovery env ops lg # ms) h ctx c m w))
      \<or> (\<exists>p. fst (apply_middleware ms h ctx c m w) = Panic (ProcessCrash p)))
    \<and> (safe (fst (apply_middleware ms h ctx c m w)) \<longrightarrow>
      apply_middleware (Recovery env ops lg # ms) h ctx c m w = apply_middleware ms h ctx c m w)"
proof -
  obtain r w1 where r: "apply_middleware ms h ctx c m w = (r, w1)" by fastforce
  show ?thesis
  proof (cases r)
    case (Panic p)
    with r assms Recovery_Panic [of m _ "apply_middleware ms h" ctx c w p w1 env ops lg] show ?thesis
      by (cases p) auto
  qed (use r Recovery_other [of "apply_middleware ms h" ctx c m w r w1 env ops lg] in simp_all)
qed

definition sample_ops :: "(nat \<Rightarrow> gostring \<Rightarrow> go_value option) conn_iface" where
  "sample_ops =
     \<lparr>conn_Get = (\<lambda>c k w. w c k), conn_Set = (\<lambda>c k v w. w(c := (w c)(k \<mapsto> v))),
      conn_DeviceID = (\<lambda>c w. []), conn_RemoteAddr = (\<lambda>c w. [])\<rparr>"

definition sample_env :: "'w log_env" where
  "sample_env =
     \<lparr>le_fmt = (\<lambda>v. []), le_clock = (\<lambda>w. []), le_now = (\<lambda>w. 0), le_stack = (\<lambda>w. []), le_emit = (\<lambda>ls w. w)\<rparr>"

definition sample_message_of :: "uint16 \<Rightarrow> byte list \<Rightarrow> Message" where
  "sample_message_of mid body =
     \<lparr>Header = Some \<lparr>MsgID = mid, MsgBodyProperty = 0, ProtocolVersion = 0, PhoneNo = go_str ''13800000001'',
        MsgFlowNo = 7, MsgBodyLength = 0, SubPackage = False, Encryption = 0\<rparr>,
      Body = body, Raw = []\<rparr>"

theorem Recovery_first_protects_witness:
  "safe (fst (apply_middleware [Recovery sample_env sample_ops (NewLogger InfoLevel)]
     (\<lambda>ctx c m w. (Panic (HandlerPanic 1), w)) Background 0 (sample_message_of 0x0002 []) (\<lambda>c k. None)))"
  using Recovery_first_protects [of "sample_message_of 0x0002 []" sample_env sample_ops "NewLogger InfoLevel" "[]"
      "\<lambda>ctx c m w. (Panic (HandlerPanic 1), w)" Background 0 "\<lambda>c k. None"]
  by (simp add: sample_message_of_def)

text \<open>The order of \<^verbatim>\<open>Recovery\<close> and \<^verbatim>\<open>Timeout\<close> decides whether a panicking handler is survived:
  \<^verbatim>\<open>Timeout\<close> runs the rest of the chain in a goroutine of its own, so a \<^verbatim>\<open>Recovery\<close> outside it cannot catch
  the panic and the process ends, while a \<^verbatim>\<open>Recovery\<close> inside it turns the panic into an error.\<close>

theorem Timeout_needs_inner_Recovery:
  assumes "Header m \<noteq> None" and "\<And>ctx. fst (h ctx c m w) = Panic p" and "recoverable p"
    and "\<And>ctx. in_time ctx c m w"
  shows "fst (apply_middleware [Recovery env ops lg, Timeout now in_time spawn d] h ctx c m w) = Panic (ProcessCrash p)
    \<and> fst (apply_middleware [Timeout now in_time spawn d, Recovery env ops lg] h ctx c m w) = Err (PanicError p)"
proof -
  let ?ctx = "with_timeout (now w) d ctx"
  obtain w1 where h: "h ?ctx c m w = (Panic p, w1)"
    using assms(2) by (metis prod.collapse)
  have "Timeout now in_time spawn d h ctx c m w = (Panic (ProcessCrash p), w1)"
    using assms(4) h uncaught_plain [OF assms(3)] by (simp add: Timeout_def Let_def)
  moreover have "fst (Recovery env ops lg h ?ctx c m w) = Err (PanicError p)"
    using assms(1) Recovery_Panic [where h = h, OF _ h assms(3)] by auto
  moreover have "Timeout now in_time spawn d h' ctx c m w = (Err e, snd (h' ?ctx c m w))"
    if "fst (h' ?ctx c m w) = Err e" for h' e
    using that assms(4) by (auto simp: Timeout_def Let_def split: prod.splits)
  ultimately show ?thesis
    by (simp add: Recovery_crash)
qed

theorem Timeout_needs_inner_Recovery_witness:
  "fst (apply_middleware [Recovery sample_env sample_ops (NewLogger InfoLevel),
        Timeout (\<lambda>w. 0) (\<lambda>ctx c m w. True) (\<lambda>g w. w) 5000000000]
      (\<lambda>ctx c m w. (Panic NilDereference, w)) Background 0 (sample_message_of 0x0200 []) (\<lambda>c k. None))
    = Panic (ProcessCrash NilDereference)"
  using Timeout_needs_inner_Recovery [of "sample_message_of 0x0200 []" "\<lambda>ctx c m w. (Panic NilDereference, w)" 0
      "\<lambda>c k. None" NilDereference "\<lambda>ctx c m w. True" sample_env sample_ops "NewLogger InfoLevel" "\<lambda>w. 0"
      "\<lambda>g w. w" 5000000000 Background]
  by (simp add: sample_message_of_def)

text \<open>C23. A fresh bucket admits exactly its burst of simultaneous requests and refuses the rest; after the
  bucket is drained, \<open>s\<close> whole seconds admit exactly \<open>s * rate\<close> further requests, at most the burst:
  the floating-point count is exact on these.\<close>

theorem TokenBucket_burst_and_refill:
  assumes "0 \<le> rate" and "rate \<le> 2 ^ 53" and "0 \<le> burst" and "burst \<le> 2 ^ 53"
    and "0 \<le> s" and "s * 1000000000 < 2 ^ 63" and "s * rate \<le> 2 ^ 53"
  shows "fst (allow_run (replicate (nat burst + j) t @ replicate n (t + s * 1000000000)) (NewTokenBucket rate burst t))
    = replicate (nat burst) True @ replicate j False
      @ replicate (min n (nat (min burst (s * rate)))) True @ replicate (n - nat (min burst (s * rate))) False"
proof -
  let ?tb = "NewTokenBucket rate burst t" and ?t' = "t + s * 1000000000"
  let ?drained = "snd (allow_run (replicate (nat burst + j) t) ?tb)"
  have ok: "bucket_ok ?tb"
    using assms by (simp add: bucket_ok_def NewTokenBucket_def)
  have first: "fst (allow_run (replicate (nat burst + j) t) ?tb) = replicate (nat burst) True @ replicate j False"
    "bucket_ok ?drained" "tb_lastTime ?drained = t" "tb_rate ?drained = rate" "tb_burst ?drained = burst"
    "tb_tokens ?drained = 0"
    using allow_run_same_instant [OF ok, of "nat burst" t "nat burst + j"] assms
    by (simp_all add: NewTokenBucket_def)
  have second: "fst (allow_run (replicate n ?t') tb) =
      replicate (min n (nat (min burst (s * rate)))) True @ replicate (n - nat (min burst (s * rate))) False"
    if tb: "bucket_ok tb" "tb_lastTime tb = t" "tb_rate tb = rate" "tb_burst tb = burst" "tb_tokens tb = 0" for tb
  proof (cases n)
    case (Suc n')
    define k where "k = min burst (s * rate)"
    have k: "0 \<le> k" using assms by (simp add: k_def)
    have A: "Allow ?t' tb = (1 \<le> k, tb\<lparr>tb_lastTime := ?t', tb_tokens := of_int (if 1 \<le> k then k - 1 else k)\<rparr>)"
      by (rule Allow_whole [where k = 0 and s = s]) (use tb assms in \<open>simp_all add: k_def\<close>)
    have ok': "bucket_ok (snd (Allow ?t' tb))"
      by (rule Allow_ok) (use tb assms in simp_all)
    have "fst (allow_run (replicate n' ?t') (snd (Allow ?t' tb)))
        = replicate (min n' (nat k - 1)) True @ replicate (n' - (nat k - 1)) False"
    proof (rule allow_run_same_instant [THEN conjunct1, OF ok'])
      show "tb_tokens (snd (Allow ?t' tb)) = of_nat (nat k - 1)"
        using k by (auto simp: A of_nat_diff)
    qed (simp add: A)
    then show ?thesis
      using k by (cases "nat k") (auto simp: A Suc k_def [symmetric] split: prod.splits)
  qed simp
  show ?thesis
    using first second [of ?drained] by (auto simp: allow_run_append split: prod.splits)
qed

theorem TokenBucket_burst_and_refill_witness:
  "fst (allow_run (replicate 4 0 @ replicate 3 1000000000) (NewTokenBucket 2 3 0))
    = [True, True, True, False, True, True, False]"
  using TokenBucket_burst_and_refill [of 2 3 1 1 0 3] by (simp add: eval_nat_numeral)

text \<open>At every moment the bucket holds at least 0 and at most \<^verbatim>\<open>burst\<close> tokens, whatever the elapsed
  times and the rounding, as long as the clock does not run backwards.\<close>

theorem TokenBucket_bounded:
  assumes "0 \<le> rate" and "rate \<le> 2 ^ 53" and "0 \<le> burst" and "burst \<le> 2 ^ 53" and "sorted (t # ts)"
  shows "bucket_ok (snd (allow_run ts (NewTokenBucket rate burst t)))"
proof -
  have "bucket_ok (snd (allow_run ts tb))" if "bucket_ok tb" "sorted (tb_lastTime tb # ts)" for tb
    using that
  proof (induction ts arbitrary: tb)
    case (Cons u us)
    then have "bucket_ok (snd (Allow u tb))" by (intro Allow_ok) simp_all
    moreover have "tb_lastTime (snd (Allow u tb)) = u" by (simp add: Allow_def Let_def)
    ultimately show ?case
      using Cons.IH [of "snd (Allow u tb)"] Cons.prems by (auto split: prod.splits)
  qed simp
  then show ?thesis
    using assms by (simp add: bucket_ok_def NewTokenBucket_def)
qed

theorem TokenBucket_bounded_witness:
  "bucket_ok (snd (allow_run [5, 300000000, 700000001] (NewTokenBucket 10 5 0)))"
  by (rule TokenBucket_bounded) simp_all

end
