(* ===== verification/ServerBase.thy ===== *)
theory ServerBase
  imports Middleware FrameReader
begin

text \<open>
  What the two TCP servers share: the registered handlers, middleware and hooks, the statistics, the
  network side of a connection, and the loops that run the hooks. The world a handler or hook acts on
  is a parameter \<open>'w\<close>.
\<close>

section \<open>Handlers and hooks\<close>

record 'w server =
  sv_handlers :: "(uint16, 'w handler) gomap"
  sv_middleware :: "'w middleware list"
  sv_OnConnect :: "(nat \<Rightarrow> 'w \<Rightarrow> unit res \<times> 'w) list"
  sv_OnDisconnect :: "(nat \<Rightarrow> 'w \<Rightarrow> unit res \<times> 'w) list"
  sv_OnError :: "(nat \<Rightarrow> go_error \<Rightarrow> 'w \<Rightarrow> go_panic option \<times> 'w) list"

definition new_server :: "'w server" where
  "new_server = \<lparr>sv_handlers = [], sv_middleware = [], sv_OnConnect = [], sv_OnDisconnect = [], sv_OnError = []\<rparr>"

definition RegisterHandler :: "uint16 \<Rightarrow> 'w handler \<Rightarrow> 'w server \<Rightarrow> 'w server" where
  "RegisterHandler mid h s = s\<lparr>sv_handlers := gm_put mid h (sv_handlers s)\<rparr>"

definition Use :: "'w middleware \<Rightarrow> 'w server \<Rightarrow> 'w server" where
  "Use m s = s\<lparr>sv_middleware := sv_middleware s @ [m]\<rparr>"

definition OnConnect :: "(nat \<Rightarrow> 'w \<Rightarrow> unit res \<times> 'w) \<Rightarrow> 'w server \<Rightarrow> 'w server" where
  "OnConnect hook s = s\<lparr>sv_OnConnect := sv_OnConnect s @ [hook]\<rparr>"

definition OnDisconnect :: "(nat \<Rightarrow> 'w \<Rightarrow> unit res \<times> 'w) \<Rightarrow> 'w server \<Rightarrow> 'w server" where
  "OnDisconnect hook s = s\<lparr>sv_OnDisconnect := sv_OnDisconnect s @ [hook]\<rparr>"

definition OnError :: "(nat \<Rightarrow> go_error \<Rightarrow> 'w \<Rightarrow> go_panic option \<times> 'w) \<Rightarrow> 'w server \<Rightarrow> 'w server" where
  "OnError hook s = s\<lparr>sv_OnError := sv_OnError s @ [hook]\<rparr>"

text \<open>The loops over the hooks: the first error of an \<^verbatim>\<open>OnConnect\<close> hook ends the loop, the errors of
  \<^verbatim>\<open>OnDisconnect\<close> hooks are dropped; a panic ends each.\<close>

fun run_connect_hooks :: "(nat \<Rightarrow> 'w \<Rightarrow> unit res \<times> 'w) list \<Rightarrow> nat \<Rightarrow> 'w \<Rightarrow> unit res \<times> 'w" where
  "run_connect_hooks [] c w = (Ok (), w)"
| "run_connect_hooks (hook # hooks) c w =
     (case hook c w of (Ok _, w1) \<Rightarrow> run_connect_hooks hooks c w1 | (r, w1) \<Rightarrow> (r, w1))"

fun run_disconnect_hooks :: "(nat \<Rightarrow> 'w \<Rightarrow> unit res \<times> 'w) list \<Rightarrow> nat \<Rightarrow> 'w \<Rightarrow> go_panic option \<times> 'w" where
  "run_disconnect_hooks [] c w = (None, w)"
| "run_disconnect_hooks (hook # hooks) c w =
     (case hook c w of (Panic p, w1) \<Rightarrow> (Some p, w1) | (r, w1) \<Rightarrow> run_disconnect_hooks hooks c w1)"

fun run_error_hooks ::
  "(nat \<Rightarrow> go_error \<Rightarrow> 'w \<Rightarrow> go_panic option \<times> 'w) list \<Rightarrow> nat \<Rightarrow> go_error \<Rightarrow> 'w \<Rightarrow> go_panic option \<times> 'w" where
  "run_error_hooks [] c e w = (None, w)"
| "run_error_hooks (hook # hooks) c e w =
     (case hook c e w of (Some p, w1) \<Rightarrow> (Some p, w1) | (None, w1) \<Rightarrow> run_error_hooks hooks c e w1)"

section \<open>Statistics\<close>

record server_stats =
  s_ActiveConnections :: int64
  s_TotalConnections :: int64
  s_ReceivedMessages :: int64
  s_SentMessages :: int64
  s_ErrorCount :: int64
  s_StartTime :: go_time

definition new_stats :: "go_time \<Rightarrow> server_stats" where
  "new_stats now = \<lparr>s_ActiveConnections = 0, s_TotalConnections = 0, s_ReceivedMessages = 0,
     s_SentMessages = 0, s_ErrorCount = 0, s_StartTime = now\<rparr>"

record ServerStats =
  ss_ActiveConnections :: int
  ss_TotalConnections :: int
  ss_ReceivedMessages :: int
  ss_SentMessages :: int
  ss_ErrorCount :: int
  ss_StartTime :: go_time
  ss_Uptime :: go_duration

definition stats_snapshot :: "go_time \<Rightarrow> server_stats \<Rightarrow> ServerStats" where
  "stats_snapshot now s =
     \<lparr>ss_ActiveConnections = sint (s_ActiveConnections s), ss_TotalConnections = sint (s_TotalConnections s),
      ss_ReceivedMessages = sint (s_ReceivedMessages s), ss_SentMessages = sint (s_SentMessages s),
      ss_ErrorCount = sint (s_ErrorCount s), ss_StartTime = s_StartTime s, ss_Uptime = now - s_StartTime s\<rparr>"

definition add_Active :: "int64 \<Rightarrow> server_stats \<Rightarrow> server_stats" where
  "add_Active d s = s\<lparr>s_ActiveConnections := s_ActiveConnections s + d\<rparr>"

definition add_Total :: "int64 \<Rightarrow> server_stats \<Rightarrow> server_stats" where
  "add_Total d s = s\<lparr>s_TotalConnections := s_TotalConnections s + d\<rparr>"

definition add_Received :: "int64 \<Rightarrow> server_stats \<Rightarrow> server_stats" where
  "add_Received d s = s\<lparr>s_ReceivedMessages := s_ReceivedMessages s + d\<rparr>"

definition add_Sent :: "int64 \<Rightarrow> server_stats \<Rightarrow> server_stats" where
  "add_Sent d s = s\<lparr>s_SentMessages := s_SentMessages s + d\<rparr>"

definition add_Error :: "int64 \<Rightarrow> server_stats \<Rightarrow> server_stats" where
  "add_Error d s = s\<lparr>s_ErrorCount := s_ErrorCount s + d\<rparr>"

lemmas stat_defs = add_Active_def add_Total_def add_Received_def add_Sent_def add_Error_def

lemma add_stats_simps [simp]:
  "s_ActiveConnections (add_Active d s) = s_ActiveConnections s + d" "s_TotalConnections (add_Active d s) = s_TotalConnections s"
  "s_ActiveConnections (add_Total d s) = s_ActiveConnections s" "s_TotalConnections (add_Total d s) = s_TotalConnections s + d"
  "s_ActiveConnections (add_Received d s) = s_ActiveConnections s" "s_TotalConnections (add_Received d s) = s_TotalConnections s"
  "s_ActiveConnections (add_Sent d s) = s_ActiveConnections s" "s_TotalConnections (add_Sent d s) = s_TotalConnections s"
  "s_ActiveConnections (add_Error d s) = s_ActiveConnections s" "s_TotalConnections (add_Error d s) = s_TotalConnections s"
  by (simp_all add: stat_defs)

section \<open>Goroutines\<close>

text \<open>How a piece of a goroutine ends: it goes on, returns, or panics.\<close>

datatype outcome = Continue | Return | Crash go_panic

text \<open>An error of a connection: counted, given to the hooks.\<close>

definition report_error ::
  "('w \<Rightarrow> 'w) \<Rightarrow> 'w server \<Rightarrow> nat \<Rightarrow> go_error \<Rightarrow> outcome \<Rightarrow> 'w \<Rightarrow> outcome \<times> 'w" where
  "report_error count_error srv c e out w =
     (case run_error_hooks (sv_OnError srv) c e (count_error w) of
        (None, w1) \<Rightarrow> (out, w1)
      | (Some p, w1) \<Rightarrow> (Crash p, w1))"

text \<open>The goroutine of a connection: created, in its loop, about to run its deferred functions, returned.\<close>

datatype phase = Spawned | Reading | Leaving | Finished

fun after_start :: "outcome \<Rightarrow> phase" where
  "after_start Continue = Reading"
| "after_start Return = Finished"
| "after_start (Crash p) = Reading"

fun after_iter :: "outcome \<Rightarrow> phase" where
  "after_iter Continue = Reading"
| "after_iter Return = Leaving"
| "after_iter (Crash p) = Reading"

fun after_cleanup :: "outcome \<Rightarrow> phase" where
  "after_cleanup (Crash p) = Leaving"
| "after_cleanup out = Finished"

fun crash_of :: "outcome \<Rightarrow> go_panic option" where
  "crash_of (Crash p) = Some p"
| "crash_of out = None"

fun_cases after_iter_LeavingE: "after_iter out = Leaving"
fun_cases after_cleanup_FinishedE: "after_cleanup out = Finished"

text \<open>How far a goroutine is from its end. The phases are ordered by it: a goroutine only advances.\<close>

fun steps_left :: "phase \<Rightarrow> nat" where
  "steps_left Spawned = 3"
| "steps_left Reading = 2"
| "steps_left Leaving = 1"
| "steps_left Finished = 0"

lemma steps_left_eq [simp]: "steps_left p = steps_left q \<longleftrightarrow> p = q"
  by (cases p; cases q) simp_all

instantiation phase :: linorder
begin

definition less_eq_phase :: "phase \<Rightarrow> phase \<Rightarrow> bool" where
  "less_eq_phase p q \<longleftrightarrow> steps_left q \<le> steps_left p"

definition less_phase :: "phase \<Rightarrow> phase \<Rightarrow> bool" where
  "less_phase p q \<longleftrightarrow> steps_left q < steps_left p"

instance
proof
  fix p q r :: phase
  show "p < q \<longleftrightarrow> p \<le> q \<and> \<not> q \<le> p" by (auto simp: less_eq_phase_def less_phase_def)
  show "p \<le> p" by (simp add: less_eq_phase_def)
  show "p \<le> r" if "p \<le> q" "q \<le> r" using that by (simp add: less_eq_phase_def)
  show "p = q" if "p \<le> q" "q \<le> p"
  proof -
    from that have "steps_left p = steps_left q" by (simp add: less_eq_phase_def)
    then show ?thesis by simp
  qed
  show "p \<le> q \<or> q \<le> p" by (auto simp: less_eq_phase_def)
qed

end

lemma phase_advances [simp]: "Spawned \<le> p" "Reading \<le> after_start out" "Spawned < after_start out"
  "Reading \<le> after_iter out" "Leaving \<le> after_cleanup out" "p \<le> Finished"
  by (cases p; cases out; simp add: less_eq_phase_def less_phase_def)+

definition live :: "phase \<Rightarrow> bool" where
  "live p \<longleftrightarrow> p = Reading \<or> p = Leaving"

lemma live_simps [simp]: "live Reading" "live Leaving" "\<not> live Spawned" "\<not> live Finished"
  by (simp_all add: live_def)

lemma filter_phase_update:
  "c < length ph \<Longrightarrow> (of_nat (length (filter P (ph[c := p]))) :: int64) =
    of_nat (length (filter P ph)) - of_bool (P (ph ! c)) + of_bool (P p)"
proof -
  assume "c < length ph"
  then have "length (filter P (ph[c := p])) + of_bool (P (ph ! c)) = length (filter P ph) + of_bool (P p)"
  proof (induction ph arbitrary: c)
    case (Cons a ph)
    then show ?case by (cases c) auto
  qed simp
  then have "(of_nat (length (filter P (ph[c := p])) + of_bool (P (ph ! c))) :: int64) =
      of_nat (length (filter P ph) + of_bool (P p))"
    by simp
  then show ?thesis by (simp add: algebra_simps)
qed

section \<open>What the served code may do\<close>

text \<open>
  Handlers, middleware and hooks act on a server by calls; \<open>exec\<close> is what a call does. \<open>server_ok\<close> says
  that those that serve a connection \<open>c\<close> only make the calls \<open>own c\<close> allows and the hooks only plain ones.
\<close>

definition make_calls :: "('x \<Rightarrow> 'w \<Rightarrow> 'w) \<Rightarrow> 'x list \<Rightarrow> 'w \<Rightarrow> 'w" where
  "make_calls exec xs w = foldl (\<lambda>w x. exec x w) w xs"

definition by_calls :: "('x \<Rightarrow> 'w \<Rightarrow> 'w) \<Rightarrow> ('x \<Rightarrow> bool) \<Rightarrow> 'w \<Rightarrow> 'w \<Rightarrow> bool" where
  "by_calls exec ok w w' \<longleftrightarrow> (\<exists>xs. list_all ok xs \<and> w' = make_calls exec xs w)"

lemma by_calls_refl [simp]: "by_calls exec ok w w"
  unfolding by_calls_def by (rule exI [of _ "[]"]) (simp add: make_calls_def)

lemma by_calls_trans: "by_calls exec ok w w1 \<Longrightarrow> by_calls exec ok w1 w2 \<Longrightarrow> by_calls exec ok w w2"
  unfolding by_calls_def make_calls_def by (metis foldl_append list_all_append)

lemma by_calls_one: "ok x \<Longrightarrow> by_calls exec ok w (exec x w)"
  unfolding by_calls_def by (rule exI [of _ "[x]"]) (simp add: make_calls_def)

lemma by_calls_mono: "by_calls exec ok w w' \<Longrightarrow> (\<And>x. ok x \<Longrightarrow> ok' x) \<Longrightarrow> by_calls exec ok' w w'"
  unfolding by_calls_def by (metis list.pred_mono_strong)

text \<open>An invariant of the allowed calls is an invariant of code that only makes them.\<close>

lemma by_calls_invariant:
  assumes "by_calls exec ok w w'" and "P w" and "\<And>x w. ok x \<Longrightarrow> P w \<Longrightarrow> P (exec x w)"
  shows "P w'"
proof -
  have "P (make_calls exec xs w)" if "list_all ok xs" "P w" for xs w
    using that by (induction xs arbitrary: w) (simp_all add: make_calls_def assms(3))
  with assms(1,2) show ?thesis by (auto simp: by_calls_def)
qed

definition server_ok :: "('x \<Rightarrow> 'w \<Rightarrow> 'w) \<Rightarrow> (nat \<Rightarrow> 'x \<Rightarrow> bool) \<Rightarrow> ('x \<Rightarrow> bool) \<Rightarrow> 'w server \<Rightarrow> bool" where
  "server_ok exec own plain srv \<longleftrightarrow>
     (\<forall>h \<in> snd ` set (sv_handlers srv). \<forall>ctx c m w.
        by_calls exec (own c) w (snd (apply_middleware (sv_middleware srv) h ctx c m w))) \<and>
     (\<forall>h \<in> set (sv_OnConnect srv). \<forall>c w. by_calls exec plain w (snd (h c w))) \<and>
     (\<forall>h \<in> set (sv_OnDisconnect srv). \<forall>c w. by_calls exec plain w (snd (h c w))) \<and>
     (\<forall>h \<in> set (sv_OnError srv). \<forall>c e w. by_calls exec plain w (snd (h c e w)))"

lemma run_connect_hooks_calls:
  "(\<And>h w. h \<in> set hs \<Longrightarrow> by_calls exec ok w (snd (h c w))) \<Longrightarrow> by_calls exec ok w (snd (run_connect_hooks hs c w))"
proof (induction hs arbitrary: w)
  case (Cons h hs)
  from Cons.prems [of h w] have "by_calls exec ok w (snd (h c w))" by simp
  moreover have "by_calls exec ok w1 (snd (run_connect_hooks hs c w1))" for w1
    using Cons by simp
  ultimately show ?case
    by (auto intro: by_calls_trans split: prod.splits go.splits)
qed simp

lemma run_disconnect_hooks_calls:
  "(\<And>h w. h \<in> set hs \<Longrightarrow> by_calls exec ok w (snd (h c w))) \<Longrightarrow> by_calls exec ok w (snd (run_disconnect_hooks hs c w))"
proof (induction hs arbitrary: w)
  case (Cons h hs)
  from Cons.prems [of h w] have "by_calls exec ok w (snd (h c w))" by simp
  moreover have "by_calls exec ok w1 (snd (run_disconnect_hooks hs c w1))" for w1
    using Cons by simp
  ultimately show ?case
    by (auto intro: by_calls_trans split: prod.splits go.splits)
qed simp

lemma run_error_hooks_calls:
  "(\<And>h w. h \<in> set hs \<Longrightarrow> by_calls exec ok w (snd (h c e w))) \<Longrightarrow> by_calls exec ok w (snd (run_error_hooks hs c e w))"
proof (induction hs arbitrary: w)
  case (Cons h hs)
  from Cons.prems [of h w] have "by_calls exec ok w (snd (h c e w))" by simp
  moreover have "by_calls exec ok w1 (snd (run_error_hooks hs c e w1))" for w1
    using Cons by simp
  ultimately show ?case
    by (auto intro: by_calls_trans split: prod.splits option.splits)
qed simp

section \<open>The network side of a connection\<close>

text \<open>
  A \<^verbatim>\<open>net.Conn\<close> with its \<^verbatim>\<open>bufio.Reader\<close>: the bytes the peer will still deliver and the error it ends
  with, how many of them the reader has already buffered (only those can still be read once the
  socket is closed), the frames written, and the error a write meets, if any.
\<close>

record net_conn =
  nc_closed :: bool
  nc_reader :: reader
  nc_buffered :: nat
  nc_out :: "byte list list"
  nc_write_error :: "go_error option"
  nc_addr :: gostring

definition closed_error :: go_error where
  "closed_error = IoError 0"

definition net_Close :: "net_conn \<Rightarrow> unit res \<times> net_conn" where
  "net_Close n =
     (if nc_closed n then (Err closed_error, n)
      else (Ok (), n\<lparr>nc_closed := True,
        nc_reader := \<lparr>pending = take (nc_buffered n) (pending (nc_reader n)), final_error = closed_error\<rparr>\<rparr>))"

definition net_Write :: "byte list \<Rightarrow> net_conn \<Rightarrow> unit res \<times> net_conn" where
  "net_Write data n =
     (if nc_closed n then (Err closed_error, n)
      else case nc_write_error n of
             Some e \<Rightarrow> (Err e, n)
           | None \<Rightarrow> (Ok (), n\<lparr>nc_out := nc_out n @ [data]\<rparr>))"

lemma net_Close_closed [simp]: "nc_closed (snd (net_Close n))"
  by (simp add: net_Close_def)

lemma net_Close_out [simp]: "nc_out (snd (net_Close n)) = nc_out n"
  by (simp add: net_Close_def)

lemma net_Write_closed [simp]: "nc_closed (snd (net_Write d n)) = nc_closed n"
  by (simp add: net_Write_def split: option.splits)

lemma net_Write_reader [simp]: "nc_reader (snd (net_Write d n)) = nc_reader n"
  by (simp add: net_Write_def split: option.splits)

end
