(* ===== verification/TcpServer.thy ===== *)
theory TcpServer
  imports ServerBase
begin

text \<open>
  \<^verbatim>\<open>transport/tcp.go\<close>: the server, its connections and its goroutines. Connections are indices into a
  heap. The first part has the operations as state transformers; the second the system: the accept
  loop, one goroutine per connection, the application's calls and \<^verbatim>\<open>Stop\<close> interleave, an iteration of
  a connection's loop being one step.
\<close>

section \<open>State\<close>

record TcpConfig =
  ListenAddr :: gostring
  MaxConnections :: int
  ReadTimeout :: go_duration
  WriteTimeout :: go_duration
  IdleTimeout :: go_duration
  ReadBufferSize :: int
  WriteBufferSize :: int
  MaxPacketSize :: int

definition DefaultConfig :: TcpConfig where
  "DefaultConfig =
     \<lparr>ListenAddr = go_str '':8080'', MaxConnections = 1000000, ReadTimeout = 30 * 10 ^ 9,
      WriteTimeout = 30 * 10 ^ 9, IdleTimeout = 300 * 10 ^ 9, ReadBufferSize = 4096,
      WriteBufferSize = 4096, MaxPacketSize = 4096\<rparr>"

record tcp_conn =
  tc_net :: net_conn
  tc_deviceID :: gostring
  tc_connected :: bool
  tc_lastActive :: go_time
  tc_attributes :: "(gostring, go_value) gomap"
  tc_cancelled :: bool

record 'app tcp_world =
  tw_conns :: "tcp_conn list"
  tw_connections :: "(gostring, nat) gomap"
  tw_rawConns :: "(nat, nat) gomap"
  tw_stats :: server_stats
  tw_cancelled :: bool
  tw_now :: go_time
  tw_app :: 'app

definition NewTCPServer :: "go_time \<Rightarrow> 'app \<Rightarrow> 'app tcp_world" where
  "NewTCPServer now app =
     \<lparr>tw_conns = [], tw_connections = [], tw_rawConns = [], tw_stats = new_stats now,
      tw_cancelled = False, tw_now = now, tw_app = app\<rparr>"

definition NewTCPConnection :: "net_conn \<Rightarrow> go_time \<Rightarrow> tcp_conn" where
  "NewTCPConnection n now =
     \<lparr>tc_net = n, tc_deviceID = [], tc_connected = True, tc_lastActive = now, tc_attributes = [],
      tc_cancelled = False\<rparr>"

definition upd_conn :: "nat \<Rightarrow> (tcp_conn \<Rightarrow> tcp_conn) \<Rightarrow> 'app tcp_world \<Rightarrow> 'app tcp_world" where
  "upd_conn c f w = w\<lparr>tw_conns := (tw_conns w)[c := f (tw_conns w ! c)]\<rparr>"

definition upd_stats :: "(server_stats \<Rightarrow> server_stats) \<Rightarrow> 'app tcp_world \<Rightarrow> 'app tcp_world" where
  "upd_stats f w = w\<lparr>tw_stats := f (tw_stats w)\<rparr>"

section \<open>Connections\<close>

definition tcp_Send :: "nat \<Rightarrow> Message option \<Rightarrow> 'app tcp_world \<Rightarrow> unit res \<times> 'app tcp_world" where
  "tcp_Send c msg w =
     (if \<not> tc_connected (tw_conns w ! c) then (Err ConnectionClosed, w)
      else
        (case snd (Encode msg) of
           Err e \<Rightarrow> (Err e, w)
         | Panic p \<Rightarrow> (Panic p, w)
         | Ok data \<Rightarrow>
             (case net_Write data (tc_net (tw_conns w ! c)) of
                (Err e, n) \<Rightarrow> (Err e, upd_conn c (tc_net_update (\<lambda>_. n)) w)
              | (Panic p, n) \<Rightarrow> (Panic p, upd_conn c (tc_net_update (\<lambda>_. n)) w)
              | (Ok _, n) \<Rightarrow>
                  (Ok (), upd_conn c (\<lambda>tc. tc\<lparr>tc_net := n, tc_lastActive := tw_now w\<rparr>)
                            (upd_stats (add_Sent 1) w)))))"

definition tcp_Close :: "nat \<Rightarrow> 'app tcp_world \<Rightarrow> unit res \<times> 'app tcp_world" where
  "tcp_Close c w =
     (if tc_connected (tw_conns w ! c)
      then (fst (net_Close (tc_net (tw_conns w ! c))),
            upd_conn c (\<lambda>tc. tc\<lparr>tc_connected := False, tc_cancelled := True, tc_net := snd (net_Close (tc_net tc))\<rparr>) w)
      else (Ok (), w))"

definition tcp_DeviceID :: "nat \<Rightarrow> 'app tcp_world \<Rightarrow> gostring" where
  "tcp_DeviceID c w = tc_deviceID (tw_conns w ! c)"

definition tcp_IsConnected :: "nat \<Rightarrow> 'app tcp_world \<Rightarrow> bool" where
  "tcp_IsConnected c w = tc_connected (tw_conns w ! c)"

definition tcp_RemoteAddr :: "nat \<Rightarrow> 'app tcp_world \<Rightarrow> gostring" where
  "tcp_RemoteAddr c w = nc_addr (tc_net (tw_conns w ! c))"

definition tcp_Set :: "nat \<Rightarrow> gostring \<Rightarrow> go_value \<Rightarrow> 'app tcp_world \<Rightarrow> 'app tcp_world" where
  "tcp_Set c key v w = upd_conn c (\<lambda>tc. tc\<lparr>tc_attributes := gm_put key v (tc_attributes tc)\<rparr>) w"

definition tcp_Get :: "nat \<Rightarrow> gostring \<Rightarrow> 'app tcp_world \<Rightarrow> go_value option" where
  "tcp_Get c key w = gm_get (tc_attributes (tw_conns w ! c)) key"

definition tcp_LastActiveTime :: "nat \<Rightarrow> 'app tcp_world \<Rightarrow> go_time" where
  "tcp_LastActiveTime c w = tc_lastActive (tw_conns w ! c)"

definition tcp_SetDeviceID :: "nat \<Rightarrow> gostring \<Rightarrow> 'app tcp_world \<Rightarrow> 'app tcp_world" where
  "tcp_SetDeviceID c deviceID w =
     (let old = tc_deviceID (tw_conns w ! c);
          w1 = upd_conn c (tc_deviceID_update (\<lambda>_. deviceID)) w
      in w1\<lparr>tw_connections := claim_device gm_put gm_cad old deviceID c (tw_connections w1)\<rparr>)"

definition tcp_ops :: "'app tcp_world conn_iface" where
  "tcp_ops = \<lparr>conn_Get = tcp_Get, conn_Set = tcp_Set, conn_DeviceID = tcp_DeviceID, conn_RemoteAddr = tcp_RemoteAddr\<rparr>"

section \<open>The server\<close>

definition tcp_GetConnection :: "gostring \<Rightarrow> 'app tcp_world \<Rightarrow> nat res" where
  "tcp_GetConnection deviceID w =
     (case gm_get (tw_connections w) deviceID of Some c \<Rightarrow> Ok c | None \<Rightarrow> Err (ConnectionNotFound deviceID))"

definition tcp_GetStats :: "'app tcp_world \<Rightarrow> ServerStats" where
  "tcp_GetStats w = stats_snapshot (tw_now w) (tw_stats w)"

text \<open>The handler for a message: the registered one, else any of the registered ones (the first that
  the iteration of the map yields, \<open>pick\<close>).\<close>

definition route :: "nat \<Rightarrow> ('k, 'h) gomap \<Rightarrow> 'k \<Rightarrow> 'h option" where
  "route pick handlers mid =
     (case gm_get handlers mid of
        Some h \<Rightarrow> Some h
      | None \<Rightarrow> if handlers = [] then None else Some (snd (handlers ! (pick mod length handlers))))"

definition tcp_dispatch ::
  "'app tcp_world server \<Rightarrow> nat \<Rightarrow> nat \<Rightarrow> Message \<Rightarrow> 'app tcp_world \<Rightarrow> outcome \<times> 'app tcp_world" where
  "tcp_dispatch srv pick c msg w =
     (case msg_id msg of
        Ok mid \<Rightarrow>
          (case route pick (sv_handlers srv) mid of
             None \<Rightarrow> (Continue, w)
           | Some h \<Rightarrow>
               (case apply_middleware (sv_middleware srv) h Background c msg w of
                  (Ok _, w1) \<Rightarrow> (Continue, w1)
                | (Err e, w1) \<Rightarrow> report_error (upd_stats (add_Error 1)) srv c e Continue w1
                | (Panic p, w1) \<Rightarrow> (Crash p, w1)))
      | Err e \<Rightarrow> (Continue, w)
      | Panic p \<Rightarrow> (Crash p, w))"

text \<open>One iteration of the loop of \<^verbatim>\<open>handleConn\<close>.\<close>

definition tcp_iter ::
  "TcpConfig \<Rightarrow> 'app tcp_world server \<Rightarrow> nat \<Rightarrow> nat \<Rightarrow> 'app tcp_world \<Rightarrow> outcome \<times> 'app tcp_world" where
  "tcp_iter cfg srv pick c w =
     (if tw_cancelled w then (Return, w)
      else
        (let (r, rd) = readMessage (MaxPacketSize cfg) (nc_reader (tc_net (tw_conns w ! c)));
             w1 = upd_conn c (tc_net_update (nc_reader_update (\<lambda>_. rd))) w
         in case r of
              Err e \<Rightarrow> if e \<noteq> IoEOF then report_error (upd_stats (add_Error 1)) srv c e Return w1 else (Return, w1)
            | Panic p \<Rightarrow> (Crash p, w1)
            | Ok msg \<Rightarrow> tcp_dispatch srv pick c msg (upd_stats (add_Received 1) w1)))"

text \<open>The part of \<^verbatim>\<open>handleConn\<close> before the loop, and the deferred functions after it.\<close>

definition tcp_start :: "'app tcp_world server \<Rightarrow> nat \<Rightarrow> 'app tcp_world \<Rightarrow> outcome \<times> 'app tcp_world" where
  "tcp_start srv c w =
     (let w1 = w\<lparr>tw_rawConns := gm_put c c (tw_rawConns w)\<rparr>;
          w2 = upd_conn c (\<lambda>tc. NewTCPConnection (tc_net tc) (tw_now w)) w1;
          w3 = upd_stats (add_Active 1) w2;
          w4 = upd_stats (add_Total 1) w3
      in case run_connect_hooks (sv_OnConnect srv) c w4 of
           (Ok _, w5) \<Rightarrow> (Continue, w5)
         | (Err e, w5) \<Rightarrow>
             (let w6 = upd_stats (add_Error 1) w5;
                  w7 = snd (tcp_Close c w6);
                  w8 = upd_stats (add_Active (- 1)) w7
              in (Return, w8\<lparr>tw_rawConns := gm_delete c (tw_rawConns w8)\<rparr>))
         | (Panic p, w5) \<Rightarrow> (Crash p, w5))"

definition tcp_cleanup :: "'app tcp_world server \<Rightarrow> nat \<Rightarrow> 'app tcp_world \<Rightarrow> outcome \<times> 'app tcp_world" where
  "tcp_cleanup srv c w =
     (case run_disconnect_hooks (sv_OnDisconnect srv) c w of
        (Some p, w1) \<Rightarrow> (Crash p, w1)
      | (None, w1) \<Rightarrow>
          (let w2 = w1\<lparr>tw_connections := release_device gm_cad (tcp_DeviceID c w1) c (tw_connections w1)\<rparr>;
               w3 = snd (tcp_Close c w2);
               w4 = upd_stats (add_Active (- 1)) w3
           in (Return, w4\<lparr>tw_rawConns := gm_delete c (tw_rawConns w4)\<rparr>)))"

text \<open>\<^verbatim>\<open>accept\<close>, one round: an accepted connection is refused when the count of active connections has
  reached the limit.\<close>

definition at_limit :: "TcpConfig \<Rightarrow> 'app tcp_world \<Rightarrow> bool" where
  "at_limit cfg w \<longleftrightarrow> 0 < MaxConnections cfg \<and> MaxConnections cfg \<le> sint (s_ActiveConnections (tw_stats w))"

text \<open>\<^verbatim>\<open>Stop\<close> up to its wait: cancel, close every raw connection, close every registered connection.\<close>

definition tcp_Stop :: "'app tcp_world \<Rightarrow> 'app tcp_world" where
  "tcp_Stop w =
     (let w1 = w\<lparr>tw_cancelled := True\<rparr>;
          w2 = foldl (\<lambda>w e. upd_conn (snd e) (\<lambda>tc. tc\<lparr>tc_net := snd (net_Close (tc_net tc))\<rparr>) w) w1 (tw_rawConns w1)
      in foldl (\<lambda>w e. snd (tcp_Close (snd e) w)) w2 (tw_connections w2))"

section \<open>Calls of the application\<close>

text \<open>
  Handlers, middleware and hooks act on the server only through the methods of \<^verbatim>\<open>Connection\<close> and
  \<^verbatim>\<open>TCPConnection\<close>; the rest of what they do is on their own state.
\<close>

datatype 'app tcp_call =
    ASend nat "Message option"
  | AClose nat
  | ASet nat gostring go_value
  | ASetDeviceID nat gostring
  | AApp "'app \<Rightarrow> 'app"

fun tcp_call_exec :: "'app tcp_call \<Rightarrow> 'app tcp_world \<Rightarrow> 'app tcp_world" where
  "tcp_call_exec (ASend c m) w = snd (tcp_Send c m w)"
| "tcp_call_exec (AClose c) w = snd (tcp_Close c w)"
| "tcp_call_exec (ASet c k v) w = tcp_Set c k v w"
| "tcp_call_exec (ASetDeviceID c d) w = tcp_SetDeviceID c d w"
| "tcp_call_exec (AApp f) w = w\<lparr>tw_app := f (tw_app w)\<rparr>"

text \<open>What code that serves the connection \<open>c\<close> may do: set no other connection's device ID. A connect
  hook sets none (the connection's clean-up is not yet deferred when it runs).\<close>

fun own_calls :: "nat \<Rightarrow> 'app tcp_call \<Rightarrow> bool" where
  "own_calls c (ASetDeviceID c' d) = (c' = c)"
| "own_calls c x = True"

fun no_claim :: "'app tcp_call \<Rightarrow> bool" where
  "no_claim (ASetDeviceID c d) = False"
| "no_claim x = True"

abbreviation tcp_server_ok :: "'app tcp_world server \<Rightarrow> bool" where
  "tcp_server_ok \<equiv> server_ok tcp_call_exec own_calls no_claim"

section \<open>The system\<close>

record 'app tcp_sys =
  sys_world :: "'app tcp_world"
  sys_phases :: "phase list"
  sys_crashed :: "go_panic option"

definition tcp_init :: "go_time \<Rightarrow> 'app \<Rightarrow> 'app tcp_sys" where
  "tcp_init now app = \<lparr>sys_world = NewTCPServer now app, sys_phases = [], sys_crashed = None\<rparr>"

definition goroutine_step :: "nat \<Rightarrow> (outcome \<Rightarrow> phase) \<Rightarrow> outcome \<times> 'app tcp_world \<Rightarrow> 'app tcp_sys \<Rightarrow> 'app tcp_sys" where
  "goroutine_step c next_phase r s =
     s\<lparr>sys_world := snd r, sys_phases := (sys_phases s)[c := next_phase (fst r)], sys_crashed := crash_of (fst r)\<rparr>"

text \<open>A connection as it is accepted.\<close>

definition accept_conn :: "net_conn \<Rightarrow> 'app tcp_sys \<Rightarrow> 'app tcp_sys" where
  "accept_conn n s =
     s\<lparr>sys_world := (sys_world s)\<lparr>tw_conns := tw_conns (sys_world s) @ [NewTCPConnection n (tw_now (sys_world s))]\<rparr>,
       sys_phases := sys_phases s @ [Spawned]\<rparr>"

inductive tcp_step :: "TcpConfig \<Rightarrow> 'app tcp_world server \<Rightarrow> 'app tcp_sys \<Rightarrow> 'app tcp_sys \<Rightarrow> bool"
  for cfg srv where
  accepted: "sys_crashed s = None \<Longrightarrow> \<not> tw_cancelled (sys_world s) \<Longrightarrow> \<not> at_limit cfg (sys_world s) \<Longrightarrow>
    \<not> nc_closed n \<Longrightarrow> tcp_step cfg srv s (accept_conn n s)"
| refused: "sys_crashed s = None \<Longrightarrow> \<not> tw_cancelled (sys_world s) \<Longrightarrow> at_limit cfg (sys_world s) \<Longrightarrow>
    tcp_step cfg srv s s"
| accept_error: "sys_crashed s = None \<Longrightarrow> \<not> tw_cancelled (sys_world s) \<Longrightarrow>
    tcp_step cfg srv s (s\<lparr>sys_world := upd_stats (add_Error 1) (sys_world s)\<rparr>)"
| start: "sys_crashed s = None \<Longrightarrow> c < length (sys_phases s) \<Longrightarrow> sys_phases s ! c = Spawned \<Longrightarrow>
    tcp_step cfg srv s (goroutine_step c after_start (tcp_start srv c (sys_world s)) s)"
| iter: "sys_crashed s = None \<Longrightarrow> c < length (sys_phases s) \<Longrightarrow> sys_phases s ! c = Reading \<Longrightarrow>
    tcp_step cfg srv s (goroutine_step c after_iter (tcp_iter cfg srv pick c (sys_world s)) s)"
| cleanup: "sys_crashed s = None \<Longrightarrow> c < length (sys_phases s) \<Longrightarrow> sys_phases s ! c = Leaving \<Longrightarrow>
    tcp_step cfg srv s (goroutine_step c after_cleanup (tcp_cleanup srv c (sys_world s)) s)"
| app: "sys_crashed s = None \<Longrightarrow> no_claim x \<Longrightarrow>
    tcp_step cfg srv s (s\<lparr>sys_world := tcp_call_exec x (sys_world s)\<rparr>)"
| stop: "sys_crashed s = None \<Longrightarrow> tcp_step cfg srv s (s\<lparr>sys_world := tcp_Stop (sys_world s)\<rparr>)"
| clock: "0 \<le> d \<Longrightarrow> tcp_step cfg srv s (s\<lparr>sys_world := (sys_world s)\<lparr>tw_now := tw_now (sys_world s) + d\<rparr>\<rparr>)"

inductive tcp_reachable :: "TcpConfig \<Rightarrow> 'app tcp_world server \<Rightarrow> 'app tcp_sys \<Rightarrow> bool" for cfg srv where
  init: "tcp_reachable cfg srv (tcp_init now app)"
| step: "tcp_reachable cfg srv s \<Longrightarrow> tcp_step cfg srv s s' \<Longrightarrow> tcp_reachable cfg srv s'"

inductive_cases tcp_stepE: "tcp_step cfg srv s s'"

text \<open>No step takes a goroutine back, and none takes one away.\<close>

lemma goroutine_advances: "ph ! c \<le> p \<Longrightarrow> list_all2 (\<le>) ph (ph[c := p])"
  for ph :: "phase list"
  by (cases "c < length ph") (auto simp: list_all2_conv_all_nth nth_list_update)

lemma tcp_step_advances:
  assumes "tcp_step cfg srv s s'"
  shows "list_all2 (\<le>) (sys_phases s) (take (length (sys_phases s)) (sys_phases s'))"
  using assms
  by (cases rule: tcp_stepE)
    (auto simp: accept_conn_def goroutine_step_def goroutine_advances intro: list.rel_refl)

section \<open>What the operations change\<close>

text \<open>The parts of the world the invariants speak of, and how each operation acts on them.\<close>

definition devices_of :: "'app tcp_world \<Rightarrow> nat \<Rightarrow> gostring" where
  "devices_of w c = (if c < length (tw_conns w) then tc_deviceID (tw_conns w ! c) else [])"

lemma upd_conn_simps [simp]:
  "tw_connections (upd_conn c f w) = tw_connections w" "tw_rawConns (upd_conn c f w) = tw_rawConns w"
  "tw_stats (upd_conn c f w) = tw_stats w" "tw_cancelled (upd_conn c f w) = tw_cancelled w"
  "tw_now (upd_conn c f w) = tw_now w" "tw_app (upd_conn c f w) = tw_app w"
  "length (tw_conns (upd_conn c f w)) = length (tw_conns w)"
  by (simp_all add: upd_conn_def)

lemma upd_conn_nth: "c' < length (tw_conns w) \<Longrightarrow>
    tw_conns (upd_conn c f w) ! c' = (if c' = c then f (tw_conns w ! c) else tw_conns w ! c')"
  by (simp add: upd_conn_def nth_list_update)

lemma upd_stats_simps [simp]:
  "tw_connections (upd_stats f w) = tw_connections w" "tw_rawConns (upd_stats f w) = tw_rawConns w"
  "tw_conns (upd_stats f w) = tw_conns w" "tw_cancelled (upd_stats f w) = tw_cancelled w"
  "tw_now (upd_stats f w) = tw_now w" "tw_app (upd_stats f w) = tw_app w"
  "tw_stats (upd_stats f w) = f (tw_stats w)"
  by (simp_all add: upd_stats_def)

definition conn_ok :: "phase \<Rightarrow> tcp_conn \<Rightarrow> bool" where
  "conn_ok p tc \<longleftrightarrow> (p = Finished \<longrightarrow> \<not> tc_connected tc) \<and> (\<not> tc_connected tc \<longrightarrow> nc_closed (tc_net tc))"

text \<open>The registry, the raw connections and the counters against the goroutines.\<close>

definition registry_ok :: "'app tcp_world \<Rightarrow> phase list \<Rightarrow> bool" where
  "registry_ok w ph \<longleftrightarrow>
     gm_wf (tw_connections w) \<and> owned (devices_of w) (gm_get (tw_connections w)) \<and>
     (\<forall>k c. gm_get (tw_connections w) k = Some c \<longrightarrow> c < length ph \<and> live (ph ! c))"

definition raw_ok :: "'app tcp_world \<Rightarrow> phase list \<Rightarrow> bool" where
  "raw_ok w ph \<longleftrightarrow>
     gm_wf (tw_rawConns w) \<and>
     (\<forall>c. gm_get (tw_rawConns w) c = (if c < length ph \<and> live (ph ! c) then Some c else None))"

definition counts_ok :: "'app tcp_world \<Rightarrow> phase list \<Rightarrow> bool" where
  "counts_ok w ph \<longleftrightarrow>
     s_ActiveConnections (tw_stats w) = of_nat (length (filter live ph)) \<and>
     s_TotalConnections (tw_stats w) = of_nat (length (filter (\<lambda>p. p \<noteq> Spawned) ph))"

definition conns_ok :: "'app tcp_world \<Rightarrow> phase list \<Rightarrow> bool" where
  "conns_ok w ph \<longleftrightarrow> length ph = length (tw_conns w) \<and> list_all2 conn_ok ph (tw_conns w)"

definition tcp_inv :: "'app tcp_world \<Rightarrow> phase list \<Rightarrow> bool" where
  "tcp_inv w ph \<longleftrightarrow> registry_ok w ph \<and> raw_ok w ph \<and> counts_ok w ph \<and> conns_ok w ph"

lemma conns_ok_upd:
  assumes "conns_ok w ph" and "\<And>tc. c < length ph \<Longrightarrow> conn_ok (ph ! c) tc \<Longrightarrow> conn_ok p (f tc)"
  shows "conns_ok (upd_conn c f w) (ph[c := p])"
proof (cases "c < length ph")
  case True
  with assms show ?thesis
    by (auto simp: conns_ok_def upd_conn_def intro!: list_all2_update_cong dest: list_all2_nthD)
next
  case False
  with assms(1) show ?thesis by (simp add: conns_ok_def upd_conn_def list_update_beyond)
qed

lemma conns_ok_upd_same:
  assumes "conns_ok w ph" and "\<And>tc. c < length ph \<Longrightarrow> conn_ok (ph ! c) tc \<Longrightarrow> conn_ok (ph ! c) (f tc)"
  shows "conns_ok (upd_conn c f w) ph"
  using conns_ok_upd [OF assms(1), of c "ph ! c" f] assms(2) by simp

lemma devices_of_upd [simp]:
  assumes "\<And>tc. tc_deviceID (f tc) = tc_deviceID tc"
  shows "devices_of (upd_conn c f w) = devices_of w"
  by (rule ext) (simp add: devices_of_def upd_conn_nth assms)

lemma tcp_inv_upd:
  assumes "tcp_inv w ph" and "\<And>tc. tc_deviceID (f tc) = tc_deviceID tc"
    and "\<And>p tc. conn_ok p tc \<Longrightarrow> conn_ok p (f tc)"
  shows "tcp_inv (upd_conn c f w) ph"
  using assms conns_ok_upd_same [of w ph c f]
  by (simp add: tcp_inv_def registry_ok_def raw_ok_def counts_ok_def)

lemma devices_of_cong: "tw_conns w' = tw_conns w \<Longrightarrow> devices_of w' = devices_of w"
  by (rule ext) (simp add: devices_of_def)

text \<open>The invariant speaks of the connections, the two maps and two of the counters.\<close>

lemma tcp_inv_frame:
  assumes "tcp_inv w ph" and "tw_conns w' = tw_conns w" and "tw_connections w' = tw_connections w"
    and "tw_rawConns w' = tw_rawConns w"
    and "s_ActiveConnections (tw_stats w') = s_ActiveConnections (tw_stats w)"
    and "s_TotalConnections (tw_stats w') = s_TotalConnections (tw_stats w)"
  shows "tcp_inv w' ph"
  using assms(1)
  unfolding tcp_inv_def registry_ok_def raw_ok_def counts_ok_def conns_ok_def
    devices_of_cong [OF assms(2)] assms(2-6) .

lemma tcp_inv_stats:
  assumes "tcp_inv w ph" and "\<And>s. s_ActiveConnections (f s) = s_ActiveConnections s"
    and "\<And>s. s_TotalConnections (f s) = s_TotalConnections s"
  shows "tcp_inv (upd_stats f w) ph"
  by (rule tcp_inv_frame [OF assms(1)]) (simp_all add: assms)

lemma conn_ok_net:
  "conn_ok p tc \<Longrightarrow> (nc_closed (tc_net tc) \<Longrightarrow> nc_closed n) \<Longrightarrow> conn_ok p (tc\<lparr>tc_net := n\<rparr>)"
  by (auto simp: conn_ok_def)

lemma conns_ok_nth: "conns_ok w ph \<Longrightarrow> c < length ph \<Longrightarrow> conn_ok (ph ! c) (tw_conns w ! c)"
  by (simp add: conns_ok_def list_all2_nthD)

subsection \<open>The calls\<close>

lemma tcp_inv_upd_at:
  assumes "tcp_inv w ph" and "\<And>tc. tc_deviceID (f tc) = tc_deviceID tc"
    and "c < length ph \<Longrightarrow> conn_ok (ph ! c) (f (tw_conns w ! c))"
  shows "tcp_inv (upd_conn c f w) ph"
proof -
  have "conns_ok (upd_conn c f w) ph"
    using assms(1,3) unfolding tcp_inv_def conns_ok_def
    by (cases "c < length (tw_conns w)")
      (auto simp: upd_conn_def list_all2_conv_all_nth nth_list_update)
  with assms(1,2) show ?thesis
    by (simp add: tcp_inv_def registry_ok_def raw_ok_def counts_ok_def)
qed

lemma tcp_inv_Send: "tcp_inv w ph \<Longrightarrow> tcp_inv (snd (tcp_Send c m w)) ph"
proof -
  assume inv: "tcp_inv w ph"
  have net: "tcp_inv (upd_conn c (tc_net_update (\<lambda>_. snd (net_Write d (tc_net (tw_conns w ! c))))) w) ph" for d
    using inv by (intro tcp_inv_upd_at) (auto simp: tcp_inv_def dest!: conns_ok_nth intro: conn_ok_net)
  have sent: "tcp_inv (upd_conn c (\<lambda>tc. tc\<lparr>tc_net := snd (net_Write d (tc_net (tw_conns w ! c))), tc_lastActive := t\<rparr>)
      (upd_stats (add_Sent 1) w)) ph" for d t
    using tcp_inv_stats [OF inv, of "add_Sent 1"]
    by (intro tcp_inv_upd_at) (auto simp: tcp_inv_def conn_ok_def dest!: conns_ok_nth)
  show ?thesis
    using inv net sent by (auto simp: tcp_Send_def split: go.splits prod.splits) (metis snd_conv)+
qed

lemma conn_ok_closed: "conn_ok p (tc\<lparr>tc_connected := False, tc_cancelled := True, tc_net := snd (net_Close n)\<rparr>)"
  by (simp add: conn_ok_def)

lemma tcp_inv_Close: "tcp_inv w ph \<Longrightarrow> tcp_inv (snd (tcp_Close c w)) ph"
  by (simp add: tcp_Close_def tcp_inv_upd conn_ok_closed)

lemma tcp_inv_Set: "tcp_inv w ph \<Longrightarrow> tcp_inv (tcp_Set c k v w) ph"
  unfolding tcp_Set_def by (rule tcp_inv_upd) (simp_all add: conn_ok_def)

lemma devices_of_SetDeviceID:
  "c < length (tw_conns w) \<Longrightarrow> devices_of (tcp_SetDeviceID c d w) = (devices_of w)(c := d)"
  by (rule ext) (simp add: devices_of_def tcp_SetDeviceID_def Let_def upd_conn_nth)

lemma tcp_inv_SetDeviceID:
  assumes inv: "tcp_inv w ph" and c: "c < length ph" "live (ph ! c)"
  shows "tcp_inv (tcp_SetDeviceID c d w) ph"
proof -
  let ?m = "tw_connections w" and ?old = "tc_deviceID (tw_conns w ! c)"
  have len: "c < length (tw_conns w)"
    using inv c by (simp add: tcp_inv_def conns_ok_def)
  then have old: "devices_of w c = ?old" by (simp add: devices_of_def)
  have wf: "gm_wf ?m" "owned (devices_of w) (gm_get ?m)"
    and lv: "\<And>k c'. gm_get ?m k = Some c' \<Longrightarrow> c' < length ph \<and> live (ph ! c')"
    using inv by (auto simp: tcp_inv_def registry_ok_def)
  have m': "tw_connections (tcp_SetDeviceID c d w) = claim_device gm_put gm_cad ?old d c ?m"
    by (simp add: tcp_SetDeviceID_def Let_def)
  have "registry_ok (tcp_SetDeviceID c d w) ph"
    unfolding registry_ok_def m' devices_of_SetDeviceID [OF len]
    using gmc.invar_claim [OF wf(1), of ?old d c] gmc.owned_claim [OF wf, of c d] c lv
    by (auto simp: old gmc.lookup_claim [OF wf(1)] split: if_splits)
  moreover have "conns_ok (tcp_SetDeviceID c d w) ph"
    using inv conns_ok_upd_same [of w ph c "tc_deviceID_update (\<lambda>_. d)"]
    by (simp add: tcp_inv_def tcp_SetDeviceID_def Let_def conn_ok_def conns_ok_def)
  ultimately show ?thesis
    using inv by (simp add: tcp_inv_def tcp_SetDeviceID_def Let_def raw_ok_def counts_ok_def)
qed

lemma tcp_inv_App: "tcp_inv w ph \<Longrightarrow> tcp_inv (w\<lparr>tw_app := a\<rparr>) ph"
  by (erule tcp_inv_frame) simp_all

lemma tcp_inv_call:
  assumes "tcp_inv w ph" and "own_calls c x" and "c < length ph" and "live (ph ! c)"
  shows "tcp_inv (tcp_call_exec x w) ph"
  using assms by (cases x) (simp_all add: tcp_inv_Send tcp_inv_Close tcp_inv_Set tcp_inv_SetDeviceID tcp_inv_App)

lemma tcp_inv_call_no_claim: "tcp_inv w ph \<Longrightarrow> no_claim x \<Longrightarrow> tcp_inv (tcp_call_exec x w) ph"
  by (cases x) (simp_all add: tcp_inv_Send tcp_inv_Close tcp_inv_Set tcp_inv_App)

lemma tcp_inv_by_calls:
  "by_calls tcp_call_exec (own_calls c) w w' \<Longrightarrow> tcp_inv w ph \<Longrightarrow> c < length ph \<Longrightarrow> live (ph ! c) \<Longrightarrow> tcp_inv w' ph"
  by (erule by_calls_invariant [where P = "\<lambda>w. tcp_inv w ph"]) (simp_all add: tcp_inv_call)

lemma tcp_inv_by_no_claim: "by_calls tcp_call_exec no_claim w w' \<Longrightarrow> tcp_inv w ph \<Longrightarrow> tcp_inv w' ph"
  by (erule by_calls_invariant [where P = "\<lambda>w. tcp_inv w ph"]) (simp_all add: tcp_inv_call_no_claim)

lemma no_claim_connections: "by_calls tcp_call_exec no_claim w w' \<Longrightarrow> tw_connections w' = tw_connections w"
proof (erule by_calls_invariant [where P = "\<lambda>v. tw_connections v = tw_connections w"])
  show "tw_connections (tcp_call_exec x v) = tw_connections w"
    if "no_claim x" "tw_connections v = tw_connections w" for x v
    using that by (cases x) (auto simp: tcp_Send_def tcp_Close_def tcp_Set_def split: go.splits prod.splits)
qed simp

subsection \<open>The goroutines\<close>

lemma report_error_inv:
  assumes "tcp_server_ok srv" and "tcp_inv w ph"
  shows "tcp_inv (snd (report_error (upd_stats (add_Error 1)) srv c e out w)) ph"
    and "fst (report_error (upd_stats (add_Error 1)) srv c e out w) = out \<or> (\<exists>p. fst (report_error (upd_stats (add_Error 1)) srv c e out w) = Crash p)"
proof -
  have "by_calls tcp_call_exec no_claim (upd_stats (add_Error 1) w)
      (snd (run_error_hooks (sv_OnError srv) c e (upd_stats (add_Error 1) w)))"
    using assms(1) by (intro run_error_hooks_calls) (simp add: server_ok_def)
  moreover have "tcp_inv (upd_stats (add_Error 1) w) ph"
    by (rule tcp_inv_stats [OF assms(2)]) simp_all
  ultimately have "tcp_inv (snd (run_error_hooks (sv_OnError srv) c e (upd_stats (add_Error 1) w))) ph"
    by (rule tcp_inv_by_no_claim)
  then show "tcp_inv (snd (report_error (upd_stats (add_Error 1)) srv c e out w)) ph"
    by (auto simp: report_error_def split: prod.splits option.splits)
  show "fst (report_error (upd_stats (add_Error 1)) srv c e out w) = out \<or> (\<exists>p. fst (report_error (upd_stats (add_Error 1)) srv c e out w) = Crash p)"
    by (simp add: report_error_def split: prod.splits option.splits)
qed

lemma route_in: "route pick hs mid = Some h \<Longrightarrow> h \<in> snd ` set hs"
proof -
  assume r: "route pick hs mid = Some h"
  have "snd (hs ! (pick mod length hs)) \<in> snd ` set hs" if "hs \<noteq> []"
    using that by (intro imageI nth_mem) simp
  with r show ?thesis
    by (auto simp: route_def gm_get_map_of split: option.splits if_splits dest: map_of_SomeD intro: rev_image_eqI)
qed

lemma tcp_dispatch_inv:
  assumes "tcp_server_ok srv" and "tcp_inv w ph" and "c < length ph" and "live (ph ! c)"
  shows "tcp_inv (snd (tcp_dispatch srv pick c msg w)) ph"
proof -
  have "tcp_inv (snd (apply_middleware (sv_middleware srv) h Background c msg w)) ph"
    if "route pick (sv_handlers srv) mid = Some h" for mid h
  proof (rule tcp_inv_by_calls [OF _ assms(2-4)])
    show "by_calls tcp_call_exec (own_calls c) w (snd (apply_middleware (sv_middleware srv) h Background c msg w))"
      using assms(1) route_in [OF that] unfolding server_ok_def by blast
  qed
  note handled = this
  show ?thesis
  proof (cases "msg_id msg")
    case (Ok mid)
    show ?thesis
    proof (cases "route pick (sv_handlers srv) mid")
      case None
      with Ok assms(2) show ?thesis by (simp add: tcp_dispatch_def)
    next
      case (Some h)
      obtain r w1 where r: "apply_middleware (sv_middleware srv) h Background c msg w = (r, w1)" by fastforce
      with handled [OF Some] have "tcp_inv w1 ph" by simp
      with Ok Some r report_error_inv(1) [OF assms(1)] show ?thesis
        by (cases r) (simp_all add: tcp_dispatch_def)
    qed
  qed (use assms(2) in \<open>simp_all add: tcp_dispatch_def\<close>)
qed

lemma tcp_iter_inv:
  assumes "tcp_server_ok srv" and "tcp_inv w ph" and "c < length ph" and "live (ph ! c)"
  shows "tcp_inv (snd (tcp_iter cfg srv pick c w)) ph"
proof -
  have rd: "tcp_inv (upd_conn c (tc_net_update (nc_reader_update (\<lambda>_. r))) w) ph" for r
    by (rule tcp_inv_upd [OF assms(2)]) (simp_all add: conn_ok_def)
  then have "tcp_inv (upd_stats (add_Received 1) (upd_conn c (tc_net_update (nc_reader_update (\<lambda>_. r))) w)) ph" for r
    by (rule tcp_inv_stats) simp_all
  with rd assms show ?thesis
    by (auto simp: tcp_iter_def Let_def report_error_inv tcp_dispatch_inv split: prod.splits go.splits)
qed

text \<open>A goroutine starts: its connection becomes live.\<close>

lemma tcp_inv_enter:
  assumes inv: "tcp_inv w ph" and c: "c < length ph" "ph ! c = Spawned"
  shows "tcp_inv (upd_stats (add_Total 1) (upd_stats (add_Active 1)
      (upd_conn c (\<lambda>tc. NewTCPConnection (tc_net tc) (tw_now w)) (w\<lparr>tw_rawConns := gm_put c c (tw_rawConns w)\<rparr>))))
    (ph[c := Reading])" (is "tcp_inv ?w _")
proof -
  have none: "gm_get (tw_connections w) k \<noteq> Some c" for k
    using inv c unfolding tcp_inv_def registry_ok_def by (metis live_simps(3))
  have len: "length (tw_conns w) = length ph"
    using inv by (simp add: tcp_inv_def conns_ok_def)
  have dev: "devices_of ?w c' = devices_of w c'" if "c' \<noteq> c" for c'
    using that by (simp add: devices_of_def upd_conn_def)
  have "owned (devices_of ?w) (gm_get (tw_connections w))"
    using inv none dev unfolding tcp_inv_def registry_ok_def owned_def by metis
  moreover have "\<forall>k c'. gm_get (tw_connections w) k = Some c' \<longrightarrow> c' < length ph \<and> live (ph[c := Reading] ! c')"
    using inv none unfolding tcp_inv_def registry_ok_def by (metis nth_list_update_neq)
  ultimately have "registry_ok ?w (ph[c := Reading])"
    using inv by (simp add: tcp_inv_def registry_ok_def)
  moreover have "raw_ok ?w (ph[c := Reading])"
    using inv c by (auto simp: tcp_inv_def raw_ok_def gm_get_put nth_list_update)
  moreover have "counts_ok ?w (ph[c := Reading])"
    using inv c by (simp add: tcp_inv_def counts_ok_def filter_phase_update)
  moreover have "conns_ok ?w (ph[c := Reading])"
  proof -
    have "conns_ok (upd_conn c (\<lambda>tc. NewTCPConnection (tc_net tc) (tw_now w)) w) (ph[c := Reading])"
      using inv by (intro conns_ok_upd) (simp_all add: tcp_inv_def conn_ok_def NewTCPConnection_def)
    then show ?thesis by (simp add: conns_ok_def upd_conn_def)
  qed
  ultimately show ?thesis by (simp add: tcp_inv_def)
qed

text \<open>A goroutine returns: its connection is closed, counted off and in neither map.\<close>

lemma tcp_inv_leave:
  assumes inv: "tcp_inv w ph" and c: "c < length ph" "live (ph ! c)"
    and none: "\<And>k. gm_get (tw_connections w) k \<noteq> Some c"
  shows "tcp_inv ((upd_stats (add_Active (- 1)) (snd (tcp_Close c w)))\<lparr>tw_rawConns := gm_delete c (tw_rawConns w)\<rparr>)
    (ph[c := Finished])" (is "tcp_inv ?w _")
proof -
  have len: "length (tw_conns w) = length ph"
    using inv by (simp add: tcp_inv_def conns_ok_def)
  have same: "tw_connections ?w = tw_connections w" "devices_of ?w = devices_of w"
    using devices_of_upd [of "\<lambda>tc. tc\<lparr>tc_connected := False, tc_cancelled := True, tc_net := snd (net_Close (tc_net tc))\<rparr>" c w]
      devices_of_cong [of ?w "snd (tcp_Close c w)"]
    by (simp_all add: tcp_Close_def)
  have "registry_ok ?w (ph[c := Finished])"
    using inv none unfolding tcp_inv_def registry_ok_def same
    by (metis length_list_update nth_list_update_neq)
  moreover have "raw_ok ?w (ph[c := Finished])"
    using inv c by (auto simp: tcp_inv_def raw_ok_def gm_get_delete nth_list_update)
  moreover have "counts_ok ?w (ph[c := Finished])"
    using inv c by (auto simp: tcp_inv_def counts_ok_def filter_phase_update tcp_Close_def)
  moreover have "conns_ok ?w (ph[c := Finished])"
  proof (cases "tc_connected (tw_conns w ! c)")
    case True
    have "conns_ok (upd_conn c (\<lambda>tc. tc\<lparr>tc_connected := False, tc_cancelled := True, tc_net := snd (net_Close (tc_net tc))\<rparr>) w)
        (ph[c := Finished])"
      using inv by (intro conns_ok_upd) (simp_all add: tcp_inv_def conn_ok_def)
    with True show ?thesis by (simp add: conns_ok_def tcp_Close_def)
  next
    case False
    have "nc_closed (tc_net (tw_conns w ! c))"
      using inv c False by (auto simp: tcp_inv_def conn_ok_def dest: conns_ok_nth)
    with False inv c show ?thesis
      by (auto simp: tcp_inv_def conns_ok_def conn_ok_def tcp_Close_def list_all2_conv_all_nth nth_list_update)
  qed
  ultimately show ?thesis by (simp add: tcp_inv_def)
qed

lemma tcp_start_inv:
  assumes ok: "tcp_server_ok srv" and inv: "tcp_inv w ph" and c: "c < length ph" "ph ! c = Spawned"
  shows "tcp_inv (snd (tcp_start srv c w)) (ph[c := after_start (fst (tcp_start srv c w))])"
proof -
  let ?w4 = "upd_stats (add_Total 1) (upd_stats (add_Active 1)
      (upd_conn c (\<lambda>tc. NewTCPConnection (tc_net tc) (tw_now w)) (w\<lparr>tw_rawConns := gm_put c c (tw_rawConns w)\<rparr>)))"
  let ?ph = "ph[c := Reading]"
  obtain r w5 where r: "run_connect_hooks (sv_OnConnect srv) c ?w4 = (r, w5)" by fastforce
  have "by_calls tcp_call_exec no_claim ?w4 (snd (run_connect_hooks (sv_OnConnect srv) c ?w4))"
    using ok by (intro run_connect_hooks_calls) (simp add: server_ok_def)
  then have calls: "by_calls tcp_call_exec no_claim ?w4 w5" by (simp add: r)
  have inv5: "tcp_inv w5 ?ph"
    by (rule tcp_inv_by_no_claim [OF calls tcp_inv_enter [OF inv c]])
  show ?thesis
  proof (cases r)
    case (Err e)
    have none: "gm_get (tw_connections w5) k \<noteq> Some c" for k
      using no_claim_connections [OF calls] inv c unfolding tcp_inv_def registry_ok_def
      by (simp, metis live_simps(3))
    have inv6: "tcp_inv (upd_stats (add_Error 1) w5) ?ph"
      by (rule tcp_inv_stats [OF inv5]) simp_all
    have "tw_rawConns (snd (tcp_Close c v)) = tw_rawConns v" for v :: "'a tcp_world"
      by (simp add: tcp_Close_def)
    with Err tcp_inv_leave [OF inv6, of c] none c show ?thesis
      by (simp add: tcp_start_def Let_def r)
  qed (use inv5 in \<open>simp_all add: tcp_start_def Let_def r\<close>)
qed

lemma tcp_cleanup_connections:
  assumes ok: "tcp_server_ok srv" and inv: "tcp_inv w ph" and c: "c < length ph"
    and ended: "tcp_cleanup srv c w = (Return, w')"
  shows "gm_get (tw_connections w') k =
    (if gm_get (tw_connections w) k = Some c then None else gm_get (tw_connections w) k)"
proof -
  obtain r w1 where r: "run_disconnect_hooks (sv_OnDisconnect srv) c w = (r, w1)" by fastforce
  have calls: "by_calls tcp_call_exec no_claim w w1"
    using run_disconnect_hooks_calls [of "sv_OnDisconnect srv" tcp_call_exec no_claim c w] ok by (simp add: server_ok_def r)
  have inv1: "tcp_inv w1 ph" by (rule tcp_inv_by_no_claim [OF calls inv])
  then have reg: "gm_wf (tw_connections w1)" "owned (devices_of w1) (gm_get (tw_connections w1))"
    and dev: "devices_of w1 c = tcp_DeviceID c w1"
    using c by (simp_all add: tcp_inv_def registry_ok_def conns_ok_def devices_of_def tcp_DeviceID_def)
  have "tw_connections (snd (tcp_Close c v)) = tw_connections v" for v :: "'a tcp_world"
    by (simp add: tcp_Close_def)
  with ended have "tw_connections w' = release_device gm_cad (tcp_DeviceID c w1) c (tw_connections w1)"
    by (cases r) (auto simp: tcp_cleanup_def Let_def r)
  then show ?thesis
    using gmc.release_exact [OF reg, of c k] no_claim_connections [OF calls] by (simp add: dev)
qed

lemma tcp_cleanup_inv:
  assumes ok: "tcp_server_ok srv" and inv: "tcp_inv w ph" and c: "c < length ph" "ph ! c = Leaving"
  shows "tcp_inv (snd (tcp_cleanup srv c w)) (ph[c := after_cleanup (fst (tcp_cleanup srv c w))])"
proof -
  obtain r w1 where r: "run_disconnect_hooks (sv_OnDisconnect srv) c w = (r, w1)" by fastforce
  have "by_calls tcp_call_exec no_claim w (snd (run_disconnect_hooks (sv_OnDisconnect srv) c w))"
    using ok by (intro run_disconnect_hooks_calls) (simp add: server_ok_def)
  then have inv1: "tcp_inv w1 ph"
    using tcp_inv_by_no_claim [OF _ inv] by (simp add: r)
  let ?m = "release_device gm_cad (tcp_DeviceID c w1) c (tw_connections w1)"
  let ?w2 = "w1\<lparr>tw_connections := ?m\<rparr>"
  have reg: "gm_wf (tw_connections w1)" "owned (devices_of w1) (gm_get (tw_connections w1))"
    using inv1 by (simp_all add: tcp_inv_def registry_ok_def)
  have dev: "devices_of w1 c = tcp_DeviceID c w1"
    using inv1 c by (simp add: tcp_inv_def conns_ok_def devices_of_def tcp_DeviceID_def)
  have m: "gm_get ?m k = (if gm_get (tw_connections w1) k = Some c then None else gm_get (tw_connections w1) k)" for k
    using gmc.release_exact [OF reg, of c k] by (simp add: dev)
  have "devices_of ?w2 = devices_of w1" by (rule devices_of_cong) simp
  then have inv2: "tcp_inv ?w2 ph"
    using inv1 reg m gmc.invar_release [OF reg(1)]
    by (auto simp: tcp_inv_def registry_ok_def raw_ok_def counts_ok_def conns_ok_def owned_def split: if_splits)
  have none: "gm_get (tw_connections ?w2) k \<noteq> Some c" for k
    by (simp add: m)
  have raw: "tw_rawConns (snd (tcp_Close c v)) = tw_rawConns v" for v :: "'a tcp_world"
    by (simp add: tcp_Close_def)
  show ?thesis
  proof (cases r)
    case None
    with tcp_inv_leave [OF inv2 c(1) _ none] c raw show ?thesis
      by (simp add: tcp_cleanup_def Let_def r)
  next
    case (Some p)
    from c(2) have "ph[c := Leaving] = ph" by (metis list_update_id)
    with Some inv1 show ?thesis by (simp add: tcp_cleanup_def r)
  qed
qed

lemma tcp_inv_fold:
  assumes "tcp_inv w ph" and "\<And>v e. tcp_inv v ph \<Longrightarrow> tcp_inv (f v e) ph"
  shows "tcp_inv (foldl f w es) ph"
  using assms by (induction es arbitrary: w) simp_all

lemma tcp_Stop_inv: "tcp_inv w ph \<Longrightarrow> tcp_inv (tcp_Stop w) ph"
proof -
  assume inv: "tcp_inv w ph"
  have base: "tcp_inv (w\<lparr>tw_cancelled := True\<rparr>) ph"
    by (rule tcp_inv_frame [OF inv]) simp_all
  have closing: "tcp_inv (foldl (\<lambda>w e. upd_conn (snd e) (\<lambda>tc. tc\<lparr>tc_net := snd (net_Close (tc_net tc))\<rparr>) w)
      (w\<lparr>tw_cancelled := True\<rparr>) es) ph" for es :: "(nat \<times> nat) list"
    by (rule tcp_inv_fold [OF base], rule tcp_inv_upd) (simp_all add: conn_ok_def)
  show "tcp_inv (tcp_Stop w) ph"
    unfolding tcp_Stop_def Let_def by (rule tcp_inv_fold [OF closing], erule tcp_inv_Close)
qed

lemma tcp_inv_accept:
  assumes "tcp_inv (sys_world s) (sys_phases s)"
  shows "tcp_inv (sys_world (accept_conn n s)) (sys_phases (accept_conn n s))"
proof -
  let ?w = "sys_world s" and ?ph = "sys_phases s"
  let ?w' = "?w\<lparr>tw_conns := tw_conns ?w @ [NewTCPConnection n (tw_now ?w)]\<rparr>"
  have len: "length ?ph = length (tw_conns ?w)"
    using assms by (simp add: tcp_inv_def conns_ok_def)
  have "devices_of ?w' = devices_of ?w"
    by (rule ext) (auto simp: devices_of_def nth_append NewTCPConnection_def less_Suc_eq)
  then have "registry_ok ?w' (?ph @ [Spawned])"
    using assms by (auto simp: tcp_inv_def registry_ok_def nth_append) (metis less_SucI)+
  moreover have "raw_ok ?w' (?ph @ [Spawned])"
    using assms by (auto simp: tcp_inv_def raw_ok_def nth_append less_Suc_eq)
  moreover have "counts_ok ?w' (?ph @ [Spawned])"
    using assms by (simp add: tcp_inv_def counts_ok_def)
  moreover have "conns_ok ?w' (?ph @ [Spawned])"
    using assms by (simp add: tcp_inv_def conns_ok_def list_all2_appendI conn_ok_def NewTCPConnection_def)
  ultimately show ?thesis by (simp add: accept_conn_def tcp_inv_def)
qed

lemma tcp_inv_step:
  assumes "tcp_server_ok srv" and "tcp_step cfg srv s s'" and "tcp_inv (sys_world s) (sys_phases s)"
  shows "tcp_inv (sys_world s') (sys_phases s')"
  using assms(2)
proof cases
  case (accepted n)
  with tcp_inv_accept [OF assms(3)] show ?thesis by simp
next
  case accept_error
  with tcp_inv_stats [OF assms(3), of "add_Error 1"] show ?thesis by simp
next
  case (start c)
  with tcp_start_inv [OF assms(1,3), of c] show ?thesis by (simp add: goroutine_step_def)
next
  case (iter c pick)
  let ?r = "tcp_iter cfg srv pick c (sys_world s)"
  have inv: "tcp_inv (snd ?r) (sys_phases s)"
    using tcp_iter_inv [OF assms(1,3)] iter by simp
  have "tcp_inv w (ph[c := p])" if "tcp_inv w ph" "c < length ph" "ph ! c = Reading" "live p" for w :: "'a tcp_world" and ph p
  proof -
    have "live (ph[c := p] ! c') = live (ph ! c')" "(ph[c := p] ! c' = Finished) = (ph ! c' = Finished)"
      if "c' < length ph" for c'
      using that \<open>ph ! c = Reading\<close> \<open>live p\<close> by (cases "c' = c"; auto simp: live_def)+
    then have "registry_ok w (ph[c := p])" "raw_ok w (ph[c := p])" "conns_ok w (ph[c := p])"
      using that(1) by (auto simp: tcp_inv_def registry_ok_def raw_ok_def conns_ok_def list_all2_conv_all_nth conn_ok_def)
    moreover have "counts_ok w (ph[c := p])"
      using that by (auto simp: tcp_inv_def counts_ok_def filter_phase_update live_def)
    ultimately show ?thesis by (simp add: tcp_inv_def)
  qed
  from this [OF inv, of "after_iter (fst ?r)"] iter show ?thesis
    by (cases "fst ?r") (simp_all add: goroutine_step_def)
next
  case (cleanup c)
  with tcp_cleanup_inv [OF assms(1,3), of c] show ?thesis by (simp add: goroutine_step_def)
next
  case (app x)
  with tcp_inv_call_no_claim [OF assms(3)] show ?thesis by simp
next
  case stop
  with tcp_Stop_inv [OF assms(3)] show ?thesis by simp
next
  case (clock d)
  have "tcp_inv ((sys_world s)\<lparr>tw_now := tw_now (sys_world s) + d\<rparr>) (sys_phases s)"
    by (rule tcp_inv_frame [OF assms(3)]) simp_all
  with clock show ?thesis by simp
qed (use assms(3) in simp)

lemma tcp_inv_init: "tcp_inv (NewTCPServer now app) []"
  by (simp add: tcp_inv_def registry_ok_def raw_ok_def counts_ok_def conns_ok_def NewTCPServer_def
      new_stats_def owned_def)

lemma tcp_reachable_inv:
  "tcp_reachable cfg srv s \<Longrightarrow> tcp_server_ok srv \<Longrightarrow> tcp_inv (sys_world s) (sys_phases s)"
  by (induction rule: tcp_reachable.induct) (auto simp: tcp_init_def tcp_inv_init intro: tcp_inv_step)

section \<open>After Stop\<close>

lemma tcp_call_cancelled [simp]: "tw_cancelled (tcp_call_exec x w) = tw_cancelled w"
  by (cases x) (auto simp: tcp_Send_def tcp_Close_def tcp_Set_def tcp_SetDeviceID_def Let_def
      split: go.splits prod.splits)

lemma by_calls_cancelled: "by_calls tcp_call_exec ok w w' \<Longrightarrow> tw_cancelled w' = tw_cancelled w"
  by (erule by_calls_invariant [where P = "\<lambda>v. tw_cancelled v = tw_cancelled w"]) simp_all

lemma tcp_Close_cancelled [simp]: "tw_cancelled (snd (tcp_Close c w)) = tw_cancelled w"
  by (simp add: tcp_Close_def)

lemma tcp_start_cancelled:
  assumes "tcp_server_ok srv"
  shows "tw_cancelled (snd (tcp_start srv c w)) = tw_cancelled w"
proof -
  let ?w4 = "upd_stats (add_Total 1) (upd_stats (add_Active 1)
      (upd_conn c (\<lambda>tc. NewTCPConnection (tc_net tc) (tw_now w)) (w\<lparr>tw_rawConns := gm_put c c (tw_rawConns w)\<rparr>)))"
  have "by_calls tcp_call_exec no_claim ?w4 (snd (run_connect_hooks (sv_OnConnect srv) c ?w4))"
    using assms by (intro run_connect_hooks_calls) (simp add: server_ok_def)
  from by_calls_cancelled [OF this] show ?thesis
    by (auto simp: tcp_start_def Let_def split: prod.splits go.splits)
qed

lemma tcp_cleanup_cancelled:
  assumes "tcp_server_ok srv"
  shows "tw_cancelled (snd (tcp_cleanup srv c w)) = tw_cancelled w"
proof -
  have "by_calls tcp_call_exec no_claim w (snd (run_disconnect_hooks (sv_OnDisconnect srv) c w))"
    using assms by (intro run_disconnect_hooks_calls) (simp add: server_ok_def)
  from by_calls_cancelled [OF this] show ?thesis
    by (auto simp: tcp_cleanup_def Let_def split: prod.splits option.splits)
qed

lemma tcp_iter_cancelled: "tw_cancelled w \<Longrightarrow> tcp_iter cfg srv pick c w = (Return, w)"
  by (simp add: tcp_iter_def)

text \<open>The moves of the connections' goroutines alone.\<close>

inductive goroutine_move :: "TcpConfig \<Rightarrow> 'app tcp_world server \<Rightarrow> 'app tcp_sys \<Rightarrow> 'app tcp_sys \<Rightarrow> bool"
  for cfg srv where
  "sys_crashed s = None \<Longrightarrow> c < length (sys_phases s) \<Longrightarrow> sys_phases s ! c = Spawned \<Longrightarrow>
    goroutine_move cfg srv s (goroutine_step c after_start (tcp_start srv c (sys_world s)) s)"
| "sys_crashed s = None \<Longrightarrow> c < length (sys_phases s) \<Longrightarrow> sys_phases s ! c = Reading \<Longrightarrow>
    goroutine_move cfg srv s (goroutine_step c after_iter (tcp_iter cfg srv pick c (sys_world s)) s)"
| "sys_crashed s = None \<Longrightarrow> c < length (sys_phases s) \<Longrightarrow> sys_phases s ! c = Leaving \<Longrightarrow>
    goroutine_move cfg srv s (goroutine_step c after_cleanup (tcp_cleanup srv c (sys_world s)) s)"

lemma goroutine_move_step: "goroutine_move cfg srv s s' \<Longrightarrow> tcp_step cfg srv s s'"
  by (erule goroutine_move.cases) (auto intro: tcp_step.start tcp_step.iter tcp_step.cleanup)

text \<open>What is left to do; a crash counts for one.\<close>

definition work_left :: "'app tcp_sys \<Rightarrow> nat" where
  "work_left s = sum_list (map steps_left (sys_phases s)) + (if sys_crashed s = None then 1 else 0)"

lemma sum_steps_update:
  "c < length ph \<Longrightarrow>
    sum_list (map steps_left (ph[c := p])) + steps_left (ph ! c) = sum_list (map steps_left ph) + steps_left p"
proof (induction ph arbitrary: c)
  case (Cons a ph)
  then show ?case by (cases c) auto
qed simp

lemma goroutine_move_cancelled:
  assumes "goroutine_move cfg srv s s'" and "tcp_server_ok srv" and "tw_cancelled (sys_world s)"
  shows "tw_cancelled (sys_world s')" and "work_left s' < work_left s"
proof -
  have "tw_cancelled (sys_world s') \<and> work_left s' < work_left s"
    using assms(1)
  proof cases
    case (1 c)
    let ?p = "after_start (fst (tcp_start srv c (sys_world s)))"
    have "steps_left ?p < 3"
      using phase_advances(3) [of "fst (tcp_start srv c (sys_world s))"] by (simp add: less_phase_def)
    moreover have "sum_list (map steps_left ((sys_phases s)[c := ?p])) + 3 =
        sum_list (map steps_left (sys_phases s)) + steps_left ?p"
      using sum_steps_update [OF 1(3), of ?p] 1(4) by simp
    ultimately have "sum_list (map steps_left ((sys_phases s)[c := ?p])) < sum_list (map steps_left (sys_phases s))"
      by linarith
    with 1 tcp_start_cancelled [OF assms(2), of c "sys_world s"] assms(3)
    show ?thesis by (simp add: goroutine_step_def work_left_def)
  next
    case (2 c pick)
    with sum_steps_update [of c "sys_phases s" Leaving] tcp_iter_cancelled [OF assms(3)] assms(3)
    show ?thesis by (simp add: goroutine_step_def work_left_def)
  next
    case (3 c)
    with sum_steps_update [of c "sys_phases s" "after_cleanup (fst (tcp_cleanup srv c (sys_world s)))"]
      tcp_cleanup_cancelled [OF assms(2), of c "sys_world s"] assms(3)
    show ?thesis
      by (cases "fst (tcp_cleanup srv c (sys_world s))") (simp_all add: goroutine_step_def work_left_def)
  qed
  then show "tw_cancelled (sys_world s')" and "work_left s' < work_left s" by simp_all
qed

lemma goroutine_moves_bound:
  assumes "tcp_server_ok srv" and "(goroutine_move cfg srv ^^ n) s s'" and "tw_cancelled (sys_world s)"
  shows "tw_cancelled (sys_world s') \<and> n + work_left s' \<le> work_left s"
  using assms(2)
proof (induction n arbitrary: s')
  case (Suc n)
  then obtain s1 where s1: "(goroutine_move cfg srv ^^ n) s s1" "goroutine_move cfg srv s1 s'" by auto
  with Suc.IH goroutine_move_cancelled [OF s1(2) assms(1)] show ?case by fastforce
qed (use assms(3) in simp)

lemma goroutine_stuck:
  assumes "\<nexists>s'. goroutine_move cfg srv s s'" and "sys_crashed s = None" and "c < length (sys_phases s)"
  shows "sys_phases s ! c = Finished"
proof (cases "sys_phases s ! c")
  case Spawned
  from goroutine_move.intros(1) [OF assms(2,3) this] assms(1) show ?thesis by blast
next
  case Reading
  from goroutine_move.intros(2) [OF assms(2,3) this] assms(1) show ?thesis by blast
next
  case Leaving
  from goroutine_move.intros(3) [OF assms(2,3) this] assms(1) show ?thesis by blast
qed

lemma work_left_le: "work_left s \<le> 3 * length (sys_phases s) + 1"
proof -
  have "sum_list (map steps_left ph) \<le> 3 * length ph" for ph
  proof (induction ph)
    case (Cons p ph)
    then show ?case by (cases p) simp_all
  qed simp
  from this [of "sys_phases s"] show ?thesis by (simp add: work_left_def)
qed

text \<open>The sockets it closes.\<close>

lemma close_raw_fold:
  fixes w :: "'app tcp_world" and es :: "(nat \<times> nat) list"
  defines "close \<equiv> \<lambda>(w :: 'app tcp_world) e. upd_conn (snd e) (\<lambda>tc. tc\<lparr>tc_net := snd (net_Close (tc_net tc))\<rparr>) w"
  assumes "c < length (tw_conns w)" and "c \<in> snd ` set es \<or> nc_closed (tc_net (tw_conns w ! c))"
  shows "nc_closed (tc_net (tw_conns (foldl close w es) ! c))"
  using assms(2,3)
proof (induction es arbitrary: w)
  case (Cons e es)
  have "c \<in> snd ` set es \<or> nc_closed (tc_net (tw_conns (close w e) ! c))"
    using Cons.prems by (auto simp: close_def upd_conn_nth)
  then show ?case
    using Cons.IH [of "close w e"] Cons.prems by (simp add: close_def)
qed simp

lemma close_all_fold:
  "c < length (tw_conns w) \<Longrightarrow> nc_closed (tc_net (tw_conns w ! c)) \<Longrightarrow>
    nc_closed (tc_net (tw_conns (foldl (\<lambda>w e. snd (tcp_Close (snd e) w)) w es) ! c))"
  by (induction es arbitrary: w) (simp_all add: tcp_Close_def upd_conn_nth)

lemma length_foldl_close:
  "length (tw_conns (foldl (\<lambda>w e. upd_conn (snd e) f w) w es)) = length (tw_conns w)"
  by (induction es arbitrary: w) simp_all

lemma tcp_Stop_cancelled [simp]: "tw_cancelled (tcp_Stop w)"
proof -
  have "tw_cancelled (foldl (\<lambda>w e. upd_conn (snd e) f w) v es) = tw_cancelled v"
    for f and v :: "'a tcp_world" and es :: "(nat \<times> nat) list"
    by (induction es arbitrary: v) simp_all
  moreover have "tw_cancelled (foldl (\<lambda>w e. snd (tcp_Close (snd e) w)) v es) = tw_cancelled v"
    for v :: "'a tcp_world" and es :: "(gostring \<times> nat) list"
    by (induction es arbitrary: v) simp_all
  ultimately show ?thesis by (simp add: tcp_Stop_def Let_def)
qed

lemma tcp_Stop_closes:
  assumes "tcp_inv w ph" and "c < length ph" and "live (ph ! c)"
  shows "nc_closed (tc_net (tw_conns (tcp_Stop w) ! c))"
proof -
  have c: "c < length (tw_conns w)"
    using assms by (simp add: tcp_inv_def conns_ok_def)
  have "gm_wf (tw_rawConns w)" "gm_get (tw_rawConns w) c = Some c"
    using assms by (simp_all add: tcp_inv_def raw_ok_def)
  then have "(c, c) \<in> set (tw_rawConns w)" by (simp add: gm_get_in_set)
  then have mem: "c \<in> snd ` set (tw_rawConns w)" by force
  show ?thesis
    unfolding tcp_Stop_def Let_def
    by (rule close_all_fold)
      (use c mem in \<open>simp_all add: length_foldl_close close_raw_fold [where w = "w\<lparr>tw_cancelled := True\<rparr>", simplified]\<close>)
qed

end
