(* ===== verification/TcpProps.thy ===== *)
theory TcpProps
  imports TcpServer
begin

text \<open>
  The properties of \<^verbatim>\<open>transport/tcp.go\<close>: what holds in every reachable state of the server, what one
  connection's traffic does, how \<^verbatim>\<open>Stop\<close> ends, and what the authentication middleware guarantees on its
  connections.
\<close>

section \<open>A sample run\<close>

text \<open>One terminal that sends one frame; the handler takes the device ID \<open>D1\<close> for its connection.\<close>

definition claim_handler :: "'app tcp_world handler" where
  "claim_handler ctx c m w = (Ok (), tcp_SetDeviceID c (go_str ''D1'') w)"

definition claim_server :: "'app tcp_world server" where
  "claim_server = RegisterHandler MsgIDTerminalHeartbeat claim_handler new_server"

definition sample_net :: net_conn where
  "sample_net = \<lparr>nc_closed = False, nc_reader = \<lparr>pending = sample_frame, final_error = IoEOF\<rparr>,
     nc_buffered = 0, nc_out = [], nc_write_error = None, nc_addr = go_str ''127.0.0.1:9''\<rparr>"

definition run_accept :: "'app tcp_sys \<Rightarrow> 'app tcp_sys" where
  "run_accept s = accept_conn sample_net s"

definition run_start :: "'app tcp_world server \<Rightarrow> nat \<Rightarrow> 'app tcp_sys \<Rightarrow> 'app tcp_sys" where
  "run_start srv c s = goroutine_step c after_start (tcp_start srv c (sys_world s)) s"

definition run_iter :: "'app tcp_world server \<Rightarrow> nat \<Rightarrow> 'app tcp_sys \<Rightarrow> 'app tcp_sys" where
  "run_iter srv c s = goroutine_step c after_iter (tcp_iter DefaultConfig srv 0 c (sys_world s)) s"

lemmas run_defs = run_accept_def run_start_def run_iter_def accept_conn_def goroutine_step_def
  tcp_init_def NewTCPServer_def NewTCPConnection_def

lemma claim_server_ok: "tcp_server_ok claim_server"
proof -
  have "by_calls tcp_call_exec (own_calls c) w (tcp_SetDeviceID c d w)" for c d and w :: "'a tcp_world"
    using by_calls_one [of "own_calls c" "ASetDeviceID c d" tcp_call_exec w] by simp
  then show ?thesis
    by (simp add: server_ok_def claim_server_def RegisterHandler_def new_server_def claim_handler_def gm_put_def)
qed

lemma sample_frame_message:
  "\<exists>m. Decode sample_frame = Ok m \<and> msg_id m = Ok MsgIDTerminalHeartbeat"
proof -
  have "Decode sample_frame = Ok \<lparr>Header = Some \<lparr>MsgID = 2, MsgBodyProperty = 1, ProtocolVersion = 0,
     PhoneNo = [0x30, 0x31, 0x33, 0x38, 0x30, 0x30, 0x31, 0x33, 0x38, 0x30, 0x30, 0x30],
     MsgFlowNo = 0x7D, MsgBodyLength = 1, SubPackage = False, Encryption = 0\<rparr>, Body = [0x09], Raw = sample_frame\<rparr>"
    by (simp add: codec_eval sample_frame_def)
  then show ?thesis by (simp add: msg_id_def proto_consts)
qed

lemma sample_read:
  "0 \<le> MaxPacketSize cfg - 4096 \<Longrightarrow>
    readMessage (MaxPacketSize cfg) \<lparr>pending = sample_frame @ rest, final_error = e\<rparr>
    = (Decode sample_frame, \<lparr>pending = rest, final_error = e\<rparr>)"
proof -
  assume n: "0 \<le> MaxPacketSize cfg - 4096"
  define xs :: "byte list" where
    "xs = [0x00, 0x02, 0x00, 0x01, 0x01, 0x38, 0x00, 0x13, 0x80, 0x00, 0x00, 0x7D, 0x01, 0x09, 0xDD]"
  have f: "sample_frame = [ProtocolFlag] @ xs @ [ProtocolFlag]"
    by (simp add: sample_frame_def proto_consts xs_def)
  have "ProtocolFlag \<notin> set xs" "int (length xs) \<le> effective_max (MaxPacketSize cfg)"
    using n by (simp_all add: proto_consts xs_def effective_max_def)
  from readMessage_frame [OF this, of rest e] show ?thesis
    unfolding f by simp
qed

text \<open>The two iterations such a connection makes: its frame, then the end of the stream.\<close>

definition drained :: "tcp_conn \<Rightarrow> tcp_conn" where
  "drained = tc_net_update (nc_reader_update (\<lambda>_. \<lparr>pending = [], final_error = IoEOF\<rparr>))"

lemma claim_iter:
  assumes "tc_net (tw_conns w ! c) = sample_net" and "\<not> tw_cancelled w"
  shows "tcp_iter DefaultConfig claim_server 0 c w =
    (Continue, tcp_SetDeviceID c (go_str ''D1'') (upd_stats (add_Received 1) (upd_conn c drained w)))"
proof -
  obtain m where m: "Decode sample_frame = Ok m" "msg_id m = Ok MsgIDTerminalHeartbeat"
    using sample_frame_message by blast
  have "readMessage (MaxPacketSize DefaultConfig) \<lparr>pending = sample_frame, final_error = IoEOF\<rparr>
      = (Ok m, \<lparr>pending = [], final_error = IoEOF\<rparr>)"
    using sample_read [of DefaultConfig "[]" IoEOF] m by (simp add: DefaultConfig_def)
  then show ?thesis
    using assms by (simp add: tcp_iter_def sample_net_def tcp_dispatch_def m drained_def route_def
        claim_server_def RegisterHandler_def new_server_def gm_put_def gm_get_def claim_handler_def)
qed

lemma eof_iter:
  assumes "nc_reader (tc_net (tw_conns w ! c)) = \<lparr>pending = [], final_error = IoEOF\<rparr>" and "\<not> tw_cancelled w"
  shows "tcp_iter DefaultConfig srv 0 c w = (Return, upd_conn c drained w)"
  using assms by (simp add: tcp_iter_def drained_def)

lemma run_two:
  "sys_world (run_start claim_server 0 (run_accept (tcp_init 0 app))) =
    (NewTCPServer 0 app)\<lparr>tw_conns := [NewTCPConnection sample_net 0], tw_rawConns := [(0, 0)],
      tw_stats := (new_stats 0)\<lparr>s_ActiveConnections := 1, s_TotalConnections := 1\<rparr>\<rparr>"
  "sys_phases (run_start claim_server 0 (run_accept (tcp_init 0 app))) = [Reading]"
  "sys_crashed (run_start claim_server 0 (run_accept (tcp_init 0 app))) = None"
  by (simp_all add: run_defs tcp_start_def claim_server_def RegisterHandler_def new_server_def
      Let_def upd_conn_def upd_stats_def stat_defs new_stats_def gm_put_def)

lemma run_three:
  fixes app :: "'a"
  defines "s \<equiv> run_iter claim_server 0 (run_start claim_server 0 (run_accept (tcp_init 0 app)))"
  shows "tw_connections (sys_world s) = [(go_str ''D1'', 0)]" and "sys_phases s = [Reading]"
    and "sys_crashed s = None"
    and "tw_conns (sys_world s) = [(drained (NewTCPConnection sample_net 0))\<lparr>tc_deviceID := go_str ''D1''\<rparr>]"
    and "tw_cancelled (sys_world s) = False"
proof -
  have "tcp_iter DefaultConfig claim_server 0 0 (sys_world (run_start claim_server 0 (run_accept (tcp_init 0 app)))) =
    (Continue, tcp_SetDeviceID 0 (go_str ''D1'') (upd_stats (add_Received 1)
      (upd_conn 0 drained (sys_world (run_start claim_server 0 (run_accept (tcp_init 0 app)))))))"
    by (rule claim_iter) (simp_all add: run_two NewTCPConnection_def NewTCPServer_def)
  then show "tw_connections (sys_world s) = [(go_str ''D1'', 0)]" "sys_phases s = [Reading]"
    "sys_crashed s = None" "tw_cancelled (sys_world s) = False"
    "tw_conns (sys_world s) = [(drained (NewTCPConnection sample_net 0))\<lparr>tc_deviceID := go_str ''D1''\<rparr>]"
    unfolding s_def run_iter_def goroutine_step_def
    by (simp_all add: run_two tcp_SetDeviceID_def claim_device_def upd_conn_def NewTCPServer_def
        NewTCPConnection_def drained_def gm_put_def gm_get_def go_str_def)
qed

text \<open>The steps of a run.\<close>

lemma reach_accept:
  "tcp_reachable DefaultConfig srv s \<Longrightarrow> sys_crashed s = None \<Longrightarrow> \<not> tw_cancelled (sys_world s) \<Longrightarrow>
    \<not> at_limit DefaultConfig (sys_world s) \<Longrightarrow> tcp_reachable DefaultConfig srv (run_accept s)"
  unfolding run_accept_def
  by (erule tcp_reachable.step, rule tcp_step.accepted) (simp_all add: sample_net_def)

lemma reach_start:
  "tcp_reachable cfg srv s \<Longrightarrow> sys_crashed s = None \<Longrightarrow> c < length (sys_phases s) \<Longrightarrow>
    sys_phases s ! c = Spawned \<Longrightarrow> tcp_reachable cfg srv (run_start srv c s)"
  unfolding run_start_def by (erule tcp_reachable.step, rule tcp_step.start)

lemma reach_iter:
  "tcp_reachable DefaultConfig srv s \<Longrightarrow> sys_crashed s = None \<Longrightarrow> c < length (sys_phases s) \<Longrightarrow>
    sys_phases s ! c = Reading \<Longrightarrow> tcp_reachable DefaultConfig srv (run_iter srv c s)"
  unfolding run_iter_def by (erule tcp_reachable.step, rule tcp_step.iter)

lemma sample_reachable:
  "tcp_reachable DefaultConfig claim_server (run_iter claim_server 0 (run_start claim_server 0 (run_accept (tcp_init 0 app))))"
proof (intro reach_iter reach_start reach_accept tcp_reachable.init)
qed (simp_all add: run_two, simp_all add: run_defs at_limit_def new_stats_def DefaultConfig_def)

lemma tcp_server_counts:
  "tcp_reachable cfg srv s \<Longrightarrow> tcp_server_ok srv \<Longrightarrow>
    s_ActiveConnections (tw_stats (sys_world s)) = of_nat (length (filter live (sys_phases s)))"
  by (drule tcp_reachable_inv) (simp_all add: tcp_inv_def counts_ok_def)

text \<open>The same terminal connects again before the server has noticed the end of its first connection.\<close>

definition reconnected :: "unit tcp_sys" where
  "reconnected = run_iter claim_server 0 (run_iter claim_server 1 (run_start claim_server 1 (run_accept
     (run_iter claim_server 0 (run_start claim_server 0 (run_accept (tcp_init 0 ())))))))"

lemma reconnected_run:
  "tcp_reachable DefaultConfig claim_server reconnected"
  "sys_phases reconnected = [Leaving, Reading]"
  "sys_crashed reconnected = None"
  "tw_connections (sys_world reconnected) = [(go_str ''D1'', 1)]"
  "tc_deviceID (tw_conns (sys_world reconnected) ! 0) = go_str ''D1''"
proof -
  define s3 :: "unit tcp_sys" where "s3 = run_iter claim_server 0 (run_start claim_server 0 (run_accept (tcp_init 0 ())))"
  define s5 where "s5 = run_start claim_server 1 (run_accept s3)"
  define s6 where "s6 = run_iter claim_server 1 s5"
  define old where "old = (drained (NewTCPConnection sample_net 0))\<lparr>tc_deviceID := go_str ''D1''\<rparr>"
  note s3 = run_three [where app = "()", folded s3_def]
  have r3: "tcp_reachable DefaultConfig claim_server s3"
    unfolding s3_def by (rule sample_reachable)
  have act: "s_ActiveConnections (tw_stats (sys_world s3)) = 1"
    using tcp_server_counts [OF r3 claim_server_ok] by (simp add: s3)
  have s4: "sys_phases (run_accept s3) = [Reading, Spawned]" "sys_crashed (run_accept s3) = None"
    by (simp_all add: run_accept_def accept_conn_def s3)
  have r4: "tcp_reachable DefaultConfig claim_server (run_accept s3)"
    by (rule reach_accept [OF r3]) (simp_all add: s3 at_limit_def act DefaultConfig_def)
  have r5: "tcp_reachable DefaultConfig claim_server s5"
    unfolding s5_def by (rule reach_start [OF r4]) (simp_all add: s4)
  have s5: "sys_phases s5 = [Reading, Reading]" "sys_crashed s5 = None"
    "tw_connections (sys_world s5) = [(go_str ''D1'', 0)]" "tw_cancelled (sys_world s5) = False"
    "tw_conns (sys_world s5) ! 0 = old" "tw_conns (sys_world s5) ! 1 = NewTCPConnection sample_net (tw_now (sys_world s3))"
    "length (tw_conns (sys_world s5)) = 2"
    by (simp_all add: s5_def run_start_def run_accept_def accept_conn_def goroutine_step_def s3
        tcp_start_def claim_server_def RegisterHandler_def new_server_def Let_def upd_conn_def
        NewTCPConnection_def old_def)
  have r6: "tcp_reachable DefaultConfig claim_server s6"
    unfolding s6_def by (rule reach_iter [OF r5]) (simp_all add: s5)
  have i6: "tcp_iter DefaultConfig claim_server 0 1 (sys_world s5) =
      (Continue, tcp_SetDeviceID 1 (go_str ''D1'') (upd_stats (add_Received 1) (upd_conn 1 drained (sys_world s5))))"
    by (rule claim_iter) (use s5 in \<open>simp_all add: NewTCPConnection_def\<close>)
  have s6: "sys_phases s6 = [Reading, Reading]" "sys_crashed s6 = None"
    "tw_connections (sys_world s6) = [(go_str ''D1'', 1)]" "tw_cancelled (sys_world s6) = False"
    "tw_conns (sys_world s6) ! 0 = old" "length (tw_conns (sys_world s6)) = 2"
    unfolding s6_def run_iter_def i6 goroutine_step_def using s5
    by (simp_all add: tcp_SetDeviceID_def claim_device_def Let_def upd_conn_def
        NewTCPConnection_def drained_def gm_put_def gm_cad_def gm_get_def gm_delete_def go_str_def)
  have i7: "tcp_iter DefaultConfig claim_server 0 0 (sys_world s6) = (Return, upd_conn 0 drained (sys_world s6))"
    by (rule eof_iter) (simp_all add: s6 old_def drained_def NewTCPConnection_def sample_net_def)
  have r: "reconnected = run_iter claim_server 0 s6"
    by (simp add: reconnected_def s6_def s5_def s3_def)
  show "tcp_reachable DefaultConfig claim_server reconnected"
    unfolding r by (rule reach_iter [OF r6]) (simp_all add: s6)
  show "sys_phases reconnected = [Leaving, Reading]" "sys_crashed reconnected = None"
    "tw_connections (sys_world reconnected) = [(go_str ''D1'', 1)]"
    "tc_deviceID (tw_conns (sys_world reconnected) ! 0) = go_str ''D1''"
    unfolding r run_iter_def i7 goroutine_step_def using s6
    by (simp_all add: upd_conn_nth drained_def old_def)
qed

section \<open>A connection's traffic\<close>

text \<open>The loop of \<^verbatim>\<open>handleConn\<close>, for at most \<open>n\<close> iterations.\<close>

fun tcp_loop :: "TcpConfig \<Rightarrow> 'app tcp_world server \<Rightarrow> nat \<Rightarrow> nat \<Rightarrow> nat \<Rightarrow> 'app tcp_world \<Rightarrow> outcome \<times> 'app tcp_world" where
  "tcp_loop cfg srv pick c 0 w = (Continue, w)"
| "tcp_loop cfg srv pick c (Suc n) w =
     (case tcp_iter cfg srv pick c w of
        (Continue, w1) \<Rightarrow> tcp_loop cfg srv pick c n w1
      | (out, w1) \<Rightarrow> (out, w1))"

text \<open>The connection \<open>c\<close> with \<open>bs\<close> still to be read.\<close>

definition incoming :: "nat \<Rightarrow> byte list \<Rightarrow> 'app tcp_world \<Rightarrow> bool" where
  "incoming c bs w \<longleftrightarrow> c < length (tw_conns w) \<and> \<not> tw_cancelled w \<and>
     nc_reader (tc_net (tw_conns w ! c)) = \<lparr>pending = bs, final_error = IoEOF\<rparr>"

text \<open>A handler that only acts on the application's state.\<close>

definition app_handler :: "(nat \<Rightarrow> Message \<Rightarrow> 'app \<Rightarrow> 'app) \<Rightarrow> 'app tcp_world handler" where
  "app_handler f ctx c m w = (Ok (), w\<lparr>tw_app := f c m (tw_app w)\<rparr>)"

text \<open>The frames \<open>fs\<close>, written by \<^verbatim>\<open>Encode\<close>, are the messages \<open>ms\<close> for the reader.\<close>

definition frames_of :: "byte list list \<Rightarrow> Message list \<Rightarrow> bool" where
  "frames_of fs ms \<longleftrightarrow> list_all2 (\<lambda>f m. (\<exists>m0. snd (Encode m0) = Ok f) \<and> Decode f = Ok m) fs ms"

lemma Decode_header: "Decode f = Ok m \<Longrightarrow> \<exists>i. msg_id m = Ok i"
  by (auto simp: Decode_eq decode_payload_def go_simps msg_id_def split: if_splits)

lemma app_iter:
  assumes "incoming c (f @ bs) w" and "snd (Encode m0) = Ok f" and "Decode f = Ok m"
    and "MaxPacketSize cfg \<le> 0 \<or> 2092 \<le> MaxPacketSize cfg"
    and "sv_handlers srv = [(mid, app_handler g)]" and "sv_middleware srv = []"
  shows "\<exists>w1. tcp_iter cfg srv pick c w = (Continue, w1) \<and> incoming c bs w1 \<and> tw_app w1 = g c m (tw_app w)
    \<and> s_ReceivedMessages (tw_stats w1) = s_ReceivedMessages (tw_stats w) + 1
    \<and> tw_connections w1 = tw_connections w"
proof -
  obtain i where i: "msg_id m = Ok i" using Decode_header [OF assms(3)] by blast
  have "Encode m0 = (fst (Encode m0), Ok f)" using assms(2) by (metis prod.collapse)
  from readMessage_encoded_eq [OF this assms(4), of bs IoEOF] assms(1,3)
  have "readMessage (MaxPacketSize cfg) (nc_reader (tc_net (tw_conns w ! c))) = (Ok m, \<lparr>pending = bs, final_error = IoEOF\<rparr>)"
    by (simp add: incoming_def)
  then show ?thesis
    using assms(1,5,6) by (auto simp: tcp_iter_def incoming_def tcp_dispatch_def i route_def gm_get_def
        app_handler_def upd_conn_def add_Received_def)
qed

lemma app_loop:
  assumes "frames_of fs ms" and "incoming c (concat fs) w"
    and "MaxPacketSize cfg \<le> 0 \<or> 2092 \<le> MaxPacketSize cfg"
    and "sv_handlers srv = [(mid, app_handler g)]" and "sv_middleware srv = []"
  shows "\<exists>w'. tcp_loop cfg srv pick c (Suc (length fs)) w = (Return, w') \<and> tw_app w' = fold (g c) ms (tw_app w)
    \<and> s_ReceivedMessages (tw_stats w') = s_ReceivedMessages (tw_stats w) + of_nat (length ms)
    \<and> tw_connections w' = tw_connections w"
  using assms(1,2) unfolding frames_of_def
proof (induction fs ms arbitrary: w rule: list_all2_induct)
  case Nil
  then show ?case by (simp add: tcp_iter_def incoming_def)
next
  case (Cons f fs m ms)
  then obtain m0 where f: "snd (Encode m0) = Ok f" "Decode f = Ok m" by blast
  from app_iter [OF _ f assms(3-5), of c "concat fs" w pick] Cons.prems obtain w1 where w1:
    "tcp_iter cfg srv pick c w = (Continue, w1)" "incoming c (concat fs) w1" "tw_app w1 = g c m (tw_app w)"
    "s_ReceivedMessages (tw_stats w1) = s_ReceivedMessages (tw_stats w) + 1" "tw_connections w1 = tw_connections w"
    by auto
  from Cons.IH [OF w1(2)] w1 show ?case by (auto simp: algebra_simps)
qed

section \<open>Connection attributes\<close>

lemma tcp_Set_attributes:
  "tcp_Get c' k' (tcp_Set c k v w) =
    (if c' = c \<and> k' = k \<and> c < length (tw_conns w) then Some v else tcp_Get c' k' w)"
  "tcp_DeviceID c' (tcp_Set c k v w) = tcp_DeviceID c' w"
  "length (tw_conns (tcp_Set c k v w)) = length (tw_conns w)"
proof -
  have out: "upd_conn c f w = w" if "\<not> c < length (tw_conns w)" for f
    using that by (simp add: upd_conn_def list_update_beyond)
  have set: "tcp_Set c k v w = w" if "\<not> c < length (tw_conns w)"
    unfolding tcp_Set_def by (rule out [OF that])
  have nth: "tw_conns (tcp_Set c k v w) ! c' =
      (if c' = c then (tw_conns w ! c)\<lparr>tc_attributes := gm_put k v (tc_attributes (tw_conns w ! c))\<rparr> else tw_conns w ! c')"
    if "c < length (tw_conns w)"
    using that by (simp add: tcp_Set_def upd_conn_def)
  show "tcp_Get c' k' (tcp_Set c k v w) =
    (if c' = c \<and> k' = k \<and> c < length (tw_conns w) then Some v else tcp_Get c' k' w)"
    by (cases "c < length (tw_conns w)") (simp_all add: set tcp_Get_def nth gm_get_put)
  show "tcp_DeviceID c' (tcp_Set c k v w) = tcp_DeviceID c' w"
    by (cases "c < length (tw_conns w)") (simp_all add: set tcp_DeviceID_def nth)
  show "length (tw_conns (tcp_Set c k v w)) = length (tw_conns w)"
    by (simp add: tcp_Set_def)
qed

interpretation tcp_attrs: conn_attributes "\<lambda>c w. c < length (tw_conns w)" tcp_ops
  by unfold_locales (auto simp: tcp_ops_def tcp_Set_attributes)

section \<open>Properties\<close>

text \<open>C3. In every reachable state, however the goroutines, the application and \<^verbatim>\<open>Stop\<close> interleave and
  provided only the code that serves a connection sets its device ID: \<^verbatim>\<open>GetConnection\<close> returns only a
  connection that is being served and whose device ID is the one asked for; the connections \<^verbatim>\<open>Stop\<close> will
  close are exactly those being served; \<^verbatim>\<open>ActiveConnections\<close> counts these and \<^verbatim>\<open>TotalConnections\<close> all that
  were ever served; and a connection no longer served is closed.\<close>

theorem tcp_server_invariant:
  assumes "tcp_reachable cfg srv s" and "tcp_server_ok srv"
  shows "(\<forall>d c. tcp_GetConnection d (sys_world s) = Ok c \<longrightarrow>
        c < length (sys_phases s) \<and> live (sys_phases s ! c) \<and> tcp_DeviceID c (sys_world s) = d \<and> d \<noteq> [])
    \<and> (\<forall>c. gm_get (tw_rawConns (sys_world s)) c \<noteq> None \<longleftrightarrow> c < length (sys_phases s) \<and> live (sys_phases s ! c))
    \<and> s_ActiveConnections (tw_stats (sys_world s)) = of_nat (length (filter live (sys_phases s)))
    \<and> s_TotalConnections (tw_stats (sys_world s)) = of_nat (length (filter (\<lambda>p. p \<noteq> Spawned) (sys_phases s)))
    \<and> (\<forall>c < length (sys_phases s). sys_phases s ! c = Finished \<longrightarrow>
        \<not> tcp_IsConnected c (sys_world s) \<and> nc_closed (tc_net (tw_conns (sys_world s) ! c)))"
proof -
  let ?w = "sys_world s" and ?ph = "sys_phases s"
  have inv: "tcp_inv ?w ?ph" by (rule tcp_reachable_inv [OF assms])
  have "c < length ?ph \<and> live (?ph ! c) \<and> tcp_DeviceID c ?w = d \<and> d \<noteq> []"
    if "tcp_GetConnection d ?w = Ok c" for d c
  proof -
    have g: "gm_get (tw_connections ?w) d = Some c"
      using that by (simp add: tcp_GetConnection_def split: option.splits)
    then have "c < length ?ph" "live (?ph ! c)" "devices_of ?w c = d" "d \<noteq> []"
      using inv by (auto simp: tcp_inv_def registry_ok_def owned_def)
    with inv show ?thesis
      by (simp add: tcp_inv_def conns_ok_def devices_of_def tcp_DeviceID_def)
  qed
  moreover have "\<not> tcp_IsConnected c ?w \<and> nc_closed (tc_net (tw_conns ?w ! c))"
    if "c < length ?ph" "?ph ! c = Finished" for c
    using inv that by (auto simp: tcp_inv_def tcp_IsConnected_def conn_ok_def dest: conns_ok_nth)
  ultimately show ?thesis
    using inv by (auto simp: tcp_inv_def raw_ok_def counts_ok_def)
qed

theorem tcp_server_invariant_witness:
  "\<exists>s :: unit tcp_sys. tcp_reachable DefaultConfig claim_server s \<and> tcp_GetConnection (go_str ''D1'') (sys_world s) = Ok 0
     \<and> live (sys_phases s ! 0) \<and> s_ActiveConnections (tw_stats (sys_world s)) = 1"
proof -
  let ?s = "run_iter claim_server 0 (run_start claim_server 0 (run_accept (tcp_init 0 ())))"
  have g: "tcp_GetConnection (go_str ''D1'') (sys_world ?s) = Ok 0"
    by (simp add: tcp_GetConnection_def run_three gm_get_def)
  note inv = tcp_server_invariant [OF sample_reachable [where app = "()"] claim_server_ok]
  from inv [THEN conjunct1] g have "live (sys_phases ?s ! 0)" by blast
  moreover from inv [THEN conjunct2, THEN conjunct2, THEN conjunct1]
  have "s_ActiveConnections (tw_stats (sys_world ?s)) = 1"
    by (simp add: run_three)
  ultimately show ?thesis
    using sample_reachable [where app = "()"] g by (intro exI [of _ ?s]) simp
qed

text \<open>C19. The clean-up of a connection gives up exactly its own entry: after it, a device that was found
  under this connection is not found, and every other look-up answers as before. So a terminal that has
  reconnected is not removed by the end of its old connection.\<close>

theorem tcp_cleanup_exact:
  assumes "tcp_reachable cfg srv s" and "tcp_server_ok srv"
    and "c < length (sys_phases s)" and "sys_phases s ! c = Leaving"
    and "tcp_cleanup srv c (sys_world s) = (Return, w')"
  shows "tcp_GetConnection d w' =
      (if tcp_GetConnection d (sys_world s) = Ok c then Err (ConnectionNotFound d)
       else tcp_GetConnection d (sys_world s))
    \<and> nc_closed (tc_net (tw_conns w' ! c))"
proof -
  let ?w = "sys_world s"
  have inv: "tcp_inv ?w (sys_phases s)" by (rule tcp_reachable_inv [OF assms(1,2)])
  have "tcp_inv w' ((sys_phases s)[c := Finished])"
    using tcp_cleanup_inv [OF assms(2) inv assms(3,4)] by (simp add: assms(5))
  then have "conns_ok w' ((sys_phases s)[c := Finished])" by (simp add: tcp_inv_def)
  from conns_ok_nth [OF this, of c] assms(3) have "nc_closed (tc_net (tw_conns w' ! c))"
    by (simp add: conn_ok_def)
  moreover have "gm_get (tw_connections w') k =
      (if gm_get (tw_connections ?w) k = Some c then None else gm_get (tw_connections ?w) k)" for k
    by (rule tcp_cleanup_connections [OF assms(2) inv assms(3) assms(5)])
  ultimately show ?thesis
    by (auto simp: tcp_GetConnection_def split: option.splits)
qed

theorem tcp_cleanup_exact_witness:
  "\<exists>w'. tcp_cleanup claim_server 0 (sys_world reconnected) = (Return, w')
     \<and> tcp_GetConnection (go_str ''D1'') w' = Ok 1"
proof -
  have c: "0 < length (sys_phases reconnected)" "sys_phases reconnected ! 0 = Leaving"
    by (simp_all add: reconnected_run)
  obtain w' where w': "tcp_cleanup claim_server 0 (sys_world reconnected) = (Return, w')"
    by (simp add: tcp_cleanup_def claim_server_def RegisterHandler_def new_server_def Let_def)
  from tcp_cleanup_exact [OF reconnected_run(1) claim_server_ok c w', of "go_str ''D1''"]
  have "tcp_GetConnection (go_str ''D1'') w' = Ok 1"
    by (simp add: tcp_GetConnection_def reconnected_run gm_get_def)
  with w' show ?thesis by blast
qed

text \<open>C40. \<^verbatim>\<open>MaxConnections\<close> does not bound the connections: the limit is tested when a connection is
  accepted, the count is raised later in its goroutine. With a limit of 1 the server can come to serve
  any number of connections at the same time.\<close>

theorem MaxConnections_exceeded:
  "\<exists>s :: unit tcp_sys. tcp_reachable (DefaultConfig\<lparr>MaxConnections := 1\<rparr>) new_server s
     \<and> s_ActiveConnections (tw_stats (sys_world s)) = of_nat n \<and> length (tw_rawConns (sys_world s)) = n"
proof -
  let ?cfg = "DefaultConfig\<lparr>MaxConnections := 1\<rparr>"
  have ok: "tcp_server_ok (new_server :: unit tcp_world server)"
    by (simp add: server_ok_def new_server_def)
  have accepts: "\<exists>s :: unit tcp_sys. tcp_reachable ?cfg new_server s \<and> sys_crashed s = None
      \<and> \<not> tw_cancelled (sys_world s) \<and> sys_phases s = replicate n Spawned" for n
  proof (induction n)
    case 0
    show ?case
      by (intro exI [of _ "tcp_init 0 ()"] conjI tcp_reachable.init) (simp_all add: tcp_init_def NewTCPServer_def)
  next
    case (Suc n)
    then obtain s :: "unit tcp_sys" where s: "tcp_reachable ?cfg new_server s" "sys_crashed s = None"
      "\<not> tw_cancelled (sys_world s)" "sys_phases s = replicate n Spawned" by blast
    have "s_ActiveConnections (tw_stats (sys_world s)) = 0"
      using tcp_server_counts [OF s(1) ok] s(4) by simp
    then have "tcp_step ?cfg new_server s (accept_conn sample_net s)"
      using s by (intro tcp_step.accepted) (simp_all add: at_limit_def sample_net_def)
    from tcp_reachable.step [OF s(1) this] s show ?case
      by (intro exI [of _ "accept_conn sample_net s"])
        (simp add: accept_conn_def replicate_append_same)
  qed
  have starts: "\<exists>s :: unit tcp_sys. tcp_reachable ?cfg new_server s \<and> sys_crashed s = None
      \<and> sys_phases s = replicate k Reading @ replicate (n - k) Spawned" if "k \<le> n" for k
    using that
  proof (induction k)
    case 0
    from accepts [of n] show ?case by auto
  next
    case (Suc k)
    then obtain s :: "unit tcp_sys" where s: "tcp_reachable ?cfg new_server s" "sys_crashed s = None"
      "sys_phases s = replicate k Reading @ replicate (n - k) Spawned" by auto
    have "n - k = Suc (n - Suc k)" using Suc.prems by simp
    then have ph: "sys_phases s = replicate k Reading @ Spawned # replicate (n - Suc k) Spawned"
      using s(3) by simp
    then have "tcp_reachable ?cfg new_server (run_start new_server k s)"
      using s by (intro reach_start) (simp_all add: nth_append)
    moreover have "fst (tcp_start new_server k (sys_world s)) = Continue"
      by (simp add: tcp_start_def new_server_def Let_def)
    ultimately show ?case
      using ph by (intro exI [of _ "run_start new_server k s"])
        (simp add: run_start_def goroutine_step_def list_update_append replicate_app_Cons_same)
  qed
  from starts [of n] obtain s :: "unit tcp_sys" where s: "tcp_reachable ?cfg new_server s"
    "sys_phases s = replicate n Reading" by auto
  have raw: "gm_wf (tw_rawConns (sys_world s))" "dom (gm_get (tw_rawConns (sys_world s))) = {..<n}"
    using tcp_reachable_inv [OF s(1) ok] s(2) by (auto simp: tcp_inv_def raw_ok_def dom_def split: if_splits)
  have "length (tw_rawConns (sys_world s)) = n"
    using gm_length [OF raw(1)] raw(2) by simp
  with tcp_server_counts [OF s(1) ok] s show ?thesis
    by (intro exI [of _ s]) simp
qed

text \<open>C6. \<^verbatim>\<open>Stop\<close> ends. When it has made its calls, the socket of every connection that is being served
  is closed, registered or not, so no read blocks; the goroutines then make at most three moves each
  (and one more if a hook panics), and when none can move any more all have returned, unless a hook
  has brought the process down: the wait of \<^verbatim>\<open>Stop\<close> returns.\<close>

theorem tcp_Stop_drains:
  assumes "tcp_reachable cfg srv s" and "tcp_server_ok srv"
    and "(goroutine_move cfg srv ^^ n) (s\<lparr>sys_world := tcp_Stop (sys_world s)\<rparr>) s'"
  shows "(\<forall>c < length (sys_phases s). live (sys_phases s ! c) \<longrightarrow>
        nc_closed (tc_net (tw_conns (tcp_Stop (sys_world s)) ! c)))
    \<and> n \<le> 3 * length (sys_phases s) + 1
    \<and> ((\<nexists>s''. goroutine_move cfg srv s' s'') \<and> sys_crashed s' = None \<longrightarrow>
        (\<forall>c < length (sys_phases s'). sys_phases s' ! c = Finished))"
proof -
  let ?s = "s\<lparr>sys_world := tcp_Stop (sys_world s)\<rparr>"
  have "n + work_left s' \<le> work_left ?s"
    using goroutine_moves_bound [OF assms(2,3)] by simp
  moreover have "work_left ?s \<le> 3 * length (sys_phases s) + 1"
    using work_left_le [of ?s] by simp
  moreover have "nc_closed (tc_net (tw_conns (tcp_Stop (sys_world s)) ! c))"
    if "c < length (sys_phases s)" "live (sys_phases s ! c)" for c
    by (rule tcp_Stop_closes [OF tcp_reachable_inv [OF assms(1,2)] that])
  ultimately show ?thesis
    using goroutine_stuck [of cfg srv s'] by auto
qed

theorem tcp_Stop_drains_witness:
  "\<exists>s'. (goroutine_move DefaultConfig claim_server ^^ 1)
      (reconnected\<lparr>sys_world := tcp_Stop (sys_world reconnected)\<rparr>) s'
    \<and> nc_closed (tc_net (tw_conns (tcp_Stop (sys_world reconnected)) ! 1))"
proof -
  let ?s = "reconnected\<lparr>sys_world := tcp_Stop (sys_world reconnected)\<rparr>"
  have "goroutine_move DefaultConfig claim_server ?s
      (goroutine_step 1 after_iter (tcp_iter DefaultConfig claim_server 0 1 (sys_world ?s)) ?s)"
    by (rule goroutine_move.intros(2)) (simp_all add: reconnected_run)
  then obtain s' where s': "(goroutine_move DefaultConfig claim_server ^^ 1) ?s s'" by auto
  from tcp_Stop_drains [OF reconnected_run(1) claim_server_ok s'] s' show ?thesis
    by (intro exI [of _ s']) (simp add: reconnected_run)
qed

text \<open>\<^verbatim>\<open>Send\<close> on a connection of the server: it succeeds exactly when the connection is open, the message
  can be encoded and the socket accepts the write; then the peer is written exactly the frame of the
  message and one message is counted; otherwise nothing is written and nothing counted. The other
  connections, the registry and the other counters are not touched.\<close>

theorem tcp_Send_exact:
  assumes "c < length (tw_conns w)" and "tcp_Send c msg w = (r, w')"
  shows "(r = Ok () \<longleftrightarrow> tcp_IsConnected c w \<and> (\<exists>f. snd (Encode msg) = Ok f) \<and> \<not> nc_closed (tc_net (tw_conns w ! c))
        \<and> nc_write_error (tc_net (tw_conns w ! c)) = None)
    \<and> safe r
    \<and> nc_out (tc_net (tw_conns w' ! c)) = nc_out (tc_net (tw_conns w ! c)) @
        (case r of Ok _ \<Rightarrow> (case snd (Encode msg) of Ok f \<Rightarrow> [f] | _ \<Rightarrow> []) | _ \<Rightarrow> [])
    \<and> s_SentMessages (tw_stats w') = s_SentMessages (tw_stats w) + of_bool (r = Ok ())
    \<and> tw_stats w'\<lparr>s_SentMessages := 0\<rparr> = tw_stats w\<lparr>s_SentMessages := 0\<rparr>
    \<and> (\<forall>c'. c' \<noteq> c \<longrightarrow> tw_conns w' ! c' = tw_conns w ! c') \<and> tw_connections w' = tw_connections w"
  using assms safe_Encode [of msg]
  by (auto simp: tcp_Send_def tcp_IsConnected_def net_Write_def upd_conn_def add_Sent_def
      split: if_splits go.splits prod.splits option.splits)

theorem tcp_Send_exact_witness:
  "\<exists>w'. tcp_Send 0 (Some sample_message) (NewTCPServer 0 ()\<lparr>tw_conns := [NewTCPConnection sample_net 0]\<rparr>) = (Ok (), w')
     \<and> s_SentMessages (tw_stats w') = 1"
proof -
  let ?w = "NewTCPServer 0 ()\<lparr>tw_conns := [NewTCPConnection sample_net 0]\<rparr>"
  obtain r w' where r: "tcp_Send 0 (Some sample_message) ?w = (r, w')" by fastforce
  have len: "0 < length (tw_conns ?w)" by simp
  note sent = tcp_Send_exact [OF len r]
  have "\<exists>f. snd (Encode (Some sample_message)) = Ok f"
    by (simp add: Encode_def sample_message_def Let_def)
  with sent have "r = Ok ()"
    by (simp add: tcp_IsConnected_def NewTCPConnection_def sample_net_def)
  with sent r show ?thesis by (simp add: NewTCPServer_def new_stats_def)
qed

text \<open>C7. Ordered delivery: when a peer sends the frames of some messages and ends the stream, its
  connection's goroutine hands them to the handler in that order, each exactly once, counts them, and
  then leaves its loop; the packet limit lets every frame through.\<close>

theorem tcp_stream_in_order:
  assumes "frames_of fs ms" and "incoming c (concat fs) w"
    and "MaxPacketSize cfg \<le> 0 \<or> 2092 \<le> MaxPacketSize cfg"
  shows "\<exists>w'. tcp_loop cfg (RegisterHandler mid (app_handler g) new_server) pick c (Suc (length fs)) w = (Return, w')
    \<and> tw_app w' = fold (g c) ms (tw_app w)
    \<and> s_ReceivedMessages (tw_stats w') = s_ReceivedMessages (tw_stats w) + of_nat (length ms)"
  using app_loop [OF assms, of "RegisterHandler mid (app_handler g) new_server" mid g pick]
  by (auto simp: RegisterHandler_def new_server_def gm_put_def)

theorem tcp_stream_in_order_witness:
  "\<exists>f m w'. Decode f = Ok m \<and> Body m = [0x7E, 0x7D] \<and>
     tcp_loop DefaultConfig (RegisterHandler 2 (app_handler (\<lambda>c m log. log @ [(c, Body m)])) new_server) 0 0 3
       (NewTCPServer 0 []\<lparr>tw_conns := [NewTCPConnection (sample_net\<lparr>nc_reader := \<lparr>pending = f @ f, final_error = IoEOF\<rparr>\<rparr>) 0]\<rparr>)
     = (Return, w') \<and> tw_app w' = [(0, [0x7E, 0x7D]), (0, [0x7E, 0x7D])]"
proof -
  have h: "Header sample_message = Some sample_header" "length (Body sample_message) \<le> 1023"
    by (simp_all add: sample_message_def)
  define f where "f = frame (encodeHeader (updateBodyProperty sample_header 2) @ Body sample_message)"
  have f: "snd (Encode (Some sample_message)) = Ok f"
    using Encode_Ok [OF h] by (simp add: f_def sample_message_def numeral_2_eq_2)
  obtain m where m: "Decode f = Ok m" "Body m = [0x7E, 0x7D]"
    using Decode_frame_encoded [of 2 "Body sample_message" sample_header] by (simp add: f_def sample_message_def)
  let ?w = "NewTCPServer 0 []\<lparr>tw_conns := [NewTCPConnection (sample_net\<lparr>nc_reader := \<lparr>pending = f @ f, final_error = IoEOF\<rparr>\<rparr>) 0]\<rparr>"
  have "frames_of [f, f] [m, m]" using f m by (auto simp: frames_of_def)
  moreover have "incoming 0 (concat [f, f]) ?w" by (simp add: incoming_def NewTCPServer_def NewTCPConnection_def)
  moreover have "MaxPacketSize DefaultConfig \<le> 0 \<or> 2092 \<le> MaxPacketSize DefaultConfig" by (simp add: DefaultConfig_def)
  ultimately have "\<exists>w'. tcp_loop DefaultConfig (RegisterHandler 2 (app_handler (\<lambda>c m log. log @ [(c, Body m)])) new_server) 0 0
      (Suc (length [f, f])) ?w = (Return, w') \<and> tw_app w' = fold (\<lambda>m log. log @ [(0, Body m)]) [m, m] (tw_app ?w)"
    using tcp_stream_in_order [of "[f, f]" "[m, m]" 0 ?w DefaultConfig 2 "\<lambda>c m log. log @ [(c, Body m)]" 0] by blast
  with m show ?thesis
    by (intro exI [of _ f] exI [of _ m]) (simp add: NewTCPServer_def numeral_3_eq_3 del: tcp_loop.simps)
qed

text \<open>A message whose ID has no handler is not given to a default handler, as the comment in
  \<^verbatim>\<open>handleConn\<close> says: it is given to an arbitrary one of the registered handlers, whichever the iteration
  of the map yields first, and it can be any of them; it is dropped only when none is registered.\<close>

theorem unregistered_goes_anywhere:
  assumes "gm_get handlers mid = None"
  shows "{h. \<exists>pick. route pick handlers mid = Some h} = snd ` set handlers"
proof
  show "{h. \<exists>pick. route pick handlers mid = Some h} \<subseteq> snd ` set handlers"
    using route_in by auto
  show "snd ` set handlers \<subseteq> {h. \<exists>pick. route pick handlers mid = Some h}"
  proof
    fix h assume "h \<in> snd ` set handlers"
    then obtain i where "i < length handlers" "h = snd (handlers ! i)"
      by (auto simp: in_set_conv_nth)
    then have "route i handlers mid = Some h"
      using assms by (auto simp: route_def)
    then show "h \<in> {h. \<exists>pick. route pick handlers mid = Some h}" by blast
  qed
qed

theorem unregistered_goes_anywhere_witness:
  "{h. \<exists>pick. route pick [(0x0100 :: uint16, ''register''), (0x0200, ''location'')] 0x0704 = Some h}
     = {''register'', ''location''}"
  using unregistered_goes_anywhere [of "[(0x0100 :: uint16, ''register''), (0x0200, ''location'')]" "0x0704"]
  by (simp add: gm_get_def)


text \<open>C24. What \<^verbatim>\<open>AuthWithCode\<close> guarantees on the server's connections, for a handler that leaves the attribute
  alone: over a connection's messages, one other than registration and authentication is handled without
  error only if the connection was authenticated before or an earlier authentication message of the
  connection was handled without error; and that is all: the validation function is never consulted.\<close>

theorem tcp_auth_session:
  assumes "c < length (tw_conns w)"
    and "\<And>ctx m w. tcp_Get c authenticated_key (snd (h ctx c m w)) = tcp_Get c authenticated_key w
      \<and> length (tw_conns (snd (h ctx c m w))) = length (tw_conns w)"
    and "serve (AuthWithCode tcp_ops validate h) ctx c ms w = (rs, w')"
  shows "(\<forall>i < length rs. gated (ms ! i) \<and> rs ! i = Ok () \<longrightarrow>
        tcp_Get c authenticated_key w = Some (VBool True) \<or> (\<exists>j < i. is_auth (ms ! j) \<and> rs ! j = Ok ()))
    \<and> (tcp_Get c authenticated_key w' = Some (VBool True) \<longleftrightarrow>
        tcp_Get c authenticated_key w = Some (VBool True) \<or> (\<exists>i < length rs. is_auth (ms ! i) \<and> rs ! i = Ok ()))
    \<and> serve (AuthWithCode tcp_ops (\<lambda>d a. False) h) ctx c ms w = (rs, w')"
proof -
  have keeps: "tcp_attrs.keeps_attribute c h"
    using assms(2) unfolding tcp_attrs.keeps_attribute_def by (simp add: tcp_ops_def)
  have auth: "authenticated tcp_ops c v \<longleftrightarrow> tcp_Get c authenticated_key v = Some (VBool True)" for v :: "'a tcp_world"
    by (simp add: authenticated_def tcp_ops_def)
  have "AuthWithCode tcp_ops (\<lambda>d a. False) h = AuthWithCode tcp_ops validate h"
    by (intro ext) (simp add: AuthWithCode_def)
  with assms(3) have "serve (AuthWithCode tcp_ops (\<lambda>d a. False) h) ctx c ms w = (rs, w')" by simp
  with tcp_attrs.AuthWithCode_session [OF keeps assms(1,3)] tcp_attrs.AuthWithCode_gate [OF keeps assms(1,3)]
  show ?thesis by (auto simp: auth)
qed

theorem tcp_auth_session_witness:
  "\<exists>rs w'. serve (AuthWithCode tcp_ops (\<lambda>d a. True) (\<lambda>ctx c m w. (Ok (), w))) Background 0
       [sample_message_of 0x0200 [], sample_message_of 0x0102 [], sample_message_of 0x0200 []]
       (NewTCPServer 0 ()\<lparr>tw_conns := [NewTCPConnection sample_net 0]\<rparr>) = (rs, w')
     \<and> rs ! 0 \<noteq> Ok () \<and> rs ! 2 = Ok ()"
proof -
  let ?w = "NewTCPServer 0 ()\<lparr>tw_conns := [NewTCPConnection sample_net 0]\<rparr>"
  let ?ms = "[sample_message_of 0x0200 [], sample_message_of 0x0102 [], sample_message_of 0x0200 []]"
  let ?h = "\<lambda>ctx c m w. (Ok (), w) :: unit res \<times> unit tcp_world"
  obtain rs w' where s: "serve (AuthWithCode tcp_ops (\<lambda>d a. True) ?h) Background 0 ?ms ?w = (rs, w')" by fastforce
  have len: "0 < length (tw_conns ?w)" by simp
  have none: "tcp_Get 0 authenticated_key ?w = None"
    by (simp add: tcp_Get_def NewTCPConnection_def)
  have "length rs = 3 \<and> rs ! 2 = Ok ()"
    using s by (auto simp: AuthWithCode_def sample_message_of_def msg_id_def proto_consts not_authenticated_def
        tcp_ops_def tcp_Get_def tcp_Set_def SetAuthenticated_def upd_conn_def gm_get_def gm_put_def NewTCPConnection_def)
  moreover have "gated (?ms ! 0)" by (simp add: gated_def sample_message_of_def msg_id_def proto_consts)
  ultimately show ?thesis
    using tcp_auth_session [OF len _ s] none s by (intro exI [of _ rs] exI [of _ w']) force
qed

end
