(* ===== verification/HpServer.thy ===== *)
theory HpServer
  imports ServerBase ConnPools WorkerPools
begin

text \<open>
  \<^verbatim>\<open>transport/tcp_highperf.go\<close>: the server that registers its connections in a sharded pool, hands
  messages to a worker pool and writes through a bounded channel per connection. The first part has
  the operations; the second the system, in which the connections' goroutines, their write loops, the
  workers, the application and \<^verbatim>\<open>Stop\<close> interleave.
\<close>

section \<open>State\<close>

record HighPerfConfig =
  hp_ListenAddr :: gostring
  hp_MaxConnections :: int
  hp_ReadTimeout :: go_duration
  hp_WriteTimeout :: go_duration
  hp_IdleTimeout :: go_duration
  hp_ReadBufferSize :: int
  hp_WriteBufferSize :: int
  hp_MaxPacketSize :: int
  hp_MinWorkers :: int
  hp_MaxWorkers :: int
  hp_WorkerQueueSize :: int
  hp_ConnPoolShardCount :: int
  hp_AcceptParallel :: int
  hp_EnableTCPNoDelay :: bool
  hp_EnableTCPKeepAlive :: bool
  hp_TCPKeepAliveInterval :: go_duration

definition DefaultHighPerfConfig :: "int \<Rightarrow> HighPerfConfig" where
  "DefaultHighPerfConfig numCPU =
     \<lparr>hp_ListenAddr = go_str '':8080'', hp_MaxConnections = 200000, hp_ReadTimeout = 60 * 10 ^ 9,
      hp_WriteTimeout = 60 * 10 ^ 9, hp_IdleTimeout = 300 * 10 ^ 9, hp_ReadBufferSize = 8192,
      hp_WriteBufferSize = 8192, hp_MaxPacketSize = 4096, hp_MinWorkers = 1000, hp_MaxWorkers = 50000,
      hp_WorkerQueueSize = 1000000, hp_ConnPoolShardCount = defaultShardCount, hp_AcceptParallel = numCPU,
      hp_EnableTCPNoDelay = True, hp_EnableTCPKeepAlive = True, hp_TCPKeepAliveInterval = 30 * 10 ^ 9\<rparr>"

text \<open>Where a connection's write loop is: at its \<^verbatim>\<open>select\<close>, with a frame taken off the channel, returned.\<close>

datatype writer = WSelect | WHolding "byte list" | WReturned

record hp_conn =
  hc_net :: net_conn
  hc_deviceID :: gostring
  hc_connected :: bool
  hc_lastActive :: go_time
  hc_attributes :: "(gostring, go_value) gomap"
  hc_cancelled :: bool
  hc_writeChan :: "byte list list"
  hc_chanClosed :: bool
  hc_writer :: writer

record 'app hp_world =
  hw_conns :: "hp_conn list"
  hw_connPool :: "nat pool"
  hw_stats :: server_stats
  hw_cancelled :: bool
  hw_buffers :: buffer_pool
  hw_now :: go_time
  hw_app :: 'app

definition NewHighPerfTCPServer :: "HighPerfConfig \<Rightarrow> go_time \<Rightarrow> 'app \<Rightarrow> 'app hp_world" where
  "NewHighPerfTCPServer cfg now app =
     \<lparr>hw_conns = [], hw_connPool = NewShardedConnectionPool (hp_ConnPoolShardCount cfg), hw_stats = new_stats now,
      hw_cancelled = False, hw_buffers = [], hw_now = now, hw_app = app\<rparr>"

definition writeChan_cap :: nat where
  "writeChan_cap = 100"

definition NewHighPerfTCPConnection :: "net_conn \<Rightarrow> go_time \<Rightarrow> hp_conn" where
  "NewHighPerfTCPConnection n now =
     \<lparr>hc_net = n, hc_deviceID = [], hc_connected = True, hc_lastActive = now, hc_attributes = [],
      hc_cancelled = False, hc_writeChan = [], hc_chanClosed = False, hc_writer = WSelect\<rparr>"

definition hupd :: "nat \<Rightarrow> (hp_conn \<Rightarrow> hp_conn) \<Rightarrow> 'app hp_world \<Rightarrow> 'app hp_world" where
  "hupd c f w = w\<lparr>hw_conns := (hw_conns w)[c := f (hw_conns w ! c)]\<rparr>"

definition hstats :: "(server_stats \<Rightarrow> server_stats) \<Rightarrow> 'app hp_world \<Rightarrow> 'app hp_world" where
  "hstats f w = w\<lparr>hw_stats := f (hw_stats w)\<rparr>"

section \<open>Connections\<close>

text \<open>\<^verbatim>\<open>Send\<close>: into the channel when there is room, else a synchronous write past it.\<close>

definition hp_Send :: "nat \<Rightarrow> Message option \<Rightarrow> 'app hp_world \<Rightarrow> unit res \<times> 'app hp_world" where
  "hp_Send c msg w =
     (if \<not> hc_connected (hw_conns w ! c) then (Err ConnectionClosed, w)
      else
        (case snd (Encode msg) of
           Err e \<Rightarrow> (Err e, w)
         | Panic p \<Rightarrow> (Panic p, w)
         | Ok data \<Rightarrow>
             (if length (hc_writeChan (hw_conns w ! c)) < writeChan_cap
              then (Ok (), hupd c (\<lambda>hc. hc\<lparr>hc_writeChan := hc_writeChan hc @ [data]\<rparr>) w)
              else
                (case net_Write data (hc_net (hw_conns w ! c)) of
                   (Err e, n) \<Rightarrow> (Err e, hupd c (hc_net_update (\<lambda>_. n)) w)
                 | (Panic p, n) \<Rightarrow> (Panic p, hupd c (hc_net_update (\<lambda>_. n)) w)
                 | (Ok _, n) \<Rightarrow>
                     (Ok (), hupd c (\<lambda>hc. hc\<lparr>hc_net := n, hc_lastActive := hw_now w\<rparr>)
                               (hstats (add_Sent 1) w))))))"

definition hc_close :: "hp_conn \<Rightarrow> hp_conn" where
  "hc_close hc = hc\<lparr>hc_connected := False, hc_chanClosed := True, hc_cancelled := True,
     hc_net := snd (net_Close (hc_net hc))\<rparr>"

definition hp_Close :: "nat \<Rightarrow> 'app hp_world \<Rightarrow> unit res \<times> 'app hp_world" where
  "hp_Close c w =
     (if hc_connected (hw_conns w ! c)
      then (fst (net_Close (hc_net (hw_conns w ! c))), hupd c hc_close w)
      else (Ok (), w))"

text \<open>One move of \<^verbatim>\<open>writeLoop\<close>: return because the context is done; receive from the channel (the
  buffered frames of a closed channel are still received); write the frame received.\<close>

datatype writer_move = WDone | WReceive | WWrite

definition hp_writeLoop :: "writer_move \<Rightarrow> nat \<Rightarrow> 'app hp_world \<Rightarrow> 'app hp_world option" where
  "hp_writeLoop mv c w =
     (let hc = hw_conns w ! c
      in case (mv, hc_writer hc) of
           (WDone, WSelect) \<Rightarrow>
             if hc_cancelled hc then Some (hupd c (hc_writer_update (\<lambda>_. WReturned)) w) else None
         | (WReceive, WSelect) \<Rightarrow>
             (case hc_writeChan hc of
                data # rest \<Rightarrow> Some (hupd c (\<lambda>hc. hc\<lparr>hc_writeChan := rest, hc_writer := WHolding data\<rparr>) w)
              | [] \<Rightarrow> if hc_chanClosed hc then Some (hupd c (hc_writer_update (\<lambda>_. WReturned)) w) else None)
         | (WWrite, WHolding data) \<Rightarrow>
             (case net_Write data (hc_net hc) of
                (Ok _, n) \<Rightarrow>
                  Some (hupd c (\<lambda>hc. hc\<lparr>hc_net := n, hc_lastActive := hw_now w, hc_writer := WSelect\<rparr>)
                          (hstats (add_Sent 1) w))
              | (_, n) \<Rightarrow>
                  (let w1 = hupd c (\<lambda>hc. if hc_connected hc then hc_close hc else hc) w
                   in Some (hupd c (hc_writer_update (\<lambda>_. WReturned)) (hstats (add_Error 1) w1))))
         | _ \<Rightarrow> None)"

definition hp_DeviceID :: "nat \<Rightarrow> 'app hp_world \<Rightarrow> gostring" where
  "hp_DeviceID c w = hc_deviceID (hw_conns w ! c)"

definition hp_IsConnected :: "nat \<Rightarrow> 'app hp_world \<Rightarrow> bool" where
  "hp_IsConnected c w = hc_connected (hw_conns w ! c)"

definition hp_RemoteAddr :: "nat \<Rightarrow> 'app hp_world \<Rightarrow> gostring" where
  "hp_RemoteAddr c w = nc_addr (hc_net (hw_conns w ! c))"

definition hp_conn_Set :: "nat \<Rightarrow> gostring \<Rightarrow> go_value \<Rightarrow> 'app hp_world \<Rightarrow> 'app hp_world" where
  "hp_conn_Set c key v w = hupd c (\<lambda>hc. hc\<lparr>hc_attributes := gm_put key v (hc_attributes hc)\<rparr>) w"

definition hp_conn_Get :: "nat \<Rightarrow> gostring \<Rightarrow> 'app hp_world \<Rightarrow> go_value option" where
  "hp_conn_Get c key w = gm_get (hc_attributes (hw_conns w ! c)) key"

definition hp_LastActiveTime :: "nat \<Rightarrow> 'app hp_world \<Rightarrow> go_time" where
  "hp_LastActiveTime c w = hc_lastActive (hw_conns w ! c)"

definition hp_SetDeviceID :: "nat \<Rightarrow> gostring \<Rightarrow> 'app hp_world \<Rightarrow> 'app hp_world" where
  "hp_SetDeviceID c deviceID w =
     (let oldDeviceID = hc_deviceID (hw_conns w ! c);
          w1 = hupd c (hc_deviceID_update (\<lambda>_. deviceID)) w;
          w2 = (if oldDeviceID \<noteq> [] \<and> oldDeviceID \<noteq> deviceID
                then w1\<lparr>hw_connPool := hp_DeleteConn oldDeviceID c (hw_connPool w1)\<rparr> else w1)
      in if deviceID \<noteq> [] then w2\<lparr>hw_connPool := hp_Put (\<lambda>c. hp_DeviceID c w2) c (hw_connPool w2)\<rparr> else w2)"

definition hp_ops :: "'app hp_world conn_iface" where
  "hp_ops = \<lparr>conn_Get = hp_conn_Get, conn_Set = hp_conn_Set, conn_DeviceID = hp_DeviceID, conn_RemoteAddr = hp_RemoteAddr\<rparr>"

section \<open>The server\<close>

definition hp_GetConnection :: "gostring \<Rightarrow> 'app hp_world \<Rightarrow> nat res" where
  "hp_GetConnection deviceID w =
     (case hp_Get (hw_connPool w) deviceID of Some c \<Rightarrow> Ok c | None \<Rightarrow> Err (ConnectionNotFound deviceID))"

definition hp_GetStats :: "'app hp_world \<Rightarrow> ServerStats" where
  "hp_GetStats w = stats_snapshot (hw_now w) (hw_stats w)"

definition GetHighPerfStats :: "'app hp_world \<Rightarrow> 't hp_workers \<Rightarrow> server_stats \<times> hp_worker_stats" where
  "GetHighPerfStats w p = (hw_stats w, hp_Stats p)"

definition processMessage ::
  "'app hp_world server \<Rightarrow> nat \<Rightarrow> Message \<Rightarrow> 'app hp_world \<Rightarrow> outcome \<times> 'app hp_world" where
  "processMessage srv c msg w =
     (case msg_id msg of
        Ok mid \<Rightarrow>
          (case gm_get (sv_handlers srv) mid of
             None \<Rightarrow> (Return, w)
           | Some h \<Rightarrow>
               (case apply_middleware (sv_middleware srv) h Background c msg w of
                  (Ok _, w1) \<Rightarrow> (Return, w1)
                | (Err e, w1) \<Rightarrow> report_error (hstats (add_Error 1)) srv c e Return w1
                | (Panic p, w1) \<Rightarrow> (Crash p, w1)))
      | Err e \<Rightarrow> (Return, w)
      | Panic p \<Rightarrow> (Crash p, w))"

text \<open>One iteration of the loop of \<^verbatim>\<open>handleConn\<close> up to \<^verbatim>\<open>Submit\<close>: the message to submit, or how it ended.\<close>

definition hp_iter ::
  "HighPerfConfig \<Rightarrow> 'app hp_world server \<Rightarrow> nat \<Rightarrow> 'app hp_world \<Rightarrow> (Message + outcome) \<times> 'app hp_world" where
  "hp_iter cfg srv c w =
     (if hw_cancelled w then (Inr Return, w)
      else
        (let ((r, rd), bufs) = hp_readMessage (hp_MaxPacketSize cfg) (hw_buffers w) (nc_reader (hc_net (hw_conns w ! c)));
             w1 = (hupd c (hc_net_update (nc_reader_update (\<lambda>_. rd))) w)\<lparr>hw_buffers := bufs\<rparr>
         in case r of
              Err e \<Rightarrow>
                if e \<noteq> IoEOF then apfst Inr (report_error (hstats (add_Error 1)) srv c e Return w1) else (Inr Return, w1)
            | Panic p \<Rightarrow> (Inr (Crash p), w1)
            | Ok msg \<Rightarrow> (Inl msg, hstats (add_Received 1) w1)))"

definition hp_start :: "'app hp_world server \<Rightarrow> nat \<Rightarrow> 'app hp_world \<Rightarrow> outcome \<times> 'app hp_world" where
  "hp_start srv c w =
     (let w2 = hupd c (\<lambda>hc. NewHighPerfTCPConnection (hc_net hc) (hw_now w)) w;
          w4 = hstats (add_Total 1) (hstats (add_Active 1) w2)
      in case run_connect_hooks (sv_OnConnect srv) c w4 of
           (Ok _, w5) \<Rightarrow> (Continue, w5)
         | (Err e, w5) \<Rightarrow> (Return, hstats (add_Active (- 1)) (snd (hp_Close c (hstats (add_Error 1) w5))))
         | (Panic p, w5) \<Rightarrow> (Crash p, w5))"

definition hp_cleanup :: "'app hp_world server \<Rightarrow> nat \<Rightarrow> 'app hp_world \<Rightarrow> outcome \<times> 'app hp_world" where
  "hp_cleanup srv c w =
     (case run_disconnect_hooks (sv_OnDisconnect srv) c w of
        (Some p, w1) \<Rightarrow> (Crash p, w1)
      | (None, w1) \<Rightarrow>
          (let deviceID = hp_DeviceID c w1;
               w2 = (if deviceID \<noteq> [] then w1\<lparr>hw_connPool := hp_DeleteConn deviceID c (hw_connPool w1)\<rparr> else w1)
           in (Return, hstats (add_Active (- 1)) (snd (hp_Close c w2)))))"

definition hp_at_limit :: "HighPerfConfig \<Rightarrow> 'app hp_world \<Rightarrow> bool" where
  "hp_at_limit cfg w \<longleftrightarrow>
     0 < hp_MaxConnections cfg \<and> hp_MaxConnections cfg \<le> sint (s_ActiveConnections (hw_stats w))"

text \<open>\<^verbatim>\<open>Stop\<close> on the server's own state: cancel, then close the registered connections.\<close>

definition hp_Stop :: "'app hp_world \<Rightarrow> 'app hp_world" where
  "hp_Stop w =
     (let w1 = w\<lparr>hw_cancelled := True\<rparr>
      in pool_Range (\<lambda>deviceID c w. (snd (hp_Close c w), True)) (map shard_conns (shards (hw_connPool w1))) w1)"

section \<open>Calls of the application\<close>

datatype 'app hp_call =
    HSend nat "Message option"
  | HClose nat
  | HSet nat gostring go_value
  | HSetDeviceID nat gostring
  | HApp "'app \<Rightarrow> 'app"

fun hp_call_exec :: "'app hp_call \<Rightarrow> 'app hp_world \<Rightarrow> 'app hp_world" where
  "hp_call_exec (HSend c m) w = snd (hp_Send c m w)"
| "hp_call_exec (HClose c) w = snd (hp_Close c w)"
| "hp_call_exec (HSet c k v) w = hp_conn_Set c k v w"
| "hp_call_exec (HSetDeviceID c d) w = hp_SetDeviceID c d w"
| "hp_call_exec (HApp f) w = w\<lparr>hw_app := f (hw_app w)\<rparr>"

fun hp_own_calls :: "nat \<Rightarrow> 'app hp_call \<Rightarrow> bool" where
  "hp_own_calls c (HSetDeviceID c' d) = (c' = c)"
| "hp_own_calls c x = True"

fun hp_no_claim :: "'app hp_call \<Rightarrow> bool" where
  "hp_no_claim (HSetDeviceID c d) = False"
| "hp_no_claim x = True"

abbreviation hp_server_ok :: "'app hp_world server \<Rightarrow> bool" where
  "hp_server_ok \<equiv> server_ok hp_call_exec hp_own_calls hp_no_claim"

section \<open>The system\<close>

text \<open>
  The connections' goroutines are the submitters of the worker pool, the connection's index naming
  the submitter; a task is a connection and a message.
\<close>

record 'app hp_sys =
  hs_world :: "'app hp_world"
  hs_phases :: "phase list"
  hs_workers :: "(nat \<times> Message) hp_workers"
  hs_crashed :: "go_panic option"

definition hp_init :: "HighPerfConfig \<Rightarrow> (nat \<times> Message) hp_workers \<Rightarrow> go_time \<Rightarrow> 'app \<Rightarrow> 'app hp_sys" where
  "hp_init cfg p now app =
     \<lparr>hs_world = NewHighPerfTCPServer cfg now app, hs_phases = [], hs_workers = p, hs_crashed = None\<rparr>"

definition hp_accept :: "net_conn \<Rightarrow> 'app hp_sys \<Rightarrow> 'app hp_sys" where
  "hp_accept n s =
     s\<lparr>hs_world := (hs_world s)\<lparr>hw_conns := hw_conns (hs_world s) @ [NewHighPerfTCPConnection n (hw_now (hs_world s))]\<rparr>,
       hs_phases := hs_phases s @ [Spawned],
       hs_workers := (hs_workers s)\<lparr>subs := subs (hs_workers s) @ [SIdle]\<rparr>\<rparr>"

definition hp_goroutine_step ::
  "nat \<Rightarrow> (outcome \<Rightarrow> phase) \<Rightarrow> outcome \<times> 'app hp_world \<Rightarrow> 'app hp_sys \<Rightarrow> 'app hp_sys" where
  "hp_goroutine_step c next_phase r s =
     s\<lparr>hs_world := snd r, hs_phases := (hs_phases s)[c := next_phase (fst r)], hs_crashed := crash_of (fst r)\<rparr>"

text \<open>The result of \<^verbatim>\<open>Submit\<close> once the submitter is idle again.\<close>

fun submitted :: "'t hp_event \<Rightarrow> bool" where
  "submitted (HSelectSend i) = True"
| "submitted (HBlockedSend i) = True"
| "submitted e = False"

definition after_submit :: "'t hp_event \<Rightarrow> nat \<Rightarrow> 't hp_workers \<Rightarrow> phase" where
  "after_submit e c p = (if subs p ! c = SIdle \<and> \<not> submitted e then Leaving else Reading)"

definition hp_read_step :: "nat \<Rightarrow> (Message + outcome) \<times> 'app hp_world \<Rightarrow> 'app hp_sys \<Rightarrow> 'app hp_sys option" where
  "hp_read_step c r s =
     (case r of
        (Inr out, w) \<Rightarrow> Some (hp_goroutine_step c after_iter (out, w) s)
      | (Inl msg, w) \<Rightarrow>
          (case hp_exec (HCall c (c, msg)) (hs_workers s) of
             None \<Rightarrow> None
           | Some p \<Rightarrow>
               Some (s\<lparr>hs_world := w, hs_workers := p,
                       hs_phases := (hs_phases s)[c := after_submit (HCall c (c, msg)) c p]\<rparr>)))"

definition hp_worker_step :: "'app hp_world server \<Rightarrow> nat \<Rightarrow> (nat \<times> Message) hp_event \<Rightarrow> 'app hp_sys \<Rightarrow> 'app hp_sys option" where
  "hp_worker_step srv i e s =
     (case hp_exec e (hs_workers s) of
        None \<Rightarrow> None
      | Some p \<Rightarrow>
          (case (e, tworkers (hs_workers s) ! i) of
             (HWorkerFinish j, Running (c, msg)) \<Rightarrow>
               (let r = processMessage srv c msg (hs_world s)
                in Some (s\<lparr>hs_world := snd r, hs_workers := p, hs_crashed := crash_of (fst r)\<rparr>))
           | _ \<Rightarrow> Some (s\<lparr>hs_workers := p\<rparr>)))"

inductive hp_step :: "HighPerfConfig \<Rightarrow> 'app hp_world server \<Rightarrow> 'app hp_sys \<Rightarrow> 'app hp_sys \<Rightarrow> bool"
  for cfg srv where
  accepted: "hs_crashed s = None \<Longrightarrow> \<not> hw_cancelled (hs_world s) \<Longrightarrow> \<not> hp_at_limit cfg (hs_world s) \<Longrightarrow>
    \<not> nc_closed n \<Longrightarrow> hp_step cfg srv s (hp_accept n s)"
| refused: "hs_crashed s = None \<Longrightarrow> \<not> hw_cancelled (hs_world s) \<Longrightarrow> hp_at_limit cfg (hs_world s) \<Longrightarrow>
    hp_step cfg srv s s"
| accept_error: "hs_crashed s = None \<Longrightarrow> \<not> hw_cancelled (hs_world s) \<Longrightarrow>
    hp_step cfg srv s (s\<lparr>hs_world := hstats (add_Error 1) (hs_world s)\<rparr>)"
| start: "hs_crashed s = None \<Longrightarrow> c < length (hs_phases s) \<Longrightarrow> hs_phases s ! c = Spawned \<Longrightarrow>
    hp_step cfg srv s (hp_goroutine_step c after_start (hp_start srv c (hs_world s)) s)"
| iter: "hs_crashed s = None \<Longrightarrow> c < length (hs_phases s) \<Longrightarrow> hs_phases s ! c = Reading \<Longrightarrow>
    subs (hs_workers s) ! c = SIdle \<Longrightarrow> hp_read_step c (hp_iter cfg srv c (hs_world s)) s = Some s' \<Longrightarrow>
    hp_step cfg srv s s'"
| submit: "hs_crashed s = None \<Longrightarrow> c < length (hs_phases s) \<Longrightarrow> hs_phases s ! c = Reading \<Longrightarrow>
    subs (hs_workers s) ! c \<noteq> SIdle \<Longrightarrow> event_sub e = Some c \<Longrightarrow> hp_exec e (hs_workers s) = Some p \<Longrightarrow>
    hp_step cfg srv s (s\<lparr>hs_workers := p, hs_phases := (hs_phases s)[c := after_submit e c p]\<rparr>)"
| work: "hs_crashed s = None \<Longrightarrow> event_worker e = Some i \<Longrightarrow> hp_worker_step srv i e s = Some s' \<Longrightarrow>
    hp_step cfg srv s s'"
| adjust: "hs_crashed s = None \<Longrightarrow> hp_exec HAdjust (hs_workers s) = Some p \<Longrightarrow>
    hp_step cfg srv s (s\<lparr>hs_workers := p\<rparr>)"
| writer: "hs_crashed s = None \<Longrightarrow> c < length (hs_phases s) \<Longrightarrow> hs_phases s ! c \<noteq> Spawned \<Longrightarrow>
    hp_writeLoop mv c (hs_world s) = Some w \<Longrightarrow> hp_step cfg srv s (s\<lparr>hs_world := w\<rparr>)"
| cleanup: "hs_crashed s = None \<Longrightarrow> c < length (hs_phases s) \<Longrightarrow> hs_phases s ! c = Leaving \<Longrightarrow>
    hp_step cfg srv s (hp_goroutine_step c after_cleanup (hp_cleanup srv c (hs_world s)) s)"
| app: "hs_crashed s = None \<Longrightarrow> hp_no_claim x \<Longrightarrow>
    hp_step cfg srv s (s\<lparr>hs_world := hp_call_exec x (hs_world s)\<rparr>)"
| stop: "hs_crashed s = None \<Longrightarrow>
    hp_step cfg srv s (s\<lparr>hs_world := hp_Stop (hs_world s), hs_workers := (hs_workers s)\<lparr>tdone := True\<rparr>\<rparr>)"
| clock: "0 \<le> d \<Longrightarrow> hp_step cfg srv s (s\<lparr>hs_world := (hs_world s)\<lparr>hw_now := hw_now (hs_world s) + d\<rparr>\<rparr>)"

inductive hp_reachable :: "HighPerfConfig \<Rightarrow> 'app hp_world server \<Rightarrow> 'app hp_sys \<Rightarrow> bool" for cfg srv where
  init: "NewHPWorkerPool 0 (hp_MinWorkers cfg) (hp_MaxWorkers cfg) (hp_WorkerQueueSize cfg) = Ok p \<Longrightarrow>
    hp_reachable cfg srv (hp_init cfg p now app)"
| step: "hp_reachable cfg srv s \<Longrightarrow> hp_step cfg srv s s' \<Longrightarrow> hp_reachable cfg srv s'"

end
