(* ===== verification/HpInv.thy ===== *)
theory HpInv
  imports HpServer
begin

text \<open>
  The invariant of the high-performance server: what its operations keep of the pool of connections,
  the counters, the connections and the worker pool, and that every reachable state satisfies it.
\<close>

section \<open>The world\<close>

definition hp_devices :: "'app hp_world \<Rightarrow> nat \<Rightarrow> gostring" where
  "hp_devices w c = (if c < length (hw_conns w) then hc_deviceID (hw_conns w ! c) else [])"

definition hp_conn_ok :: "phase \<Rightarrow> hp_conn \<Rightarrow> bool" where
  "hp_conn_ok p hc \<longleftrightarrow>
     (p = Spawned \<longrightarrow> hc_deviceID hc = []) \<and>
     (p = Finished \<longrightarrow> \<not> hc_connected hc) \<and> hc_chanClosed hc = (\<not> hc_connected hc) \<and>
     (\<not> hc_connected hc \<longrightarrow> hc_cancelled hc \<and> nc_closed (hc_net hc)) \<and>
     length (hc_writeChan hc) \<le> writeChan_cap"

definition hp_registry_ok :: "'app hp_world \<Rightarrow> phase list \<Rightarrow> bool" where
  "hp_registry_ok w ph \<longleftrightarrow>
     pool_wf fnvHash (hw_connPool w) \<and> owned (hp_devices w) (pool_Get fnvHash (hw_connPool w)) \<and>
     (\<forall>k c. pool_Get fnvHash (hw_connPool w) k = Some c \<longrightarrow> c < length ph)"

definition hp_counts_ok :: "'app hp_world \<Rightarrow> phase list \<Rightarrow> bool" where
  "hp_counts_ok w ph \<longleftrightarrow>
     s_ActiveConnections (hw_stats w) = of_nat (length (filter live ph)) \<and>
     s_TotalConnections (hw_stats w) = of_nat (length (filter (\<lambda>p. p \<noteq> Spawned) ph))"

definition hp_conns_ok :: "'app hp_world \<Rightarrow> phase list \<Rightarrow> bool" where
  "hp_conns_ok w ph \<longleftrightarrow> list_all2 hp_conn_ok ph (hw_conns w)"

definition hp_world_inv :: "'app hp_world \<Rightarrow> phase list \<Rightarrow> bool" where
  "hp_world_inv w ph \<longleftrightarrow> hp_registry_ok w ph \<and> hp_counts_ok w ph \<and> hp_conns_ok w ph"

lemma hupd_simps [simp]:
  "hw_connPool (hupd c f w) = hw_connPool w" "hw_stats (hupd c f w) = hw_stats w"
  "hw_cancelled (hupd c f w) = hw_cancelled w" "hw_now (hupd c f w) = hw_now w"
  "hw_app (hupd c f w) = hw_app w" "hw_buffers (hupd c f w) = hw_buffers w"
  "length (hw_conns (hupd c f w)) = length (hw_conns w)"
  by (simp_all add: hupd_def)

lemma hupd_nth: "c' < length (hw_conns w) \<Longrightarrow>
    hw_conns (hupd c f w) ! c' = (if c' = c then f (hw_conns w ! c) else hw_conns w ! c')"
  by (simp add: hupd_def nth_list_update)

lemma hstats_simps [simp]:
  "hw_connPool (hstats f w) = hw_connPool w" "hw_conns (hstats f w) = hw_conns w"
  "hw_cancelled (hstats f w) = hw_cancelled w" "hw_now (hstats f w) = hw_now w"
  "hw_app (hstats f w) = hw_app w" "hw_stats (hstats f w) = f (hw_stats w)"
  "hw_buffers (hstats f w) = hw_buffers w"
  by (simp_all add: hstats_def)

lemma hp_conns_nth: "hp_conns_ok w ph \<Longrightarrow> c < length ph \<Longrightarrow> hp_conn_ok (ph ! c) (hw_conns w ! c)"
  by (simp add: hp_conns_ok_def list_all2_nthD)

lemma hp_conns_length: "hp_conns_ok w ph \<Longrightarrow> length (hw_conns w) = length ph"
  by (simp add: hp_conns_ok_def list_all2_lengthD)

lemma hp_conns_upd:
  assumes "hp_conns_ok w ph" and "c < length ph \<Longrightarrow> hp_conn_ok p (f (hw_conns w ! c))"
  shows "hp_conns_ok (hupd c f w) (ph[c := p])"
  using assms unfolding hp_conns_ok_def
  by (cases "c < length (hw_conns w)") (auto simp: hupd_def list_all2_conv_all_nth nth_list_update)

lemma hp_devices_upd:
  "hc_deviceID (f (hw_conns w ! c)) = hc_deviceID (hw_conns w ! c) \<Longrightarrow> hp_devices (hupd c f w) = hp_devices w"
  by (rule ext) (simp add: hp_devices_def hupd_nth)

lemma hp_devices_cong: "hw_conns w' = hw_conns w \<Longrightarrow> hp_devices w' = hp_devices w"
  by (rule ext) (simp add: hp_devices_def)

lemma hp_inv_hupd:
  assumes "hp_world_inv w ph" and "hc_deviceID (f (hw_conns w ! c)) = hc_deviceID (hw_conns w ! c)"
    and "c < length ph \<Longrightarrow> hp_conn_ok (ph ! c) (f (hw_conns w ! c))"
  shows "hp_world_inv (hupd c f w) ph"
  using assms hp_conns_upd [of w ph c "ph ! c" f] hp_devices_upd [of f w c, OF assms(2)]
  by (simp add: hp_world_inv_def hp_registry_ok_def hp_counts_ok_def)

text \<open>The invariant speaks of the connections, the pool and two of the counters.\<close>

lemma hp_inv_frame:
  assumes "hp_world_inv w ph" and "hw_conns w' = hw_conns w" and "hw_connPool w' = hw_connPool w"
    and "s_ActiveConnections (hw_stats w') = s_ActiveConnections (hw_stats w)"
    and "s_TotalConnections (hw_stats w') = s_TotalConnections (hw_stats w)"
  shows "hp_world_inv w' ph"
  using assms(1)
  unfolding hp_world_inv_def hp_registry_ok_def hp_counts_ok_def hp_conns_ok_def
    hp_devices_cong [OF assms(2)] assms(2-5) .

lemma hp_inv_hstats:
  assumes "hp_world_inv w ph" and "\<And>s. s_ActiveConnections (f s) = s_ActiveConnections s"
    and "\<And>s. s_TotalConnections (f s) = s_TotalConnections s"
  shows "hp_world_inv (hstats f w) ph"
  by (rule hp_inv_frame [OF assms(1)]) (simp_all add: assms)

lemma hp_inv_conn:
  "hp_world_inv w ph \<Longrightarrow> c < length ph \<Longrightarrow> hp_conn_ok (ph ! c) (hw_conns w ! c)"
  by (simp add: hp_world_inv_def hp_conns_nth)

subsection \<open>The calls\<close>

lemma hc_close_ok: "hp_conn_ok p hc \<Longrightarrow> hp_conn_ok p (hc_close hc)"
  by (auto simp: hp_conn_ok_def hc_close_def)

lemma hc_close_device [simp]: "hc_deviceID (hc_close hc) = hc_deviceID hc"
  by (simp add: hc_close_def)

lemma hp_inv_Close: "hp_world_inv w ph \<Longrightarrow> hp_world_inv (snd (hp_Close c w)) ph"
  using hp_inv_conn [of w ph c] by (auto simp: hp_Close_def hp_inv_hupd hc_close_ok)

lemma hp_Close_cancelled [simp]: "hw_cancelled (snd (hp_Close c w)) = hw_cancelled w"
  by (simp add: hp_Close_def)

lemma hp_inv_Set: "hp_world_inv w ph \<Longrightarrow> hp_world_inv (hp_conn_Set c k v w) ph"
  using hp_inv_conn [of w ph c] unfolding hp_conn_Set_def
  by (intro hp_inv_hupd) (auto simp: hp_conn_ok_def)

lemma hp_inv_Send: "hp_world_inv w ph \<Longrightarrow> hp_world_inv (snd (hp_Send c msg w)) ph"
proof -
  assume inv: "hp_world_inv w ph"
  let ?hc = "hw_conns w ! c"
  have queued: "hp_world_inv (hupd c (\<lambda>hc. hc\<lparr>hc_writeChan := hc_writeChan hc @ [d]\<rparr>) w) ph"
    if "length (hc_writeChan ?hc) < writeChan_cap" for d
    using inv that hp_inv_conn [OF inv, of c] by (intro hp_inv_hupd) (auto simp: hp_conn_ok_def)
  have net: "hp_world_inv (hupd c (hc_net_update (\<lambda>_. snd (net_Write d (hc_net ?hc)))) w) ph" for d
    using inv hp_inv_conn [OF inv, of c] by (intro hp_inv_hupd) (auto simp: hp_conn_ok_def)
  have sent: "hp_world_inv (hupd c (\<lambda>hc. hc\<lparr>hc_net := snd (net_Write d (hc_net ?hc)), hc_lastActive := t\<rparr>)
      (hstats (add_Sent 1) w)) ph" for d t
    using hp_inv_hstats [OF inv, of "add_Sent 1"] hp_inv_conn [OF inv, of c]
    by (intro hp_inv_hupd) (auto simp: hp_conn_ok_def)
  show ?thesis
    using inv queued net sent
    by (auto simp: hp_Send_def split: go.splits prod.splits) (metis snd_conv)+
qed

lemma pool_Put_at: "pool_Put hash f c p = pool_Put hash (\<lambda>_. f c) c p"
  by (simp add: pool_Put_def)

lemma hp_SetDeviceID_pool:
  assumes "c < length (hw_conns w)"
  shows "hw_connPool (hp_SetDeviceID c d w) =
    claim_device (\<lambda>k. pool_Put fnvHash (\<lambda>_. k)) (pool_DeleteConn fnvHash) (hc_deviceID (hw_conns w ! c)) d c (hw_connPool w)"
proof -
  have "pool_Put fnvHash (\<lambda>c. hp_DeviceID c v) c p = pool_Put fnvHash (\<lambda>_. hp_DeviceID c v) c p"
    for v :: "'a hp_world" and p
    by (rule pool_Put_at)
  then show ?thesis
    using assms by (simp add: hp_SetDeviceID_def claim_device_def Let_def hp_DeviceID_def hupd_nth)
qed

lemma hp_SetDeviceID_parts [simp]:
  "hw_conns (hp_SetDeviceID c d w) = hw_conns (hupd c (hc_deviceID_update (\<lambda>_. d)) w)"
  "hw_stats (hp_SetDeviceID c d w) = hw_stats w" "hw_cancelled (hp_SetDeviceID c d w) = hw_cancelled w"
  by (simp_all add: hp_SetDeviceID_def Let_def)

lemma hp_inv_SetDeviceID:
  assumes inv: "hp_world_inv w ph" and c: "c < length ph" and named: "ph ! c \<noteq> Spawned"
  shows "hp_world_inv (hp_SetDeviceID c d w) ph"
proof -
  let ?m = "hw_connPool w" and ?old = "hc_deviceID (hw_conns w ! c)"
  have len: "c < length (hw_conns w)"
    using inv c hp_conns_length [of w ph] by (simp add: hp_world_inv_def)
  have wf: "pool_wf fnvHash ?m" "owned (hp_devices w) (pool_Get fnvHash ?m)"
    and bound: "\<And>k c'. pool_Get fnvHash ?m k = Some c' \<Longrightarrow> c' < length ph"
    using inv by (auto simp: hp_world_inv_def hp_registry_ok_def)
  have old: "hp_devices w c = ?old" using len by (simp add: hp_devices_def)
  have dev: "hp_devices (hp_SetDeviceID c d w) = (hp_devices w)(c := d)"
    using len by (auto simp: hp_devices_def hupd_nth)
  have "hp_registry_ok (hp_SetDeviceID c d w) ph"
    unfolding hp_registry_ok_def hp_SetDeviceID_pool [OF len] dev
    using hp_pool_cad.invar_claim [OF wf(1), of ?old d c] hp_pool_cad.owned_claim [OF wf, of c d] c bound
    by (auto simp: old hp_pool_cad.lookup_claim [OF wf(1)] split: if_splits)
  moreover have "hp_conns_ok (hp_SetDeviceID c d w) ph"
    using hp_conns_upd [of w ph c "ph ! c" "hc_deviceID_update (\<lambda>_. d)"] inv hp_inv_conn [OF inv c] named
    by (simp add: hp_world_inv_def hp_conns_ok_def hp_conn_ok_def)
  ultimately show ?thesis
    using inv by (simp add: hp_world_inv_def hp_counts_ok_def)
qed

lemma hp_inv_call:
  assumes "hp_world_inv w ph" and "hp_own_calls c x" and "c < length ph" and "ph ! c \<noteq> Spawned"
  shows "hp_world_inv (hp_call_exec x w) ph"
  using assms hp_inv_frame [OF assms(1), of "w\<lparr>hw_app := a\<rparr>" for a]
  by (cases x) (simp_all add: hp_inv_Send hp_inv_Close hp_inv_Set hp_inv_SetDeviceID)

lemma hp_inv_call_no_claim: "hp_world_inv w ph \<Longrightarrow> hp_no_claim x \<Longrightarrow> hp_world_inv (hp_call_exec x w) ph"
  using hp_inv_frame [of w ph "w\<lparr>hw_app := a\<rparr>" for a]
  by (cases x) (simp_all add: hp_inv_Send hp_inv_Close hp_inv_Set)

lemma hp_inv_by_calls:
  "by_calls hp_call_exec (hp_own_calls c) w w' \<Longrightarrow> hp_world_inv w ph \<Longrightarrow> c < length ph \<Longrightarrow> ph ! c \<noteq> Spawned \<Longrightarrow>
    hp_world_inv w' ph"
  by (erule by_calls_invariant [where P = "\<lambda>w. hp_world_inv w ph"]) (simp_all add: hp_inv_call)

lemma hp_inv_by_no_claim:
  "by_calls hp_call_exec hp_no_claim w w' \<Longrightarrow> hp_world_inv w ph \<Longrightarrow> hp_world_inv w' ph"
  by (erule by_calls_invariant [where P = "\<lambda>w. hp_world_inv w ph"]) (simp_all add: hp_inv_call_no_claim)

lemma hp_call_cancelled [simp]: "hw_cancelled (hp_call_exec x w) = hw_cancelled w"
  by (cases x) (auto simp: hp_Send_def hp_Close_def hp_conn_Set_def split: go.splits prod.splits)

lemma hp_calls_cancelled: "by_calls hp_call_exec ok w w' \<Longrightarrow> hw_cancelled w' = hw_cancelled w"
  by (erule by_calls_invariant [where P = "\<lambda>v. hw_cancelled v = hw_cancelled w"]) simp_all

subsection \<open>The goroutines\<close>

lemma hp_report_error:
  assumes "hp_server_ok srv" and "hp_world_inv w ph"
  shows "hp_world_inv (snd (report_error (hstats (add_Error 1)) srv c e out w)) ph"
    and "hw_cancelled (snd (report_error (hstats (add_Error 1)) srv c e out w)) = hw_cancelled w"
proof -
  let ?w = "hstats (add_Error 1) w"
  have calls: "by_calls hp_call_exec hp_no_claim ?w (snd (run_error_hooks (sv_OnError srv) c e ?w))"
    using assms(1) by (intro run_error_hooks_calls) (simp add: server_ok_def)
  have "hp_world_inv ?w ph" by (rule hp_inv_hstats [OF assms(2)]) simp_all
  then have "hp_world_inv (snd (run_error_hooks (sv_OnError srv) c e ?w)) ph"
    by (rule hp_inv_by_no_claim [OF calls])
  then show "hp_world_inv (snd (report_error (hstats (add_Error 1)) srv c e out w)) ph"
    and "hw_cancelled (snd (report_error (hstats (add_Error 1)) srv c e out w)) = hw_cancelled w"
    using hp_calls_cancelled [OF calls] by (auto simp: report_error_def split: prod.splits option.splits)
qed

lemma processMessage_inv:
  assumes ok: "hp_server_ok srv" and inv: "hp_world_inv w ph" and c: "c < length ph" "ph ! c \<noteq> Spawned"
  shows "hp_world_inv (snd (processMessage srv c msg w)) ph
    \<and> hw_cancelled (snd (processMessage srv c msg w)) = hw_cancelled w"
proof (cases "msg_id msg")
  case (Ok mid)
  show ?thesis
  proof (cases "gm_get (sv_handlers srv) mid")
    case (Some h)
    obtain r w1 where r: "apply_middleware (sv_middleware srv) h Background c msg w = (r, w1)" by fastforce
    have "h \<in> snd ` set (sv_handlers srv)"
      using Some by (auto simp: gm_get_map_of dest: map_of_SomeD intro: rev_image_eqI)
    with ok have "by_calls hp_call_exec (hp_own_calls c) w
        (snd (apply_middleware (sv_middleware srv) h Background c msg w))"
      unfolding server_ok_def by blast
    then have calls: "by_calls hp_call_exec (hp_own_calls c) w w1" by (simp add: r)
    from hp_inv_by_calls [OF calls inv c] hp_calls_cancelled [OF calls] hp_report_error [OF ok, of w1 ph]
    show ?thesis by (cases r) (simp_all add: processMessage_def Ok Some r)
  qed (use inv Ok in \<open>simp add: processMessage_def\<close>)
qed (use inv in \<open>simp_all add: processMessage_def\<close>)

lemma hp_inv_read:
  "hp_world_inv w ph \<Longrightarrow> hp_world_inv ((hupd c (hc_net_update (nc_reader_update (\<lambda>_. r))) w)\<lparr>hw_buffers := b\<rparr>) ph"
proof -
  assume inv: "hp_world_inv w ph"
  have "hp_world_inv (hupd c (hc_net_update (nc_reader_update (\<lambda>_. r))) w) ph"
    using hp_inv_conn [OF inv, of c] by (intro hp_inv_hupd [OF inv]) (auto simp: hp_conn_ok_def)
  then show ?thesis by (rule hp_inv_frame) simp_all
qed

lemma hp_iter_inv:
  assumes "hp_server_ok srv" and "hp_world_inv w ph"
  shows "hp_world_inv (snd (hp_iter cfg srv c w)) ph \<and> hw_cancelled (snd (hp_iter cfg srv c w)) = hw_cancelled w"
proof -
  have rd: "hp_world_inv ((hupd c (hc_net_update (nc_reader_update (\<lambda>_. r))) w)\<lparr>hw_buffers := b\<rparr>) ph" for r b
    by (rule hp_inv_read [OF assms(2)])
  have "hp_world_inv (hstats (add_Received 1) ((hupd c (hc_net_update (nc_reader_update (\<lambda>_. r))) w)\<lparr>hw_buffers := b\<rparr>)) ph" for r b
    by (rule hp_inv_hstats [OF rd]) simp_all
  with rd hp_report_error [OF assms(1) rd] assms(2) show ?thesis
    by (auto simp: hp_iter_def Let_def split: prod.splits go.splits)
qed

lemma hp_inv_enter:
  assumes inv: "hp_world_inv w ph" and c: "c < length ph" "ph ! c = Spawned"
  shows "hp_world_inv (hstats (add_Total 1) (hstats (add_Active 1)
      (hupd c (\<lambda>hc. NewHighPerfTCPConnection (hc_net hc) (hw_now w)) w))) (ph[c := Reading])" (is "hp_world_inv ?w _")
proof -
  have "hp_devices w c = []"
    using hp_inv_conn [OF inv c(1)] c(2) by (simp add: hp_devices_def hp_conn_ok_def)
  then have unnamed: "pool_Get fnvHash (hw_connPool w) k \<noteq> Some c" for k
    using inv by (auto simp: hp_world_inv_def hp_registry_ok_def owned_def)
  have dev: "hp_devices ?w c' = hp_devices w c'" if "c' \<noteq> c" for c'
    using that by (simp add: hp_devices_def hupd_def)
  have "owned (hp_devices ?w) (pool_Get fnvHash (hw_connPool w))"
    using inv unnamed dev unfolding hp_world_inv_def hp_registry_ok_def owned_def by metis
  then have "hp_registry_ok ?w (ph[c := Reading])"
    using inv by (simp add: hp_world_inv_def hp_registry_ok_def)
  moreover have "hp_counts_ok ?w (ph[c := Reading])"
    using inv c by (simp add: hp_world_inv_def hp_counts_ok_def filter_phase_update)
  moreover have "hp_conns_ok ?w (ph[c := Reading])"
    using inv hp_conns_upd [of w ph c Reading "\<lambda>hc. NewHighPerfTCPConnection (hc_net hc) (hw_now w)"]
    by (simp add: hp_world_inv_def hp_conn_ok_def NewHighPerfTCPConnection_def hp_conns_ok_def)
  ultimately show ?thesis by (simp add: hp_world_inv_def)
qed

lemma hp_inv_leave:
  assumes inv: "hp_world_inv w ph" and c: "c < length ph" "live (ph ! c)"
  shows "hp_world_inv (hstats (add_Active (- 1)) (snd (hp_Close c w))) (ph[c := Finished])" (is "hp_world_inv ?w _")
proof -
  have same: "hw_connPool ?w = hw_connPool w" "hp_devices ?w = hp_devices w"
    using hp_devices_upd [of hc_close w c] hp_devices_cong [of ?w "snd (hp_Close c w)"]
    by (simp_all add: hp_Close_def)
  have "hp_registry_ok ?w (ph[c := Finished])"
    using inv unfolding hp_world_inv_def hp_registry_ok_def same by simp
  moreover have "hp_counts_ok ?w (ph[c := Finished])"
    using inv c by (auto simp: hp_world_inv_def hp_counts_ok_def filter_phase_update hp_Close_def live_def)
  moreover have "hp_conns_ok ?w (ph[c := Finished])"
  proof (cases "hc_connected (hw_conns w ! c)")
    case True
    with inv hp_inv_conn [OF inv c(1)] hp_conns_upd [of w ph c Finished hc_close] show ?thesis
      by (simp add: hp_world_inv_def hp_Close_def hp_conn_ok_def hc_close_def hp_conns_ok_def)
  next
    case False
    with inv hp_inv_conn [OF inv c(1)] hp_conns_upd [of w ph c Finished "\<lambda>hc. hc"] show ?thesis
      by (simp add: hp_world_inv_def hp_Close_def hp_conn_ok_def hp_conns_ok_def hupd_def)
  qed
  ultimately show ?thesis by (simp add: hp_world_inv_def)
qed

lemma hp_start_inv:
  assumes ok: "hp_server_ok srv" and inv: "hp_world_inv w ph" and c: "c < length ph" "ph ! c = Spawned"
  shows "hp_world_inv (snd (hp_start srv c w)) (ph[c := after_start (fst (hp_start srv c w))])
    \<and> hw_cancelled (snd (hp_start srv c w)) = hw_cancelled w"
proof -
  let ?w4 = "hstats (add_Total 1) (hstats (add_Active 1)
      (hupd c (\<lambda>hc. NewHighPerfTCPConnection (hc_net hc) (hw_now w)) w))"
  let ?ph = "ph[c := Reading]"
  obtain r w5 where r: "run_connect_hooks (sv_OnConnect srv) c ?w4 = (r, w5)" by fastforce
  have "by_calls hp_call_exec hp_no_claim ?w4 (snd (run_connect_hooks (sv_OnConnect srv) c ?w4))"
    using ok by (intro run_connect_hooks_calls) (simp add: server_ok_def)
  then have calls: "by_calls hp_call_exec hp_no_claim ?w4 w5" by (simp add: r)
  have inv5: "hp_world_inv w5 ?ph"
    by (rule hp_inv_by_no_claim [OF calls hp_inv_enter [OF inv c]])
  have inv6: "hp_world_inv (hstats (add_Error 1) w5) ?ph"
    by (rule hp_inv_hstats [OF inv5]) simp_all
  have "hw_cancelled w5 = hw_cancelled w"
    using hp_calls_cancelled [OF calls] by simp
  with inv5 hp_inv_leave [OF inv6, of c] c show ?thesis
    by (cases r) (simp_all add: hp_start_def Let_def r hp_Close_def split: if_splits)
qed

lemma hp_cleanup_inv:
  assumes ok: "hp_server_ok srv" and inv: "hp_world_inv w ph" and c: "c < length ph" "ph ! c = Leaving"
  shows "hp_world_inv (snd (hp_cleanup srv c w)) (ph[c := after_cleanup (fst (hp_cleanup srv c w))])
    \<and> hw_cancelled (snd (hp_cleanup srv c w)) = hw_cancelled w"
proof -
  obtain r w1 where r: "run_disconnect_hooks (sv_OnDisconnect srv) c w = (r, w1)" by fastforce
  have "by_calls hp_call_exec hp_no_claim w (snd (run_disconnect_hooks (sv_OnDisconnect srv) c w))"
    using ok by (intro run_disconnect_hooks_calls) (simp add: server_ok_def)
  then have calls: "by_calls hp_call_exec hp_no_claim w w1" by (simp add: r)
  have inv1: "hp_world_inv w1 ph" by (rule hp_inv_by_no_claim [OF calls inv])
  have can: "hw_cancelled w1 = hw_cancelled w" by (rule hp_calls_cancelled [OF calls])
  let ?m = "release_device (pool_DeleteConn fnvHash) (hp_DeviceID c w1) c (hw_connPool w1)"
  let ?w2 = "w1\<lparr>hw_connPool := ?m\<rparr>"
  have reg: "pool_wf fnvHash (hw_connPool w1)" "owned (hp_devices w1) (pool_Get fnvHash (hw_connPool w1))"
    using inv1 by (simp_all add: hp_world_inv_def hp_registry_ok_def)
  have "hp_devices w1 c = hp_DeviceID c w1"
    using inv1 c hp_conns_length [of w1 ph] by (simp add: hp_world_inv_def hp_devices_def hp_DeviceID_def)
  then have m: "pool_Get fnvHash ?m k = (if pool_Get fnvHash (hw_connPool w1) k = Some c then None
      else pool_Get fnvHash (hw_connPool w1) k)" for k
    using hp_pool_cad.release_exact [OF reg, of c k] by simp
  have "hp_devices ?w2 = hp_devices w1" by (rule hp_devices_cong) simp
  then have inv2: "hp_world_inv ?w2 ph"
    using inv1 reg m hp_pool_cad.invar_release [OF reg(1)]
    by (auto simp: hp_world_inv_def hp_registry_ok_def hp_counts_ok_def hp_conns_ok_def owned_def split: if_splits)
  have w2: "(if hp_DeviceID c w1 \<noteq> [] then w1\<lparr>hw_connPool := hp_DeleteConn (hp_DeviceID c w1) c (hw_connPool w1)\<rparr> else w1) = ?w2"
    by (simp add: release_device_def)
  show ?thesis
  proof (cases r)
    case None
    with hp_inv_leave [OF inv2 c(1)] c can show ?thesis
      by (simp add: hp_cleanup_def Let_def r w2)
  next
    case (Some p)
    from c(2) have "ph[c := Leaving] = ph" by (metis list_update_id)
    with Some inv1 can show ?thesis by (simp add: hp_cleanup_def r)
  qed
qed

lemma hp_writeLoop_inv:
  assumes inv: "hp_world_inv w ph" and c: "c < length ph" and w': "hp_writeLoop mv c w = Some w'"
  shows "hp_world_inv w' ph \<and> hw_cancelled w' = hw_cancelled w"
proof -
  let ?hc = "hw_conns w ! c"
  note ok = hp_inv_conn [OF inv c]
  have ret: "hp_world_inv (hupd c (hc_writer_update (\<lambda>_. x)) v) ph" if "hp_world_inv v ph" for v :: "'a hp_world" and x
    using that hp_inv_conn [OF that c] by (intro hp_inv_hupd) (auto simp: hp_conn_ok_def)
  have recv: "hp_world_inv (hupd c (\<lambda>hc. hc\<lparr>hc_writeChan := rest, hc_writer := x\<rparr>) w) ph"
    if "hc_writeChan ?hc = d # rest" for d rest x
    using ok that by (intro hp_inv_hupd [OF inv]) (auto simp: hp_conn_ok_def)
  have sent: "hp_world_inv (hupd c (\<lambda>hc. hc\<lparr>hc_net := snd (net_Write d (hc_net ?hc)), hc_lastActive := t, hc_writer := x\<rparr>)
      (hstats (add_Sent 1) w)) ph" for d t x
    using hp_inv_hstats [OF inv, of "add_Sent 1"] ok by (intro hp_inv_hupd) (auto simp: hp_conn_ok_def)
  have closing: "hp_world_inv (hstats (add_Error 1) (hupd c (\<lambda>hc. if hc_connected hc then hc_close hc else hc) w)) ph"
  proof -
    have "hp_world_inv (hupd c (\<lambda>hc. if hc_connected hc then hc_close hc else hc) w) ph"
      using ok hc_close_ok [OF ok] by (intro hp_inv_hupd [OF inv]) auto
    then show ?thesis by (rule hp_inv_hstats) simp_all
  qed
  show ?thesis
    using w' ret [OF inv] recv sent ret [OF closing]
    by (auto simp: hp_writeLoop_def Let_def split: writer_move.splits writer.splits if_splits list.splits
        prod.splits go.splits) (metis snd_conv)+
qed

lemma hp_Stop_inv:
  assumes "hp_world_inv w ph"
  shows "hp_world_inv (hp_Stop w) ph" and "hw_cancelled (hp_Stop w)"
proof -
  have base: "hp_world_inv (w\<lparr>hw_cancelled := True\<rparr>) ph"
    by (rule hp_inv_frame [OF assms]) simp_all
  have shard: "P (fst (range_shard (\<lambda>d c w. (snd (hp_Close c w), True)) es v))"
    if "P v" "\<And>c v. P v \<Longrightarrow> P (snd (hp_Close c v))" for P and es :: "(gostring \<times> nat) list" and v :: "'a hp_world"
    using that by (induction es arbitrary: v) (auto split: prod.splits)
  have range: "P (pool_Range (\<lambda>d c w. (snd (hp_Close c w), True)) ess v)"
    if "P v" "\<And>c v. P v \<Longrightarrow> P (snd (hp_Close c v))" for P and ess :: "(gostring \<times> nat) list list" and v :: "'a hp_world"
    unfolding pool_Range_concat by (rule shard [where P = P, OF that])
  show "hp_world_inv (hp_Stop w) ph"
    unfolding hp_Stop_def Let_def by (rule range [where P = "\<lambda>w. hp_world_inv w ph", OF base]) (rule hp_inv_Close)
  show "hw_cancelled (hp_Stop w)"
    unfolding hp_Stop_def Let_def by (rule range [where P = hw_cancelled]) (simp_all add: hp_Close_def)
qed

section \<open>The worker pool\<close>

text \<open>The tasks of a pool: queued, running, or held by a goroutine inside \<^verbatim>\<open>Submit\<close>.\<close>

fun sub_task :: "'t submitter \<Rightarrow> 't set" where
  "sub_task SIdle = {}"
| "sub_task (SChecked t) = {t}"
| "sub_task (SSpawn t) = {t}"
| "sub_task (SBlock t) = {t}"

fun worker_task :: "'t worker \<Rightarrow> 't set" where
  "worker_task (Running t) = {t}"
| "worker_task w = {}"

definition hp_tasks :: "'t hp_workers \<Rightarrow> 't set" where
  "hp_tasks p = {t. Some t \<in> set (tq p)} \<union> \<Union> (worker_task ` set (tworkers p)) \<union> \<Union> (sub_task ` set (subs p))"

lemma Union_update_subset: "\<Union> (f ` set (xs[i := x])) \<subseteq> \<Union> (f ` set xs) \<union> f x"
  using set_update_subset_insert [of xs i x] by blast

lemma hp_tasks_sub:
  assumes "i < length (subs p)" and "submit_move e (subs p ! i) p = Some p'"
  shows "hp_tasks p' \<subseteq> hp_tasks p \<union> (case e of HCall j t \<Rightarrow> {t} | _ \<Rightarrow> {})"
    and "length (subs p') = length (subs p)" and "tdone p' = tdone p"
    and "\<And>j. j \<noteq> i \<Longrightarrow> event_sub e = Some i \<Longrightarrow> subs p' ! j = subs p ! j"
proof -
  have mem: "sub_task (subs p ! i) \<subseteq> hp_tasks p"
    using nth_mem [OF assms(1)] by (auto simp: hp_tasks_def)
  show "hp_tasks p' \<subseteq> hp_tasks p \<union> (case e of HCall j t \<Rightarrow> {t} | _ \<Rightarrow> {})"
    using assms(2) mem
    by (elim submit_move.elims)
      (auto simp: hp_tasks_def set_sub_def spawnWorker_def split: if_splits dest!: set_update_subset_insert [THEN subsetD])
  show "length (subs p') = length (subs p)" and "tdone p' = tdone p"
    using assms(2) by (elim submit_move.elims; auto simp: set_sub_def spawnWorker_def split: if_splits)+
  show "subs p' ! j = subs p ! j" if "j \<noteq> i" "event_sub e = Some i" for j
    using assms(2) that by (elim submit_move.elims) (auto simp: set_sub_def spawnWorker_def split: if_splits)
qed

lemma hp_tasks_worker:
  assumes "i < length (tworkers p)" and "worker_move e (tworkers p ! i) p = Some p'"
  shows "hp_tasks p' \<subseteq> hp_tasks p" and "subs p' = subs p" and "tdone p' = tdone p"
proof -
  show "hp_tasks p' \<subseteq> hp_tasks p"
    using assms(2)
    by (elim worker_move.elims)
      (auto simp: hp_tasks_def split: if_splits list.splits option.splits dest!: set_update_subset_insert [THEN subsetD])
  show "subs p' = subs p" and "tdone p' = tdone p"
    using assms(2) by (elim worker_move.elims; auto split: if_splits list.splits option.splits)+
qed

lemma hp_adjust_parts:
  "hp_tasks (adjust p) = hp_tasks p" "subs (adjust p) = subs p" "tdone (adjust p) = tdone p"
  by (auto simp: adjust_def Let_def hp_tasks_def spawnWorker_funpow)

section \<open>The system\<close>

definition hp_tasks_ok :: "(nat \<times> Message) hp_workers \<Rightarrow> phase list \<Rightarrow> bool" where
  "hp_tasks_ok p ph \<longleftrightarrow>
     length (subs p) = length ph \<and> (\<forall>t \<in> hp_tasks p. fst t < length ph \<and> ph ! fst t \<noteq> Spawned)"

definition hp_sys_inv :: "'app hp_sys \<Rightarrow> bool" where
  "hp_sys_inv s \<longleftrightarrow>
     hp_world_inv (hs_world s) (hs_phases s) \<and> hp_inv (hs_workers s) \<and>
     hp_tasks_ok (hs_workers s) (hs_phases s) \<and> tdone (hs_workers s) = hw_cancelled (hs_world s)"

text \<open>A goroutine in its loop stays in it or leaves it.\<close>

lemma hp_world_inv_phase:
  assumes "hp_world_inv w ph" and "c < length ph" and "ph ! c = Reading" and "live p"
  shows "hp_world_inv w (ph[c := p])"
proof -
  have "hp_conn_ok (ph[c := p] ! c') hc = hp_conn_ok (ph ! c') hc" if "c' < length ph" for c' hc
    using that assms(3,4) by (cases "c' = c"; auto simp: live_def hp_conn_ok_def)+
  then have "hp_conns_ok w (ph[c := p])"
    using assms(1) by (auto simp: hp_world_inv_def hp_conns_ok_def list_all2_conv_all_nth)
  moreover have "hp_counts_ok w (ph[c := p])"
    using assms by (auto simp: hp_world_inv_def hp_counts_ok_def filter_phase_update live_def)
  ultimately show ?thesis
    using assms(1) by (simp add: hp_world_inv_def hp_registry_ok_def)
qed

lemma hp_tasks_ok_phase:
  assumes "hp_tasks_ok p ph" and "ph' \<noteq> Spawned"
  shows "hp_tasks_ok p (ph[c := ph'])"
proof -
  have "ph[c := ph'] ! a \<noteq> Spawned" if "a < length ph" "ph ! a \<noteq> Spawned" for a
    using that assms(2) by (cases "a = c") simp_all
  with assms(1) show ?thesis by (simp add: hp_tasks_ok_def)
qed

lemma hp_goroutine_inv:
  assumes "hp_sys_inv s" and "hp_world_inv (snd r) ((hs_phases s)[c := f (fst r)])"
    and "hw_cancelled (snd r) = hw_cancelled (hs_world s)" and "f (fst r) \<noteq> Spawned"
  shows "hp_sys_inv (hp_goroutine_step c f r s)"
  using assms by (simp add: hp_sys_inv_def hp_goroutine_step_def hp_tasks_ok_phase)

lemma after_phases [simp]:
  "after_start out \<noteq> Spawned" "after_iter out \<noteq> Spawned" "after_cleanup out \<noteq> Spawned" "live (after_iter out)"
  by (cases out; simp)+

lemma hp_submit_inv:
  assumes inv: "hp_sys_inv s" and c: "c < length (hs_phases s)" "hs_phases s ! c = Reading"
    and e: "event_sub e = Some c" "hp_exec e (hs_workers s) = Some p"
    and task: "\<And>j t. e = HCall j t \<Longrightarrow> fst t = c"
    and w: "hp_world_inv w (hs_phases s)" "hw_cancelled w = hw_cancelled (hs_world s)"
  shows "hp_sys_inv (s\<lparr>hs_world := w, hs_workers := p, hs_phases := (hs_phases s)[c := after_submit e c p]\<rparr>)"
proof -
  have ok: "hp_tasks_ok (hs_workers s) (hs_phases s)" and len: "c < length (subs (hs_workers s))"
    using inv c by (simp_all add: hp_sys_inv_def hp_tasks_ok_def)
  have move: "submit_move e (subs (hs_workers s) ! c) (hs_workers s) = Some p"
    using e len by (simp add: hp_exec_sub)
  have "hp_inv p"
    by (rule hp_inv_exec [OF e(2)]) (use inv in \<open>simp add: hp_sys_inv_def\<close>)
  moreover have "hp_tasks_ok p (hs_phases s)"
    using ok hp_tasks_sub(1,2) [OF len move] task c
    by (fastforce simp: hp_tasks_ok_def split: hp_event.splits)
  moreover have "hp_world_inv w ((hs_phases s)[c := after_submit e c p])"
    by (rule hp_world_inv_phase [OF w(1) c]) (simp add: after_submit_def)
  moreover have "after_submit e c p \<noteq> Spawned"
    by (simp add: after_submit_def)
  ultimately show ?thesis
    using hp_tasks_sub(3) [OF len move] inv w(2) by (simp add: hp_sys_inv_def hp_tasks_ok_phase)
qed

lemma hp_read_inv:
  assumes ok: "hp_server_ok srv" and inv: "hp_sys_inv s" and c: "c < length (hs_phases s)" "hs_phases s ! c = Reading"
    and read: "hp_read_step c (hp_iter cfg srv c (hs_world s)) s = Some s'"
  shows "hp_sys_inv s'"
proof -
  obtain r w where r: "hp_iter cfg srv c (hs_world s) = (r, w)" by fastforce
  have w: "hp_world_inv w (hs_phases s)" "hw_cancelled w = hw_cancelled (hs_world s)"
    using hp_iter_inv [OF ok, of "hs_world s" "hs_phases s" cfg c] inv by (simp_all add: hp_sys_inv_def r)
  show ?thesis
  proof (cases r)
    case (Inl msg)
    then obtain p where p: "hp_exec (HCall c (c, msg)) (hs_workers s) = Some p"
      "s' = s\<lparr>hs_world := w, hs_workers := p, hs_phases := (hs_phases s)[c := after_submit (HCall c (c, msg)) c p]\<rparr>"
      using read by (auto simp: hp_read_step_def r split: option.splits)
    show ?thesis
      unfolding p(2) by (rule hp_submit_inv [OF inv c _ p(1) _ w]) auto
  next
    case (Inr out)
    then have s': "s' = hp_goroutine_step c after_iter (out, w) s"
      using read by (simp add: hp_read_step_def r)
    show ?thesis
      unfolding s' using w c by (intro hp_goroutine_inv [OF inv]) (simp_all add: hp_world_inv_phase)
  qed
qed

lemma hp_work_inv:
  assumes ok: "hp_server_ok srv" and inv: "hp_sys_inv s" and e: "event_worker e = Some i"
    and work: "hp_worker_step srv i e s = Some s'"
  shows "hp_sys_inv s'"
proof -
  obtain p where p: "hp_exec e (hs_workers s) = Some p"
    using work by (auto simp: hp_worker_step_def split: option.splits)
  then have i: "i < length (tworkers (hs_workers s))"
    and move: "worker_move e (tworkers (hs_workers s) ! i) (hs_workers s) = Some p"
    using e by (auto simp: hp_exec_worker split: if_splits)
  have pinv: "hp_inv p"
    by (rule hp_inv_exec [OF p]) (use inv in \<open>simp add: hp_sys_inv_def\<close>)
  have tasks: "hp_tasks_ok p (hs_phases s)" "tdone p = hw_cancelled (hs_world s)"
    using hp_tasks_worker [OF i move] inv by (auto simp: hp_tasks_ok_def hp_sys_inv_def)
  have base: "hp_sys_inv (s\<lparr>hs_workers := p\<rparr>)"
    using inv pinv tasks by (simp add: hp_sys_inv_def)
  have run: "hp_sys_inv (s\<lparr>hs_world := snd (processMessage srv c msg (hs_world s)), hs_workers := p, hs_crashed := x\<rparr>)"
    if "tworkers (hs_workers s) ! i = Running (c, msg)" for c msg x
  proof -
    have "(c, msg) \<in> hp_tasks (hs_workers s)"
      using nth_mem [OF i] that by (force simp: hp_tasks_def)
    then have "c < length (hs_phases s)" "hs_phases s ! c \<noteq> Spawned"
      using inv by (auto simp: hp_sys_inv_def hp_tasks_ok_def)
    with processMessage_inv [OF ok, of "hs_world s" "hs_phases s" c msg] inv pinv tasks show ?thesis
      by (simp add: hp_sys_inv_def)
  qed
  from work p base run show ?thesis
    by (auto simp: hp_worker_step_def Let_def split: hp_event.splits worker.splits)
qed

lemma hp_accept_inv:
  assumes "hp_sys_inv s"
  shows "hp_sys_inv (hp_accept n s)"
proof -
  let ?w = "hs_world s" and ?ph = "hs_phases s"
  let ?w' = "?w\<lparr>hw_conns := hw_conns ?w @ [NewHighPerfTCPConnection n (hw_now ?w)]\<rparr>"
  let ?p' = "(hs_workers s)\<lparr>subs := subs (hs_workers s) @ [SIdle]\<rparr>"
  have dev: "hp_devices ?w' = hp_devices ?w"
    by (rule ext) (auto simp: hp_devices_def nth_append NewHighPerfTCPConnection_def less_Suc_eq)
  have "hp_registry_ok ?w' (?ph @ [Spawned])"
    using assms by (auto simp: hp_sys_inv_def hp_world_inv_def hp_registry_ok_def dev intro: less_SucI)
  moreover have "hp_counts_ok ?w' (?ph @ [Spawned])"
    using assms by (simp add: hp_sys_inv_def hp_world_inv_def hp_counts_ok_def)
  moreover have "hp_conns_ok ?w' (?ph @ [Spawned])"
    using assms by (simp add: hp_sys_inv_def hp_world_inv_def hp_conns_ok_def list_all2_appendI hp_conn_ok_def
        NewHighPerfTCPConnection_def)
  moreover have "hp_inv ?p'"
    using assms by (simp add: hp_sys_inv_def hp_inv_def hp_limit_def)
  moreover have "hp_tasks ?p' = hp_tasks (hs_workers s)"
    by (simp add: hp_tasks_def)
  then have "hp_tasks_ok ?p' (?ph @ [Spawned])"
    using assms by (auto simp: hp_sys_inv_def hp_tasks_ok_def nth_append)
  ultimately show ?thesis
    using assms by (simp add: hp_sys_inv_def hp_accept_def hp_world_inv_def)
qed

lemma hp_sys_inv_world:
  assumes "hp_sys_inv s" and "hp_world_inv w (hs_phases s)" and "hw_cancelled w = hw_cancelled (hs_world s)"
  shows "hp_sys_inv (s\<lparr>hs_world := w\<rparr>)"
  using assms by (simp add: hp_sys_inv_def)

lemma hp_sys_inv_step:
  assumes ok: "hp_server_ok srv" and step: "hp_step cfg srv s s'" and inv: "hp_sys_inv s"
  shows "hp_sys_inv s'"
proof -
  have w: "hp_world_inv (hs_world s) (hs_phases s)" using inv by (simp add: hp_sys_inv_def)
  from step show ?thesis
  proof cases
    case (accepted n)
    with hp_accept_inv [OF inv] show ?thesis by simp
  next
    case accept_error
    have "hp_world_inv (hstats (add_Error 1) (hs_world s)) (hs_phases s)"
      by (rule hp_inv_hstats [OF w]) simp_all
    with hp_sys_inv_world [OF inv] accept_error show ?thesis by simp
  next
    case (start c)
    with hp_start_inv [OF ok w, of c] show ?thesis by (simp add: hp_goroutine_inv [OF inv])
  next
    case (iter c)
    with hp_read_inv [OF ok inv] show ?thesis by blast
  next
    case (submit c e p)
    have "\<And>j t. e = HCall j t \<Longrightarrow> fst t = c"
    proof -
      fix j t assume "e = HCall j t"
      with submit have "submit_move (HCall c t) (subs (hs_workers s) ! c) (hs_workers s) = Some p"
        by (auto simp: hp_exec_sub split: if_splits)
      with submit(5) show "fst t = c" by (cases "subs (hs_workers s) ! c") simp_all
    qed
    from hp_submit_inv [OF inv submit(3,4,6,7) this w] submit(1) show ?thesis by simp
  next
    case (work e i)
    with hp_work_inv [OF ok inv] show ?thesis by blast
  next
    case (adjust p)
    then have "p = adjust (hs_workers s)" by (auto simp: hp_exec_def split: if_splits)
    with adjust inv hp_inv_adjust [of "hs_workers s"] show ?thesis
      by (simp add: hp_sys_inv_def hp_tasks_ok_def hp_adjust_parts)
  next
    case (writer c mv v)
    with hp_writeLoop_inv [OF w, of c mv v] hp_sys_inv_world [OF inv] show ?thesis by simp
  next
    case (cleanup c)
    with hp_cleanup_inv [OF ok w, of c] show ?thesis by (simp add: hp_goroutine_inv [OF inv])
  next
    case (app x)
    with hp_inv_call_no_claim [OF w] hp_sys_inv_world [OF inv] show ?thesis by simp
  next
    case stop
    have "hp_inv ((hs_workers s)\<lparr>tdone := True\<rparr>)"
      using inv by (simp add: hp_sys_inv_def hp_inv_def)
    with stop hp_Stop_inv [OF w] inv show ?thesis
      by (simp add: hp_sys_inv_def hp_tasks_ok_def hp_tasks_def)
  next
    case (clock d)
    have "hp_world_inv ((hs_world s)\<lparr>hw_now := hw_now (hs_world s) + d\<rparr>) (hs_phases s)"
      by (rule hp_inv_frame [OF w]) simp_all
    with hp_sys_inv_world [OF inv] clock show ?thesis by simp
  qed (use inv in simp)
qed

lemma hp_sys_inv_init:
  assumes "NewHPWorkerPool 0 a b c = Ok p" and "0 \<le> a" and "hp_ConnPoolShardCount cfg < 2 ^ 32"
  shows "hp_sys_inv (hp_init cfg p now app)"
proof -
  have "hp_inv p" by (rule hp_inv_new [OF assms(1,2)])
  moreover have "worker_task Idle = {}" by simp
  then have "hp_tasks p = {}" "subs p = []" "tdone p = False"
    using assms(1) by (auto simp: NewHPWorkerPool_def spawnWorker_funpow hp_tasks_def split: if_splits)
  moreover have wf: "pool_wf fnvHash (NewShardedConnectionPool (hp_ConnPoolShardCount cfg) :: nat pool)"
    unfolding NewShardedConnectionPool_def
    by (rule pool_wf_new) (use assms(3) in \<open>simp_all add: defaultShardCount_def\<close>)
  moreover have "pool_Get fnvHash (NewShardedConnectionPool (hp_ConnPoolShardCount cfg) :: nat pool) k = None" for k
    using wf unfolding NewShardedConnectionPool_def by (rule pool_Get_new)
  ultimately show ?thesis
    by (simp add: hp_sys_inv_def hp_init_def hp_world_inv_def hp_registry_ok_def hp_counts_ok_def hp_conns_ok_def
        NewHighPerfTCPServer_def new_stats_def owned_def hp_tasks_ok_def)
qed

lemma hp_reachable_inv:
  "hp_reachable cfg srv s \<Longrightarrow> hp_server_ok srv \<Longrightarrow> 0 \<le> hp_MinWorkers cfg \<Longrightarrow>
    hp_ConnPoolShardCount cfg < 2 ^ 32 \<Longrightarrow> hp_sys_inv s"
  by (induction rule: hp_reachable.induct) (auto intro: hp_sys_inv_init hp_sys_inv_step)

end
