(* ===== verification/HpProps.thy ===== *)
theory HpProps
  imports HpInv
begin

text \<open>
  The properties of \<^verbatim>\<open>transport/tcp_highperf.go\<close>: what holds in every reachable state, what \<^verbatim>\<open>Send\<close> and
  the write loop do to the order of the frames, and three runs that show what the design gives up.
\<close>

section \<open>Runs\<close>

definition small_config :: HighPerfConfig where
  "small_config = (DefaultHighPerfConfig 1)\<lparr>hp_MinWorkers := 2, hp_MaxWorkers := 4, hp_WorkerQueueSize := 4,
     hp_ConnPoolShardCount := 1\<rparr>"

lemma small_packet: "2092 \<le> hp_MaxPacketSize small_config"
  by (simp add: small_config_def DefaultHighPerfConfig_def)

definition two_workers :: "(nat \<times> Message) hp_workers" where
  "two_workers = \<lparr>tq = [], tq_cap = 4, tworkers = [Idle, Idle], wcount = 2, tminWorkers = 2, tmaxWorkers = 4,
     tdone = False, tactive = 0, subs = [SIdle]\<rparr>"

text \<open>A server with one terminal: its connection in its loop, \<open>bs\<close> still to be read, nothing registered.\<close>

definition one_terminal :: "'app hp_sys \<Rightarrow> byte list \<Rightarrow> (nat \<times> Message) hp_workers \<Rightarrow> 'app \<Rightarrow> bool" where
  "one_terminal s bs p a \<longleftrightarrow>
     hs_crashed s = None \<and> hs_phases s = [Reading] \<and> hs_workers s = p \<and> \<not> hw_cancelled (hs_world s) \<and>
     length (hw_conns (hs_world s)) = 1 \<and> hw_app (hs_world s) = a \<and>
     nc_reader (hc_net (hw_conns (hs_world s) ! 0)) = \<lparr>pending = bs, final_error = IoEOF\<rparr> \<and>
     hc_connected (hw_conns (hs_world s) ! 0) \<and> hc_deviceID (hw_conns (hs_world s) ! 0) = [] \<and>
     \<not> nc_closed (hc_net (hw_conns (hs_world s) ! 0)) \<and>
     hw_connPool (hs_world s) = NewShardedConnectionPool 1"

definition terminal_net :: "byte list \<Rightarrow> net_conn" where
  "terminal_net bs = \<lparr>nc_closed = False, nc_reader = \<lparr>pending = bs, final_error = IoEOF\<rparr>, nc_buffered = 0,
     nc_out = [], nc_write_error = None, nc_addr = go_str ''127.0.0.1:9''\<rparr>"

definition handler_server :: "uint16 \<Rightarrow> 'app hp_world handler \<Rightarrow> 'app hp_world server" where
  "handler_server mid h = RegisterHandler mid h new_server"

lemma handler_server_simps [simp]:
  "sv_handlers (handler_server mid h) = [(mid, h)]" "sv_middleware (handler_server mid h) = []"
  "sv_OnConnect (handler_server mid h) = []" "sv_OnDisconnect (handler_server mid h) = []"
  "sv_OnError (handler_server mid h) = []"
  by (simp_all add: handler_server_def RegisterHandler_def new_server_def gm_put_def)

lemma run_connect:
  "\<exists>s. hp_reachable small_config (handler_server mid h) s \<and> one_terminal s bs two_workers a"
proof -
  let ?srv = "handler_server mid h" and ?p = "two_workers\<lparr>subs := []\<rparr>"
  have "NewHPWorkerPool 0 2 4 4 = Ok ?p"
    by (simp add: NewHPWorkerPool_def spawnWorker_def two_workers_def numeral_2_eq_2)
  then have r0: "hp_reachable small_config ?srv (hp_init small_config ?p 0 a)"
    by (intro hp_reachable.init) (simp add: small_config_def)
  let ?s0 = "hp_init small_config ?p 0 a"
  have "hp_step small_config ?srv ?s0 (hp_accept (terminal_net bs) ?s0)"
    by (rule hp_step.accepted)
      (simp_all add: hp_init_def NewHighPerfTCPServer_def hp_at_limit_def new_stats_def small_config_def
        DefaultHighPerfConfig_def terminal_net_def)
  then have r1: "hp_reachable small_config ?srv (hp_accept (terminal_net bs) ?s0)"
    by (rule hp_reachable.step [OF r0])
  let ?s1 = "hp_accept (terminal_net bs) ?s0"
  let ?s2 = "hp_goroutine_step 0 after_start (hp_start ?srv 0 (hs_world ?s1)) ?s1"
  have "hp_step small_config ?srv ?s1 ?s2"
    by (rule hp_step.start) (simp_all add: hp_accept_def hp_init_def)
  then have "hp_reachable small_config ?srv ?s2"
    by (rule hp_reachable.step [OF r1])
  moreover have "one_terminal ?s2 bs two_workers a"
    by (simp add: one_terminal_def hp_goroutine_step_def hp_start_def Let_def hp_accept_def hp_init_def
        NewHighPerfTCPServer_def small_config_def NewHighPerfTCPConnection_def terminal_net_def two_workers_def
        hupd_def hstats_def)
  ultimately show ?thesis by blast
qed

lemma hp_iter_frame:
  assumes "nc_reader (hc_net (hw_conns w ! c)) = \<lparr>pending = f @ bs, final_error = IoEOF\<rparr>" and "\<not> hw_cancelled w"
    and "snd (Encode m0) = Ok f" and "Decode f = Ok m" and "2092 \<le> hp_MaxPacketSize cfg"
  shows "\<exists>b. hp_iter cfg srv c w = (Inl m, hstats (add_Received 1)
    ((hupd c (hc_net_update (nc_reader_update (\<lambda>_. \<lparr>pending = bs, final_error = IoEOF\<rparr>))) w)\<lparr>hw_buffers := b\<rparr>))"
proof -
  have "Encode m0 = (fst (Encode m0), Ok f)" using assms(3) by (metis prod.collapse)
  from readMessage_encoded_eq [OF this, of "hp_MaxPacketSize cfg" bs IoEOF] assms(4,5)
  have "readMessage (hp_MaxPacketSize cfg) \<lparr>pending = f @ bs, final_error = IoEOF\<rparr> = (Ok m, \<lparr>pending = bs, final_error = IoEOF\<rparr>)"
    by simp
  then obtain b where "hp_readMessage (hp_MaxPacketSize cfg) (hw_buffers w) \<lparr>pending = f @ bs, final_error = IoEOF\<rparr>
      = ((Ok m, \<lparr>pending = bs, final_error = IoEOF\<rparr>), b)"
    using hp_readMessage_eq [of "hp_MaxPacketSize cfg" "hw_buffers w" "\<lparr>pending = f @ bs, final_error = IoEOF\<rparr>"]
    by (metis prod.collapse)
  with assms(1,2) show ?thesis by (auto simp: hp_iter_def)
qed

text \<open>It reads a frame and hands it to the pool.\<close>

lemma run_read:
  assumes one: "one_terminal s (f @ bs) p a"
    and f: "snd (Encode m0) = Ok f" "Decode f = Ok m"
    and p: "subs p = [SIdle]" "\<not> tdone p" "has_space p"
  shows "\<exists>s'. rtranclp (hp_step small_config srv) s s' \<and> one_terminal s' bs (p\<lparr>tq := tq p @ [Some (0, m)]\<rparr>) a"
proof -
  let ?w = "hs_world s"
  have "nc_reader (hc_net (hw_conns ?w ! 0)) = \<lparr>pending = f @ bs, final_error = IoEOF\<rparr>" "\<not> hw_cancelled ?w"
    using one by (simp_all add: one_terminal_def)
  then obtain b where iter: "hp_iter small_config srv 0 ?w = (Inl m, hstats (add_Received 1)
      ((hupd 0 (hc_net_update (nc_reader_update (\<lambda>_. \<lparr>pending = bs, final_error = IoEOF\<rparr>))) ?w)\<lparr>hw_buffers := b\<rparr>))"
    using hp_iter_frame [OF _ _ f, of ?w 0 bs small_config srv] by (auto simp: small_packet)
  let ?w1 = "hstats (add_Received 1)
      ((hupd 0 (hc_net_update (nc_reader_update (\<lambda>_. \<lparr>pending = bs, final_error = IoEOF\<rparr>))) ?w)\<lparr>hw_buffers := b\<rparr>)"
  let ?p1 = "p\<lparr>subs := [SChecked (0, m)]\<rparr>" and ?p2 = "p\<lparr>tq := tq p @ [Some (0, m)]\<rparr>"
  let ?s1 = "s\<lparr>hs_world := ?w1, hs_workers := ?p1, hs_phases := [Reading]\<rparr>"
  have call: "hp_exec (HCall 0 (0, m)) p = Some ?p1"
    using p by (simp add: hp_exec_sub set_sub_def)
  have "hp_read_step 0 (hp_iter small_config srv 0 ?w) s = Some ?s1"
    using one call by (simp add: iter hp_read_step_def one_terminal_def after_submit_def)
  then have r1: "hp_step small_config srv s ?s1"
    using one p by (intro hp_step.iter [where c = 0]) (simp_all add: one_terminal_def)
  have send: "hp_exec (HSelectSend 0) ?p1 = Some ?p2"
    using p by (simp add: hp_exec_sub set_sub_def has_space_def)
  let ?s2 = "?s1\<lparr>hs_workers := ?p2, hs_phases := [Reading]\<rparr>"
  have "hp_step small_config srv ?s1 (?s1\<lparr>hs_workers := ?p2,
      hs_phases := (hs_phases ?s1)[0 := after_submit (HSelectSend 0) 0 ?p2]\<rparr>)"
    using one send by (intro hp_step.submit) (simp_all add: one_terminal_def)
  then have r2: "hp_step small_config srv ?s1 ?s2"
    by (simp add: after_submit_def)
  have "rtranclp (hp_step small_config srv) s ?s2"
    by (rule converse_rtranclp_into_rtranclp, rule r1, rule r_into_rtranclp, rule r2)
  moreover have "one_terminal ?s2 bs ?p2 a"
    using one by (simp add: one_terminal_def hupd_nth)
  ultimately show ?thesis by blast
qed

lemma hp_reachable_steps:
  "rtranclp (hp_step cfg srv) s s' \<Longrightarrow> hp_reachable cfg srv s \<Longrightarrow> hp_reachable cfg srv s'"
  by (induction rule: rtranclp_induct) (auto intro: hp_reachable.step)

text \<open>A worker takes a task.\<close>

lemma run_take:
  assumes "hs_crashed s = None" and "i < length (tworkers (hs_workers s))"
    and "tworkers (hs_workers s) ! i = Idle" and "tq (hs_workers s) = Some t # q"
  shows "hp_step cfg srv s (s\<lparr>hs_workers := (hs_workers s)\<lparr>tq := q,
    tworkers := (tworkers (hs_workers s))[i := Running t], tactive := tactive (hs_workers s) + 1\<rparr>\<rparr>)"
proof (rule hp_step.work [where e = "HWorkerTake i" and i = i])
  show "hp_worker_step srv i (HWorkerTake i) s = Some (s\<lparr>hs_workers := (hs_workers s)\<lparr>tq := q,
    tworkers := (tworkers (hs_workers s))[i := Running t], tactive := tactive (hs_workers s) + 1\<rparr>\<rparr>)"
    using assms by (simp add: hp_worker_step_def hp_exec_worker)
qed (use assms in simp_all)

text \<open>It finishes it.\<close>

lemma run_finish:
  assumes "hs_crashed s = None" and "i < length (tworkers (hs_workers s))"
    and "tworkers (hs_workers s) ! i = Running (c, msg)" and "processMessage srv c msg (hs_world s) = (Return, w)"
  shows "hp_step cfg srv s (s\<lparr>hs_world := w, hs_workers := (hs_workers s)\<lparr>
    tworkers := (tworkers (hs_workers s))[i := Idle], tactive := tactive (hs_workers s) - 1\<rparr>\<rparr>)"
proof (rule hp_step.work [where e = "HWorkerFinish i" and i = i])
  show "hp_worker_step srv i (HWorkerFinish i) s = Some (s\<lparr>hs_world := w, hs_workers := (hs_workers s)\<lparr>
    tworkers := (tworkers (hs_workers s))[i := Idle], tactive := tactive (hs_workers s) - 1\<rparr>\<rparr>)"
    using assms by (simp add: hp_worker_step_def hp_exec_worker)
qed (use assms in simp_all)

lemma sample_encoded:
  assumes "length body \<le> 1023"
  shows "\<exists>m0 f m. snd (Encode m0) = Ok f \<and> Decode f = Ok m \<and> msg_id m = Ok mid \<and> Body m = body"
proof -
  let ?m = "sample_message_of mid body"
  obtain h where h: "Header ?m = Some h" "MsgID h = mid" "Body ?m = body"
    by (simp add: sample_message_of_def)
  let ?f = "frame (encodeHeader (updateBodyProperty h (length body)) @ body)"
  have "snd (Encode (Some ?m)) = Ok ?f"
    using Encode_Ok [OF h(1)] h(3) assms by simp
  moreover have "Decode ?f = Ok \<lparr>Header = Some (wire_header h (length body)), Body = body, Raw = ?f\<rparr>"
    by (rule Decode_frame_encoded [OF refl assms])
  moreover have "MsgID (wire_header h (length body)) = mid"
    using h(2) by (simp add: wire_header_def)
  ultimately show ?thesis
    by (intro exI [of _ "Some ?m"] exI [of _ ?f] exI) (auto simp: msg_id_def)
qed

definition hp_claim_handler :: "'app hp_world handler" where
  "hp_claim_handler ctx c m w = (Ok (), hp_SetDeviceID c (go_str ''D1'') w)"

lemma hp_claim_server_ok: "hp_server_ok (handler_server mid hp_claim_handler)"
proof -
  have "by_calls hp_call_exec (hp_own_calls c) w (hp_SetDeviceID c d w)" for c d and w :: "'a hp_world"
    using by_calls_one [of "hp_own_calls c" "HSetDeviceID c d" hp_call_exec w] by simp
  then show ?thesis by (simp add: server_ok_def hp_claim_handler_def)
qed

section \<open>Stop\<close>

lemma range_shard_all:
  "range_shard (\<lambda>d c w. (g c w, True)) es w = (foldl (\<lambda>w e. g (snd e) w) w es, True)"
  by (induction es arbitrary: w) auto

lemma close_fold:
  "length (hw_conns (foldl (\<lambda>w e. snd (hp_Close (snd e) w)) w es)) = length (hw_conns w)"
  "c < length (hw_conns w) \<Longrightarrow> hw_conns (foldl (\<lambda>w e. snd (hp_Close (snd e) w)) w es) ! c =
    (if c \<in> snd ` set es \<and> hc_connected (hw_conns w ! c) then hc_close (hw_conns w ! c) else hw_conns w ! c)"
proof (induction es arbitrary: w)
  case (Cons e es)
  { case 1 show ?case using Cons.IH(1) [of "snd (hp_Close (snd e) w)"] by (simp add: hp_Close_def) }
  { case 2
    then show ?case
      using Cons.IH(2) [of "snd (hp_Close (snd e) w)"]
      by (cases "snd e = c") (auto simp: hp_Close_def hupd_nth hc_close_def) }
qed simp_all

lemma hp_Stop_conns:
  assumes "pool_wf fnvHash (hw_connPool w)" and "c < length (hw_conns w)"
  shows "hw_conns (hp_Stop w) ! c =
    (if (\<exists>d. hp_GetConnection d w = Ok c) \<and> hc_connected (hw_conns w ! c) then hc_close (hw_conns w ! c)
     else hw_conns w ! c)"
proof -
  let ?es = "pool_entries (hw_connPool w)"
  have "hw_conns (hp_Stop w) = hw_conns (foldl (\<lambda>w e. snd (hp_Close (snd e) w)) (w\<lparr>hw_cancelled := True\<rparr>) ?es)"
    by (simp add: hp_Stop_def Let_def pool_Range_concat range_shard_all pool_entries_def)
  moreover have "hp_GetConnection d w = Ok c \<longleftrightarrow> (d, c) \<in> set ?es" for d
    using hp_pool.entries_set [OF assms(1), of d c] by (auto simp: hp_GetConnection_def split: option.splits)
  then have "(\<exists>d. hp_GetConnection d w = Ok c) \<longleftrightarrow> c \<in> snd ` set ?es"
    by (simp only: image_iff Bex_def) (metis prod.collapse snd_conv)
  ultimately show ?thesis
    using close_fold(2) [of c "w\<lparr>hw_cancelled := True\<rparr>" ?es] assms(2) by simp
qed

section \<open>The way of a frame\<close>

text \<open>The frames of a connection in the order in which the peer gets them: written, held by the write
  loop, queued.\<close>

definition pipeline :: "hp_conn \<Rightarrow> byte list list" where
  "pipeline hc = nc_out (hc_net hc) @ (case hc_writer hc of WHolding d \<Rightarrow> [d] | _ \<Rightarrow> []) @ hc_writeChan hc"

definition healthy :: "nat \<Rightarrow> 'app hp_world \<Rightarrow> bool" where
  "healthy c w \<longleftrightarrow> c < length (hw_conns w) \<and> hc_connected (hw_conns w ! c) \<and> \<not> hc_cancelled (hw_conns w ! c) \<and>
     \<not> nc_closed (hc_net (hw_conns w ! c)) \<and> nc_write_error (hc_net (hw_conns w ! c)) = None"

text \<open>Sends that find room in the channel, interleaved with the moves of the write loop.\<close>

inductive traffic :: "nat \<Rightarrow> 'app hp_world \<Rightarrow> byte list list \<Rightarrow> 'app hp_world \<Rightarrow> bool" for c w where
  none: "traffic c w [] w"
| send: "traffic c w fs w1 \<Longrightarrow> length (hc_writeChan (hw_conns w1 ! c)) < writeChan_cap \<Longrightarrow>
    hp_Send c msg w1 = (Ok (), w2) \<Longrightarrow> snd (Encode msg) = Ok f \<Longrightarrow> traffic c w (fs @ [f]) w2"
| moved: "traffic c w fs w1 \<Longrightarrow> hp_writeLoop mv c w1 = Some w2 \<Longrightarrow> traffic c w fs w2"

lemma send_queued:
  assumes "healthy c w" and "length (hc_writeChan (hw_conns w ! c)) < writeChan_cap"
    and "hp_Send c msg w = (Ok (), w')" and "snd (Encode msg) = Ok f"
  shows "healthy c w' \<and> pipeline (hw_conns w' ! c) = pipeline (hw_conns w ! c) @ [f]
    \<and> nc_out (hc_net (hw_conns w' ! c)) = nc_out (hc_net (hw_conns w ! c)) \<and> hw_stats w' = hw_stats w"
  using assms by (auto simp: hp_Send_def healthy_def hupd_nth pipeline_def)

lemma writer_moves:
  assumes "healthy c w" and "hp_writeLoop mv c w = Some w'"
  shows "healthy c w' \<and> pipeline (hw_conns w' ! c) = pipeline (hw_conns w ! c)
    \<and> s_SentMessages (hw_stats w') + of_nat (length (nc_out (hc_net (hw_conns w ! c))))
      = s_SentMessages (hw_stats w) + of_nat (length (nc_out (hc_net (hw_conns w' ! c))))"
  using assms
  by (auto simp: hp_writeLoop_def Let_def healthy_def hupd_nth pipeline_def net_Write_def add_Sent_def
      split: writer_move.splits writer.splits if_splits list.splits option.splits)

lemma traffic_pipeline:
  assumes "traffic c w fs w'" and "healthy c w"
  shows "healthy c w' \<and> pipeline (hw_conns w' ! c) = pipeline (hw_conns w ! c) @ fs
    \<and> s_SentMessages (hw_stats w') + of_nat (length (nc_out (hc_net (hw_conns w ! c))))
      = s_SentMessages (hw_stats w) + of_nat (length (nc_out (hc_net (hw_conns w' ! c))))"
  using assms
proof (induction rule: traffic.induct)
  case (send fs w1 msg w2 f)
  with send_queued [of c w1 msg w2 f] show ?case by simp
next
  case (moved fs w1 mv w2)
  have add: "a2 + o0 = a0 + o2" if "a1 + o0 = a0 + o1" "a2 + o1 = a1 + o2" for a0 a1 a2 o0 o1 o2 :: int64
  proof -
    have "a1 + o0 + (a2 + o1) = a0 + o1 + (a1 + o2)" using that by simp
    then show ?thesis by (simp add: algebra_simps)
  qed
  from moved.IH moved.prems have IH: "healthy c w1" "pipeline (hw_conns w1 ! c) = pipeline (hw_conns w ! c) @ fs"
    "s_SentMessages (hw_stats w1) + of_nat (length (nc_out (hc_net (hw_conns w ! c))))
      = s_SentMessages (hw_stats w) + of_nat (length (nc_out (hc_net (hw_conns w1 ! c))))" by blast+
  note W = writer_moves [OF IH(1) moved.hyps(2)]
  show ?case
  proof (intro conjI)
    show "s_SentMessages (hw_stats w2) + of_nat (length (nc_out (hc_net (hw_conns w ! c))))
      = s_SentMessages (hw_stats w) + of_nat (length (nc_out (hc_net (hw_conns w2 ! c))))"
      by (rule add [OF IH(3) W [THEN conjunct2, THEN conjunct2]])
  qed (use W IH(2) in simp_all)
qed simp

section \<open>Properties\<close>

text \<open>A registration that is handled late stays. The worker that handles a message may run after the
  goroutine of its connection has cleaned up; the device ID it sets then enters the pool for good:
  \<^verbatim>\<open>GetConnection\<close> answers with a connection that is closed and that nothing will remove.\<close>

theorem late_registration_stays:
  "\<exists>srv (s :: unit hp_sys). hp_server_ok srv \<and> hp_reachable small_config srv s \<and> hs_phases s = [Finished]
     \<and> hp_GetConnection (go_str ''D1'') (hs_world s) = Ok 0 \<and> \<not> hp_IsConnected 0 (hs_world s)"
proof -
  let ?srv = "handler_server 2 hp_claim_handler :: unit hp_world server"
  obtain m0 f m where f: "snd (Encode m0) = Ok f" "Decode f = Ok m" and m: "msg_id m = Ok 2"
    using sample_encoded [of "[]" 2] by auto
  obtain s1 where s1: "hp_reachable small_config ?srv s1" "one_terminal s1 (f @ []) two_workers ()"
    using run_connect [of 2 hp_claim_handler "f @ []" "()"] by blast
  obtain s2 where r2: "hp_reachable small_config ?srv s2"
    and s2: "one_terminal s2 [] (two_workers\<lparr>tq := tq two_workers @ [Some (0, m)]\<rparr>) ()"
    using run_read [OF s1(2) f, of ?srv] hp_reachable_steps [OF _ s1(1)] by (auto simp: two_workers_def has_space_def)
  let ?w = "hs_world s2"
  let ?p3 = "two_workers\<lparr>tworkers := [Running (0, m), Idle], tactive := 1\<rparr>"
  let ?s3 = "s2\<lparr>hs_workers := ?p3\<rparr>"
  have r3: "hp_reachable small_config ?srv ?s3"
    using hp_reachable.step [OF r2 run_take [of s2 0 "(0, m)" "[]"]] s2 by (simp add: one_terminal_def two_workers_def)
  obtain b where eof: "hp_iter small_config ?srv 0 ?w = (Inr Return,
      (hupd 0 (hc_net_update (nc_reader_update (\<lambda>_. \<lparr>pending = [], final_error = IoEOF\<rparr>))) ?w)\<lparr>hw_buffers := b\<rparr>)"
    using s2 by (simp add: hp_iter_def one_terminal_def hp_readMessage_def ReadByte_def)
  let ?w4 = "(hupd 0 (hc_net_update (nc_reader_update (\<lambda>_. \<lparr>pending = [], final_error = IoEOF\<rparr>))) ?w)\<lparr>hw_buffers := b\<rparr>"
  let ?s4 = "?s3\<lparr>hs_world := ?w4, hs_phases := [Leaving], hs_crashed := None\<rparr>"
  have "hp_step small_config ?srv ?s3 ?s4"
    using s2 by (intro hp_step.iter [where c = 0])
      (simp_all add: eof hp_read_step_def hp_goroutine_step_def one_terminal_def two_workers_def)
  from hp_reachable.step [OF r3 this] have r4: "hp_reachable small_config ?srv ?s4" .
  let ?r5 = "hp_cleanup ?srv 0 ?w4"
  let ?s5 = "hp_goroutine_step 0 after_cleanup ?r5 ?s4"
  have "hp_step small_config ?srv ?s4 ?s5"
    using hp_step.cleanup [of ?s4 0 small_config ?srv] by simp
  from hp_reachable.step [OF r4 this] have r5: "hp_reachable small_config ?srv ?s5" .
  have c5: "fst ?r5 = Return" by (simp add: hp_cleanup_def Let_def)
  have conn5: "\<not> hc_connected (hw_conns (snd ?r5) ! 0)" "length (hw_conns (snd ?r5)) = 1"
    "hc_deviceID (hw_conns (snd ?r5) ! 0) = []" "hw_connPool (snd ?r5) = NewShardedConnectionPool 1"
    using s2 by (simp_all add: hp_cleanup_def Let_def one_terminal_def hp_Close_def hp_DeviceID_def hupd_nth hc_close_def)
  let ?w6 = "hp_SetDeviceID 0 (go_str ''D1'') (snd ?r5)"
  have "processMessage ?srv 0 m (snd ?r5) = (Return, ?w6)"
    by (simp add: processMessage_def m gm_get_def hp_claim_handler_def)
  with hp_reachable.step [OF r5 run_finish [of ?s5 0 0 m ?srv ?w6]] c5
  have r6: "hp_reachable small_config ?srv (?s5\<lparr>hs_world := ?w6, hs_workers := two_workers\<rparr>)"
    by (simp add: hp_goroutine_step_def two_workers_def)
  have pool: "pool_wf fnvHash (NewShardedConnectionPool 1 :: nat pool)"
    unfolding NewShardedConnectionPool_def by (rule pool_wf_new) (simp_all add: defaultShardCount_def)
  have "hw_connPool ?w6 = claim_device (\<lambda>k. pool_Put fnvHash (\<lambda>_. k)) (pool_DeleteConn fnvHash) [] (go_str ''D1'') 0
      (NewShardedConnectionPool 1)"
    using hp_SetDeviceID_pool [of 0 "snd ?r5" "go_str ''D1''"] conn5 by simp
  then have "hp_GetConnection (go_str ''D1'') ?w6 = Ok 0"
    using hp_pool_cad.lookup_claim [OF pool, of "[]" "go_str ''D1''" 0 "go_str ''D1''"]
    by (simp add: hp_GetConnection_def go_str_def)
  moreover have "\<not> hp_IsConnected 0 ?w6"
    using conn5 by (simp add: hp_IsConnected_def hupd_nth)
  ultimately show ?thesis
    using r6 hp_claim_server_ok c5 by (intro exI [of _ ?srv] exI [of _ "?s5\<lparr>hs_world := ?w6, hs_workers := two_workers\<rparr>"])
      (simp add: hp_goroutine_step_def)
qed

text \<open>C37. The messages of one terminal may be handled in the opposite order. The two frames \<open>f1\<close> and \<open>f2\<close>
  arrive in this order on one connection; two workers take them in this order, and the second handles
  its message first. (The server of \<^verbatim>\<open>tcp.go\<close> handles a connection's messages in order.)\<close>

theorem messages_reordered:
  "\<exists>srv s (s' :: byte list list hp_sys) f1 f2. hp_server_ok srv
     \<and> (\<exists>m1 m2. Decode f1 = Ok m1 \<and> Body m1 = [1] \<and> Decode f2 = Ok m2 \<and> Body m2 = [2])
     \<and> hp_reachable small_config srv s \<and> one_terminal s (f1 @ f2) two_workers []
     \<and> rtranclp (hp_step small_config srv) s s' \<and> hw_app (hs_world s') = [[2], [1]]"
proof -
  let ?h = "\<lambda>ctx c m w. (Ok (), w\<lparr>hw_app := hw_app w @ [Body m]\<rparr>) :: unit res \<times> byte list list hp_world"
  let ?srv = "handler_server 2 ?h"
  have ok: "hp_server_ok ?srv"
    using by_calls_one [of "hp_own_calls c" "HApp (\<lambda>a. a @ [b])" hp_call_exec for c and b :: "byte list"]
    by (simp add: server_ok_def)
  obtain e1 f1 m1 where f1: "snd (Encode e1) = Ok f1" "Decode f1 = Ok m1" and m1: "msg_id m1 = Ok 2" "Body m1 = [1]"
    using sample_encoded [of "[1]" 2] by auto
  obtain e2 f2 m2 where f2: "snd (Encode e2) = Ok f2" "Decode f2 = Ok m2" and m2: "msg_id m2 = Ok 2" "Body m2 = [2]"
    using sample_encoded [of "[2]" 2] by auto
  obtain s1 where s1: "hp_reachable small_config ?srv s1" "one_terminal s1 (f1 @ f2) two_workers []"
    using run_connect [of 2 ?h "f1 @ f2" "[]"] by blast
  let ?p2 = "two_workers\<lparr>tq := [Some (0, m1)]\<rparr>" and ?p3 = "two_workers\<lparr>tq := [Some (0, m1), Some (0, m2)]\<rparr>"
  obtain s2 where s2: "rtranclp (hp_step small_config ?srv) s1 s2" "one_terminal s2 (f2 @ []) ?p2 []"
    using run_read [OF s1(2) f1, of ?srv] by (auto simp: two_workers_def has_space_def)
  obtain s3 where s3: "rtranclp (hp_step small_config ?srv) s2 s3" "one_terminal s3 [] ?p3 []"
    using run_read [OF s2(2) f2, of ?srv] by (auto simp: two_workers_def has_space_def)
  let ?w = "hs_world s3"
  let ?p4 = "two_workers\<lparr>tq := [Some (0, m2)], tworkers := [Running (0, m1), Idle], tactive := 1\<rparr>"
  let ?p5 = "two_workers\<lparr>tworkers := [Running (0, m1), Running (0, m2)], tactive := 2\<rparr>"
  let ?p6 = "two_workers\<lparr>tworkers := [Running (0, m1), Idle], tactive := 1\<rparr>"
  have s4: "hp_step small_config ?srv s3 (s3\<lparr>hs_workers := ?p4\<rparr>)"
    using run_take [of s3 0 "(0, m1)" "[Some (0, m2)]" small_config ?srv] s3(2)
    by (simp add: one_terminal_def two_workers_def)
  have s5: "hp_step small_config ?srv (s3\<lparr>hs_workers := ?p4\<rparr>) (s3\<lparr>hs_workers := ?p5\<rparr>)"
    using run_take [of "s3\<lparr>hs_workers := ?p4\<rparr>" 1 "(0, m2)" "[]" small_config ?srv] s3(2)
    by (simp add: one_terminal_def two_workers_def)
  let ?w6 = "?w\<lparr>hw_app := [[2]]\<rparr>" and ?w7 = "?w\<lparr>hw_app := [[2], [1]]\<rparr>"
  have "processMessage ?srv 0 m2 ?w = (Return, ?w6)" "processMessage ?srv 0 m1 ?w6 = (Return, ?w7)"
    using s3(2) by (simp_all add: processMessage_def m1 m2 gm_get_def one_terminal_def)
  then have s6: "hp_step small_config ?srv (s3\<lparr>hs_workers := ?p5\<rparr>) (s3\<lparr>hs_world := ?w6, hs_workers := ?p6\<rparr>)"
    and s7: "hp_step small_config ?srv (s3\<lparr>hs_world := ?w6, hs_workers := ?p6\<rparr>)
      (s3\<lparr>hs_world := ?w7, hs_workers := two_workers\<rparr>)"
    using run_finish [of "s3\<lparr>hs_workers := ?p5\<rparr>" 1 0 m2 ?srv ?w6 small_config]
      run_finish [of "s3\<lparr>hs_world := ?w6, hs_workers := ?p6\<rparr>" 0 0 m1 ?srv ?w7 small_config] s3(2)
    by (simp_all add: one_terminal_def two_workers_def)
  have "rtranclp (hp_step small_config ?srv) s1 (s3\<lparr>hs_world := ?w7, hs_workers := two_workers\<rparr>)"
    using s2(1) s3(1) s4 s5 s6 s7 by (meson rtranclp.rtrancl_into_rtrancl rtranclp_trans)
  with ok s1 f1 f2 m1 m2 show ?thesis
    by (intro exI [of _ ?srv] exI [of _ s1] exI [of _ "s3\<lparr>hs_world := ?w7, hs_workers := two_workers\<rparr>"]
        exI [of _ f1] exI [of _ f2]) auto
qed



text \<open>C31. What \<^verbatim>\<open>Stop\<close> does to the connections: it closes exactly those that are registered. A connection
  that has not sent its registration yet is left open, so its goroutine stays in its read until the read
  deadline (for ever when there is none), and \<^verbatim>\<open>Stop\<close> waits for it. (\<^verbatim>\<open>TCPServer.Stop\<close> closes all.)\<close>

theorem hp_Stop_closes_registered:
  assumes "hp_reachable cfg srv s" and "hp_server_ok srv" and "0 \<le> hp_MinWorkers cfg"
    and "hp_ConnPoolShardCount cfg < 2 ^ 32" and "c < length (hs_phases s)"
  shows "hw_conns (hp_Stop (hs_world s)) ! c =
    (if (\<exists>d. hp_GetConnection d (hs_world s) = Ok c) \<and> hp_IsConnected c (hs_world s)
     then hc_close (hw_conns (hs_world s) ! c) else hw_conns (hs_world s) ! c)"
proof -
  have inv: "hp_world_inv (hs_world s) (hs_phases s)"
    using hp_reachable_inv [OF assms(1-4)] by (simp add: hp_sys_inv_def)
  then have "pool_wf fnvHash (hw_connPool (hs_world s))" "c < length (hw_conns (hs_world s))"
    using assms(5) hp_conns_length [of "hs_world s" "hs_phases s"] by (simp_all add: hp_world_inv_def hp_registry_ok_def)
  from hp_Stop_conns [OF this] show ?thesis by (simp add: hp_IsConnected_def)
qed

theorem hp_Stop_closes_registered_witness:
  "\<exists>s :: unit hp_sys. hp_reachable small_config (handler_server 2 hp_claim_handler) s
     \<and> live (hs_phases s ! 0) \<and> \<not> nc_closed (hc_net (hw_conns (hp_Stop (hs_world s)) ! 0))"
proof -
  obtain s :: "unit hp_sys" where s: "hp_reachable small_config (handler_server 2 hp_claim_handler) s"
    "one_terminal s [] two_workers ()"
    using run_connect [of 2 hp_claim_handler "[]" "()"] by blast
  have cfg: "0 \<le> hp_MinWorkers small_config" "hp_ConnPoolShardCount small_config < 2 ^ 32" "0 < length (hs_phases s)"
    using s(2) by (simp_all add: small_config_def one_terminal_def)
  have "pool_wf fnvHash (NewShardedConnectionPool 1 :: nat pool)"
    unfolding NewShardedConnectionPool_def by (rule pool_wf_new) (simp_all add: defaultShardCount_def)
  then have "pool_Get fnvHash (NewShardedConnectionPool 1 :: nat pool) d = None" for d
    unfolding NewShardedConnectionPool_def by (rule pool_Get_new)
  then have "hp_GetConnection d (hs_world s) \<noteq> Ok 0" for d
    using s(2) by (simp add: hp_GetConnection_def one_terminal_def)
  with hp_Stop_closes_registered [OF s(1) hp_claim_server_ok cfg] s show ?thesis
    by (intro exI [of _ s]) (simp add: one_terminal_def)
qed

text \<open>C30. As long as the channel has room, the order of the \<^verbatim>\<open>Send\<close> calls is the order on the wire: the frames
  written, then the one held by the write loop, then the queued ones are, after any interleaving of sends
  and moves of the write loop, those before it followed by the frames sent, none lost and none twice; and
  \<^verbatim>\<open>SentMessages\<close> grows by the number of frames written.\<close>

theorem frames_in_order:
  assumes "traffic c w fs w'" and "healthy c w"
  shows "pipeline (hw_conns w' ! c) = pipeline (hw_conns w ! c) @ fs
    \<and> s_SentMessages (hw_stats w') + of_nat (length (nc_out (hc_net (hw_conns w ! c))))
      = s_SentMessages (hw_stats w) + of_nat (length (nc_out (hc_net (hw_conns w' ! c))))"
  using traffic_pipeline [OF assms] by simp

text \<open>When the channel is full, \<^verbatim>\<open>Send\<close> writes to the socket itself: the frame reaches the peer before
  the 100 frames that were sent earlier and are still queued, and before the one the write loop holds.\<close>

theorem full_channel_overtakes:
  assumes "healthy c w" and "length (hc_writeChan (hw_conns w ! c)) = 100" and "snd (Encode msg) = Ok f"
  shows "\<exists>w'. hp_Send c msg w = (Ok (), w')
    \<and> nc_out (hc_net (hw_conns w' ! c)) = nc_out (hc_net (hw_conns w ! c)) @ [f]
    \<and> hc_writeChan (hw_conns w' ! c) = hc_writeChan (hw_conns w ! c)
    \<and> hc_writer (hw_conns w' ! c) = hc_writer (hw_conns w ! c)
    \<and> s_SentMessages (hw_stats w') = s_SentMessages (hw_stats w) + 1"
  using assms by (simp add: hp_Send_def healthy_def writeChan_cap_def net_Write_def hupd_nth add_Sent_def)

definition open_world :: "byte list list \<Rightarrow> unit hp_world" where
  "open_world q = (NewHighPerfTCPServer small_config 0 ())\<lparr>hw_conns :=
     [(NewHighPerfTCPConnection (terminal_net []) 0)\<lparr>hc_writeChan := q\<rparr>]\<rparr>"

lemma open_world_healthy: "healthy 0 (open_world q)"
  by (simp add: healthy_def open_world_def NewHighPerfTCPConnection_def terminal_net_def)

theorem frames_in_order_witness:
  "\<exists>f w'. traffic 0 (open_world []) [f] w' \<and> nc_out (hc_net (hw_conns w' ! 0)) = [f]
     \<and> pipeline (hw_conns w' ! 0) = [f]"
proof -
  obtain m0 f where f: "snd (Encode m0) = Ok f"
    using sample_encoded [of "[]" 2] by auto
  let ?w1 = "open_world [f]"
  let ?w2 = "hupd 0 (\<lambda>hc. hc\<lparr>hc_writeChan := [], hc_writer := WHolding f\<rparr>) ?w1"
  have sent: "hp_Send 0 m0 (open_world []) = (Ok (), ?w1)"
    by (simp add: hp_Send_def f open_world_def NewHighPerfTCPConnection_def writeChan_cap_def hupd_def NewHighPerfTCPServer_def)
  have t1: "traffic 0 (open_world []) ([] @ [f]) ?w1"
    by (rule traffic.send [OF traffic.none _ sent f])
      (simp add: open_world_def NewHighPerfTCPConnection_def writeChan_cap_def)
  have "hp_writeLoop WReceive 0 ?w1 = Some ?w2"
    by (simp add: hp_writeLoop_def Let_def open_world_def NewHighPerfTCPConnection_def)
  from traffic.moved [OF t1 this] have t2: "traffic 0 (open_world []) ([] @ [f]) ?w2" .
  obtain w3 where w3: "hp_writeLoop WWrite 0 ?w2 = Some w3" "nc_out (hc_net (hw_conns w3 ! 0)) = [f]"
    by (simp add: hp_writeLoop_def Let_def open_world_def NewHighPerfTCPConnection_def hupd_def net_Write_def terminal_net_def)
  from traffic.moved [OF t2 w3(1)] have t3: "traffic 0 (open_world []) [f] w3" by simp
  from frames_in_order [OF t3 open_world_healthy] have "pipeline (hw_conns w3 ! 0) = [f]"
    by (simp add: pipeline_def open_world_def NewHighPerfTCPConnection_def terminal_net_def)
  with t3 w3(2) show ?thesis by blast
qed

theorem full_channel_overtakes_witness:
  "\<exists>m0 f w'. hp_Send 0 m0 (open_world (replicate 100 [0x7E])) = (Ok (), w')
     \<and> nc_out (hc_net (hw_conns w' ! 0)) = [f] \<and> length (hc_writeChan (hw_conns w' ! 0)) = 100"
proof -
  let ?w = "open_world (replicate 100 [0x7E])"
  obtain m0 f where f: "snd (Encode m0) = Ok f"
    using sample_encoded [of "[]" 2] by auto
  have full: "length (hc_writeChan (hw_conns ?w ! 0)) = 100"
    by (simp add: open_world_def)
  have out: "nc_out (hc_net (hw_conns ?w ! 0)) = []"
    by (simp add: open_world_def NewHighPerfTCPConnection_def terminal_net_def)
  from full_channel_overtakes [OF open_world_healthy full f] full out show ?thesis
    by (metis append_Nil)
qed

end
