(* ===== verification/CloseProtocol.thy ===== *)
theory CloseProtocol
  imports GoBase
begin

text \<open>
  How \<^verbatim>\<open>Send\<close>, \<^verbatim>\<open>Close\<close> and the failing \<^verbatim>\<open>writeLoop\<close> of a \<^verbatim>\<open>HighPerfTCPConnection\<close> share its write channel
  (\<^verbatim>\<open>transport/tcp_highperf.go\<close>), one atomic operation per step: the flag \<^verbatim>\<open>connected\<close>, the read-write lock
  \<^verbatim>\<open>closeMu\<close> and the channel. A send on a closed channel and a second close would panic.
\<close>

section \<open>Threads\<close>

text \<open>
  Points of \<^verbatim>\<open>Send\<close>: called; past the first load of \<^verbatim>\<open>connected\<close> and waiting for the read lock; with the
  lock; past the second load, about to send. Points of \<^verbatim>\<open>Close\<close> and of the error path of \<^verbatim>\<open>writeLoop\<close>:
  called; having won the compare-and-swap and waiting for the lock; with the lock; having closed the
  channel.
\<close>

datatype pc =
    SendCalled | SendWaits | SendLocked | SendReady
  | CloseCalled | CloseWon | CloseLocked | CloseClosed
  | Done | Panicked

record close_state =
  cl_connected :: bool
  cl_chanClosed :: bool
  cl_readers :: nat
  cl_writer :: bool
  cl_pcs :: "pc list"

definition go_to :: "nat \<Rightarrow> pc \<Rightarrow> close_state \<Rightarrow> close_state" where
  "go_to i p s = s\<lparr>cl_pcs := (cl_pcs s)[i := p]\<rparr>"

fun close_move :: "nat \<Rightarrow> pc \<Rightarrow> close_state \<Rightarrow> close_state option" where
  "close_move i SendCalled s = Some (go_to i (if cl_connected s then SendWaits else Done) s)"
| "close_move i SendWaits s =
     (if cl_writer s then None else Some (go_to i SendLocked (s\<lparr>cl_readers := cl_readers s + 1\<rparr>)))"
| "close_move i SendLocked s =
     (if cl_connected s then Some (go_to i SendReady s)
      else Some (go_to i Done (s\<lparr>cl_readers := cl_readers s - 1\<rparr>)))"
| "close_move i SendReady s =
     (if cl_chanClosed s then Some (go_to i Panicked s)
      else Some (go_to i Done (s\<lparr>cl_readers := cl_readers s - 1\<rparr>)))"
| "close_move i CloseCalled s =
     (if cl_connected s then Some (go_to i CloseWon (s\<lparr>cl_connected := False\<rparr>)) else Some (go_to i Done s))"
| "close_move i CloseWon s =
     (if cl_writer s \<or> cl_readers s > 0 then None else Some (go_to i CloseLocked (s\<lparr>cl_writer := True\<rparr>)))"
| "close_move i CloseLocked s =
     (if cl_chanClosed s then Some (go_to i Panicked s)
      else Some (go_to i CloseClosed (s\<lparr>cl_chanClosed := True\<rparr>)))"
| "close_move i CloseClosed s = Some (go_to i Done (s\<lparr>cl_writer := False\<rparr>))"
| "close_move i Done s = None"
| "close_move i Panicked s = None"

definition close_step :: "nat \<Rightarrow> close_state \<Rightarrow> close_state option" where
  "close_step i s = (if i < length (cl_pcs s) then close_move i (cl_pcs s ! i) s else None)"

fun close_run :: "nat list \<Rightarrow> close_state \<Rightarrow> close_state option" where
  "close_run [] s = Some s"
| "close_run (i # is) s = (case close_step i s of None \<Rightarrow> None | Some s' \<Rightarrow> close_run is s')"

text \<open>An open connection with \<open>n\<close> concurrent calls of \<^verbatim>\<open>Send\<close> and \<open>k\<close> of \<^verbatim>\<open>Close\<close>.\<close>

definition close_init :: "nat \<Rightarrow> nat \<Rightarrow> close_state" where
  "close_init n k = \<lparr>cl_connected = True, cl_chanClosed = False, cl_readers = 0, cl_writer = False,
     cl_pcs = replicate n SendCalled @ replicate k CloseCalled\<rparr>"

section \<open>The invariant\<close>

definition pc_num :: "(pc \<Rightarrow> bool) \<Rightarrow> close_state \<Rightarrow> nat" where
  "pc_num P s = length (filter P (cl_pcs s))"

definition read_locked :: "pc \<Rightarrow> bool" where
  "read_locked p \<longleftrightarrow> p = SendLocked \<or> p = SendReady"

definition write_locked :: "pc \<Rightarrow> bool" where
  "write_locked p \<longleftrightarrow> p = CloseLocked \<or> p = CloseClosed"

definition won_close :: "pc \<Rightarrow> bool" where
  "won_close p \<longleftrightarrow> p = CloseWon \<or> p = CloseLocked"

definition to_close :: "pc \<Rightarrow> bool" where
  "to_close p \<longleftrightarrow> p = CloseCalled"

text \<open>\<open>k\<close> is the number of calls of \<^verbatim>\<open>Close\<close>.\<close>

definition close_inv :: "nat \<Rightarrow> close_state \<Rightarrow> bool" where
  "close_inv k s \<longleftrightarrow>
     (cl_connected s \<longrightarrow> pc_num to_close s = k) \<and>
     pc_num read_locked s = cl_readers s \<and>
     pc_num write_locked s = of_bool (cl_writer s) \<and>
     pc_num won_close s + of_bool (cl_chanClosed s) = of_bool (\<not> cl_connected s) \<and>
     (cl_writer s \<longrightarrow> cl_readers s = 0) \<and>
     (cl_chanClosed s \<longrightarrow> SendReady \<notin> set (cl_pcs s)) \<and>
     Panicked \<notin> set (cl_pcs s)"

lemma pc_filter_update:
  "i < length xs \<Longrightarrow> length (filter P (xs[i := x])) + of_bool (P (xs ! i)) = length (filter P xs) + of_bool (P x)"
proof (induction xs arbitrary: i)
  case (Cons a xs)
  then show ?case by (cases i) auto
qed simp

lemma pc_num_go_to:
  "i < length (cl_pcs s) \<Longrightarrow> pc_num P (go_to i p s) + of_bool (P (cl_pcs s ! i)) = pc_num P s + of_bool (P p)"
  by (simp add: pc_num_def go_to_def pc_filter_update)

lemma pc_num_simps [simp]:
  "pc_num P (cl_connected_update f s) = pc_num P s" "pc_num P (cl_chanClosed_update f s) = pc_num P s"
  "pc_num P (cl_readers_update g s) = pc_num P s" "pc_num P (cl_writer_update f s) = pc_num P s"
  by (simp_all add: pc_num_def)

lemma pc_num_pos: "p \<in> set (cl_pcs s) \<Longrightarrow> P p \<Longrightarrow> 0 < pc_num P s"
  by (auto simp: pc_num_def filter_empty_conv)

lemma go_to_simps [simp]:
  "cl_connected (go_to i p s) = cl_connected s" "cl_chanClosed (go_to i p s) = cl_chanClosed s"
  "cl_readers (go_to i p s) = cl_readers s" "cl_writer (go_to i p s) = cl_writer s"
  by (simp_all add: go_to_def)

lemma go_to_pcs: "set (cl_pcs (go_to i p s)) \<subseteq> insert p (set (cl_pcs s))"
  by (simp add: go_to_def set_update_subset_insert)

lemmas pc_kinds = read_locked_def write_locked_def won_close_def to_close_def

lemma close_inv_go_to:
  assumes i: "i < length (cl_pcs s)" and v: "cl_pcs v = cl_pcs s" and q: "q \<noteq> Panicked"
    and inv: "close_inv k s"
    and "cl_connected v \<Longrightarrow> cl_connected s \<and> of_bool (to_close (cl_pcs s ! i)) = (of_bool (to_close q) :: nat)"
    and "cl_readers v + of_bool (read_locked (cl_pcs s ! i)) = cl_readers s + of_bool (read_locked q)"
    and "of_bool (cl_writer v) + of_bool (write_locked (cl_pcs s ! i)) = of_bool (cl_writer s) + (of_bool (write_locked q) :: nat)"
    and "of_bool (won_close q) + of_bool (cl_chanClosed v) + of_bool (cl_connected v)
      = of_bool (won_close (cl_pcs s ! i)) + of_bool (cl_chanClosed s) + (of_bool (cl_connected s) :: nat)"
    and "cl_writer v \<Longrightarrow> cl_readers v = 0"
    and "cl_chanClosed v \<Longrightarrow> q \<noteq> SendReady \<and> SendReady \<notin> set (cl_pcs s)"
  shows "close_inv k (go_to i q v)"
proof -
  have n: "pc_num P (go_to i q v) + of_bool (P (cl_pcs s ! i)) = pc_num P s + of_bool (P q)" for P
    using pc_num_go_to [of i v P q] i v by (simp add: pc_num_def)
  have pcs: "set (cl_pcs (go_to i q v)) \<subseteq> insert q (set (cl_pcs s))"
    using go_to_pcs [of i q v] v by simp
  have win: "pc_num won_close s + of_bool (cl_chanClosed s) + of_bool (cl_connected s) = 1"
    using inv by (simp add: close_inv_def of_bool_def split: if_splits)
  have "pc_num won_close (go_to i q v) + of_bool (cl_chanClosed v) + of_bool (cl_connected v) = 1"
    using n [of won_close] win assms(8) by linarith
  then have "pc_num won_close (go_to i q v) + of_bool (cl_chanClosed v) = of_bool (\<not> cl_connected v)"
    by (simp add: of_bool_def split: if_splits)
  moreover have "pc_num read_locked (go_to i q v) = cl_readers v"
    using n [of read_locked] inv assms(6) by (simp add: close_inv_def)
  moreover have "pc_num write_locked (go_to i q v) = of_bool (cl_writer v)"
    using n [of write_locked] inv assms(7) by (simp add: close_inv_def)
  moreover have "cl_connected v \<longrightarrow> pc_num to_close (go_to i q v) = k"
    using n [of to_close] inv assms(5) by (auto simp: close_inv_def)
  ultimately show ?thesis
    using assms(3,9,10) inv pcs by (auto simp: close_inv_def)
qed

lemma close_inv_move:
  assumes inv: "close_inv k s" and i: "i < length (cl_pcs s)" and move: "close_move i (cl_pcs s ! i) s = Some s'"
  shows "close_inv k s'"
proof -
  have mem: "cl_pcs s ! i \<in> set (cl_pcs s)" using i by simp
  have reader: "\<not> cl_writer s" "0 < cl_readers s" if "read_locked (cl_pcs s ! i)"
    using inv pc_num_pos [OF mem, of read_locked] that by (auto simp: close_inv_def)
  have owner: "cl_writer s" "cl_readers s = 0" if "write_locked (cl_pcs s ! i)"
    using inv pc_num_pos [OF mem, of write_locked] that by (auto simp: close_inv_def of_bool_def split: if_splits)
  have winner: "\<not> cl_connected s" "\<not> cl_chanClosed s" if "won_close (cl_pcs s ! i)"
    using inv pc_num_pos [OF mem, of won_close] that by (auto simp: close_inv_def of_bool_def split: if_splits)
  have opened: "\<not> cl_chanClosed s" if "cl_connected s"
    using inv that by (simp add: close_inv_def of_bool_def split: if_splits)
  have ready: "cl_chanClosed s \<Longrightarrow> SendReady \<notin> set (cl_pcs s)"
    and no_reader: "cl_readers s = 0 \<Longrightarrow> SendReady \<notin> set (cl_pcs s)"
    and excl: "cl_writer s \<Longrightarrow> cl_readers s = 0"
    using inv pc_num_pos [of SendReady s read_locked] by (auto simp: close_inv_def read_locked_def)
  note facts = reader owner winner opened ready no_reader excl
  note go_to = close_inv_go_to [OF i _ _ inv]
  show ?thesis
  proof (cases "cl_pcs s ! i")
    case SendCalled
    with move facts show ?thesis by (auto simp: pc_kinds intro!: go_to split: if_splits)
  next
    case SendWaits
    with move facts show ?thesis by (auto simp: pc_kinds intro!: go_to split: if_splits)
  next
    case SendLocked
    with move facts show ?thesis by (auto simp: pc_kinds intro!: go_to split: if_splits)
  next
    case SendReady
    with move facts mem show ?thesis by (auto simp: pc_kinds intro!: go_to split: if_splits)
  next
    case CloseCalled
    with move facts show ?thesis by (auto simp: pc_kinds intro!: go_to split: if_splits)
  next
    case CloseWon
    with move facts show ?thesis by (auto simp: pc_kinds intro!: go_to split: if_splits)
  next
    case CloseLocked
    with move facts show ?thesis by (auto simp: pc_kinds intro!: go_to split: if_splits)
  next
    case CloseClosed
    with move facts show ?thesis by (auto simp: pc_kinds intro!: go_to split: if_splits)
  qed (use move in simp_all)
qed

lemma close_inv_init: "close_inv k (close_init n k)"
  by (auto simp: close_inv_def close_init_def pc_num_def pc_kinds)

lemma close_inv_run: "close_run is s = Some s' \<Longrightarrow> close_inv k s \<Longrightarrow> close_inv k s'"
  by (induction "is" arbitrary: s) (auto simp: close_step_def close_inv_move split: option.splits if_splits)

section \<open>Progress\<close>

fun pc_rank :: "pc \<Rightarrow> nat" where
  "pc_rank SendCalled = 4"
| "pc_rank SendWaits = 3"
| "pc_rank SendLocked = 2"
| "pc_rank SendReady = 1"
| "pc_rank CloseCalled = 4"
| "pc_rank CloseWon = 3"
| "pc_rank CloseLocked = 2"
| "pc_rank CloseClosed = 1"
| "pc_rank p = 0"

definition pc_ranks :: "close_state \<Rightarrow> nat" where
  "pc_ranks s = sum_list (map pc_rank (cl_pcs s))"

lemma sum_rank_update:
  "i < length xs \<Longrightarrow> sum_list (map pc_rank (xs[i := x])) + pc_rank (xs ! i) = sum_list (map pc_rank xs) + pc_rank x"
proof (induction xs arbitrary: i)
  case (Cons a xs)
  then show ?case by (cases i) auto
qed simp

lemma close_step_rank:
  assumes "close_step i s = Some s'"
  shows "pc_ranks s' < pc_ranks s"
proof -
  have i: "i < length (cl_pcs s)" and move: "close_move i (cl_pcs s ! i) s = Some s'"
    using assms by (auto simp: close_step_def split: if_splits)
  have "pc_ranks (go_to i q v) + pc_rank (cl_pcs s ! i) = pc_ranks s + pc_rank q" if "cl_pcs v = cl_pcs s" for q v
    using sum_rank_update [OF i, of q] that by (simp add: pc_ranks_def go_to_def)
  then have less: "pc_ranks (go_to i q v) < pc_ranks s" if "cl_pcs v = cl_pcs s" "pc_rank q < pc_rank (cl_pcs s ! i)" for q v
    using that by (metis add_less_cancel_right nat_add_left_cancel_less)
  show ?thesis
    using move by (cases "cl_pcs s ! i") (auto intro!: less split: if_splits)
qed

lemma close_progress:
  assumes inv: "close_inv k s" and p: "p \<in> set (cl_pcs s)" "p \<noteq> Done"
  shows "\<exists>i s'. close_step i s = Some s'"
proof -
  have go: "\<exists>i s'. close_step i s = Some s'" if "q \<in> set (cl_pcs s)" "\<And>i. \<exists>s'. close_move i q s = Some s'" for q
  proof -
    note q = that
    obtain i where "i < length (cl_pcs s)" "cl_pcs s ! i = q"
      using q(1) by (auto simp: in_set_conv_nth)
    with q(2) [of i] show ?thesis by (auto simp: close_step_def)
  qed
  show ?thesis
  proof (cases "cl_writer s")
    case True
    with inv have "0 < pc_num write_locked s" by (simp add: close_inv_def)
    then obtain q where "q \<in> set (cl_pcs s)" "write_locked q"
      by (auto simp: pc_num_def filter_empty_conv)
    then show ?thesis by (intro go [of q]) (auto simp: write_locked_def)
  next
    case unlocked: False
    show ?thesis
    proof (cases "cl_readers s = 0")
      case False
      with inv have "0 < pc_num read_locked s" by (simp add: close_inv_def)
      then obtain q where "q \<in> set (cl_pcs s)" "read_locked q"
        by (auto simp: pc_num_def filter_empty_conv)
      then show ?thesis by (intro go [of q]) (auto simp: read_locked_def)
    next
      case True
      have "p \<noteq> Panicked" using inv p by (auto simp: close_inv_def)
      with True unlocked p show ?thesis by (intro go [of p]) (cases p; simp)+
    qed
  qed
qed

section \<open>Properties\<close>

text \<open>C15. \<^verbatim>\<open>Send\<close> and \<^verbatim>\<open>Close\<close> may run concurrently in any numbers and any interleaving: no send meets a closed
  channel and the channel is not closed twice (either would panic); no schedule is longer than four
  operations per call; and a schedule that cannot go on has finished every call and, if there was a
  \<^verbatim>\<open>Close\<close>, closed the channel.\<close>

theorem close_protocol_safe:
  assumes "close_run is (close_init n k) = Some s"
  shows "Panicked \<notin> set (cl_pcs s) \<and> length is \<le> 4 * (n + k)
    \<and> ((\<forall>i. close_step i s = None) \<longrightarrow> set (cl_pcs s) \<subseteq> {Done} \<and> (0 < k \<longrightarrow> cl_chanClosed s))"
proof -
  have inv: "close_inv k s" by (rule close_inv_run [OF assms close_inv_init])
  have "close_run js u = Some v \<Longrightarrow> length js + pc_ranks v \<le> pc_ranks u" for js u v
  proof (induction js arbitrary: u)
    case (Cons j js)
    then obtain u' where "close_step j u = Some u'" "close_run js u' = Some v" by (auto split: option.splits)
    with Cons.IH [of u'] close_step_rank [of j u u'] show ?case by simp
  qed simp
  from this [OF assms] have "length is \<le> 4 * (n + k)"
    by (simp add: pc_ranks_def close_init_def sum_list_replicate)
  moreover have "set (cl_pcs s) \<subseteq> {Done} \<and> (0 < k \<longrightarrow> cl_chanClosed s)" if stuck: "\<forall>i. close_step i s = None"
  proof -
    have done_all: "p = Done" if "p \<in> set (cl_pcs s)" for p
      using close_progress [OF inv that] stuck by auto
    then have zero: "pc_num to_close s = 0" "pc_num won_close s = 0"
      by (auto simp: pc_num_def filter_empty_conv pc_kinds)
    with inv have "0 < k \<longrightarrow> cl_chanClosed s"
      by (auto simp: close_inv_def of_bool_def split: if_splits)
    with done_all show ?thesis by blast
  qed
  ultimately show ?thesis
    using inv by (auto simp: close_inv_def)
qed

theorem close_protocol_safe_witness:
  "\<exists>s. close_run [0, 0, 0, 1, 0, 1, 1, 1] (close_init 1 1) = Some s \<and> Panicked \<notin> set (cl_pcs s) \<and> cl_chanClosed s"
proof -
  let ?is = "[0, 0, 0, 1, 0, 1, 1, 1] :: nat list"
  have run: "close_run ?is (close_init 1 1) = Some \<lparr>cl_connected = False, cl_chanClosed = True, cl_readers = 0,
      cl_writer = False, cl_pcs = [Done, Done]\<rparr>" (is "_ = Some ?s")
    by (simp add: close_init_def close_step_def go_to_def)
  have "\<forall>i. close_step i ?s = None"
    by (simp add: close_step_def nth_Cons' less_Suc_eq)
  then have "Panicked \<notin> set (cl_pcs ?s)" "cl_chanClosed ?s"
    using close_protocol_safe [OF run] by simp_all
  with run show ?thesis by blast
qed

end
