(* ===== verification/ServerApp.thy ===== *)
theory ServerApp
  imports TcpServer HpServer BodyParsers Metrics
begin

text \<open>
  The two servers of \<^verbatim>\<open>cmd/server/main.go\<close> and \<^verbatim>\<open>cmd/highperf/main.go\<close>: their handlers and hooks over the
  memory storage, the metrics and the logger. The handlers are the same code but for the connection type
  and the lines they log, so they are written once over what they use of the connection; the laws they
  rely on are the locale \<open>application\<close>, which both servers interpret.
\<close>

section \<open>What the handlers use\<close>

record app_state =
  app_storage :: MemoryStorage
  app_metrics :: Metrics
  app_lines :: "gostring list"

record 'w app_iface =
  ap_Send :: "nat \<Rightarrow> Message option \<Rightarrow> 'w \<Rightarrow> unit res \<times> 'w"
  ap_DeviceID :: "nat \<Rightarrow> 'w \<Rightarrow> gostring"
  ap_SetDeviceID :: "nat \<Rightarrow> gostring \<Rightarrow> 'w \<Rightarrow> 'w"
  ap_RemoteAddr :: "nat \<Rightarrow> 'w \<Rightarrow> gostring"
  ap_state :: "'w \<Rightarrow> app_state"
  ap_upd :: "(app_state \<Rightarrow> app_state) \<Rightarrow> 'w \<Rightarrow> 'w"
  ap_fmt :: "go_value \<Rightarrow> gostring"
  ap_clock :: "'w \<Rightarrow> gostring"
  ap_zone :: zone
  ap_verbose :: bool

definition app_log :: "'w app_iface \<Rightarrow> log_call \<Rightarrow> string \<Rightarrow> LogField list \<Rightarrow> 'w \<Rightarrow> 'w" where
  "app_log I call msg fs w =
     ap_upd I (\<lambda>a. a\<lparr>app_lines := app_lines a @ fst (call (ap_fmt I) (ap_clock I w) (go_str msg) fs (NewLogger InfoLevel))\<rparr>) w"

text \<open>The lines that \<^verbatim>\<open>cmd/server\<close> logs and \<^verbatim>\<open>cmd/highperf\<close> does not.\<close>

definition app_info :: "'w app_iface \<Rightarrow> string \<Rightarrow> LogField list \<Rightarrow> 'w \<Rightarrow> 'w" where
  "app_info I msg fs w = (if ap_verbose I then app_log I log_Info msg fs w else w)"

definition app_metric :: "'w app_iface \<Rightarrow> (Metrics \<Rightarrow> Metrics) \<Rightarrow> 'w \<Rightarrow> 'w" where
  "app_metric I f w = ap_upd I (\<lambda>a. a\<lparr>app_metrics := f (app_metrics a)\<rparr>) w"

definition app_store :: "'w app_iface \<Rightarrow> MemoryStorage \<Rightarrow> 'w \<Rightarrow> 'w" where
  "app_store I s w = ap_upd I (\<lambda>a. a\<lparr>app_storage := s\<rparr>) w"

definition app_failed :: "'w app_iface \<Rightarrow> string \<Rightarrow> go_error \<Rightarrow> 'w \<Rightarrow> unit res \<times> 'w" where
  "app_failed I msg e w =
     (Err e, app_metric I IncrMessageErrors (app_log I log_Error msg [log_field ''error'' (VError e)] w))"

section \<open>Replies\<close>

definition buildCommonResponse :: "uint16 \<Rightarrow> uint16 \<Rightarrow> uint8 \<Rightarrow> byte list" where
  "buildCommonResponse mid flowNo result = put_u16 flowNo @ put_u16 mid @ [result]"

definition buildRegisterResponse :: "uint8 \<Rightarrow> gostring \<Rightarrow> byte list" where
  "buildRegisterResponse result authCode = put_u16 1 @ [result] @ authCode"

definition reply :: "uint16 \<Rightarrow> MessageHeader \<Rightarrow> byte list \<Rightarrow> Message" where
  "reply mid h body =
     \<lparr>Header = Some \<lparr>MsgID = mid, MsgBodyProperty = 0, ProtocolVersion = 0, PhoneNo = PhoneNo h,
        MsgFlowNo = MsgFlowNo h, MsgBodyLength = 0, SubPackage = False, Encryption = 0\<rparr>,
      Body = body, Raw = []\<rparr>"

definition auth_token :: gostring where
  "auth_token = go_str ''AUTH_TOKEN_2024''"

text \<open>\<^verbatim>\<open>msg.Header\<close>, dereferenced.\<close>

definition with_header :: "Message \<Rightarrow> (MessageHeader \<Rightarrow> 'w \<Rightarrow> unit res \<times> 'w) \<Rightarrow> 'w \<Rightarrow> unit res \<times> 'w" where
  "with_header msg k w = (case Header msg of None \<Rightarrow> (Panic NilDereference, w) | Some h \<Rightarrow> k h w)"

section \<open>Handlers and hooks\<close>

definition on_location :: "'w app_iface \<Rightarrow> 'w handler" where
  "on_location I ctx conn msg w =
     (case ParseLocationReport (ap_zone I) (Body msg) of
        Panic p \<Rightarrow> (Panic p, w)
      | Err e \<Rightarrow> app_failed I ''Failed to parse location report'' e w
      | Ok report \<Rightarrow>
          (let ctx1 = with_value deviceID_key (VString (ap_DeviceID I conn w)) (ctx_values ctx)
           in case SaveLocation ctx1 (Some report) (app_storage (ap_state I w)) of
                (Panic p, s) \<Rightarrow> (Panic p, app_store I s w)
              | (Err e, s) \<Rightarrow> app_failed I ''Failed to save location'' e (app_store I s w)
              | (Ok _, s) \<Rightarrow>
                  (let w1 = app_metric I IncrReceivedMessages (app_store I s w);
                       w2 = app_info I ''Location report received''
                              [log_field ''deviceID'' (VString (ap_DeviceID I conn w1)),
                               log_field ''latitude'' (VFloat (LR_Latitude report)),
                               log_field ''longitude'' (VFloat (LR_Longitude report))] w1
                   in with_header msg (\<lambda>h.
                        ap_Send I conn (Some (reply MsgIDPlatformCommonResponse h
                          (buildCommonResponse (MsgID h) (MsgFlowNo h) 0)))) w2)))"

definition on_register :: "'w app_iface \<Rightarrow> 'w handler" where
  "on_register I ctx conn msg w =
     (case ParseTerminalRegister (Body msg) of
        Panic p \<Rightarrow> (Panic p, w)
      | Err e \<Rightarrow> app_failed I ''Failed to parse terminal register'' e w
      | Ok reg \<Rightarrow>
          (let w1 = ap_SetDeviceID I conn (TerminalID reg) w
           in case SaveDevice (ap_DeviceID I conn w1) (Some reg) (app_storage (ap_state I w1)) of
                (Panic p, s) \<Rightarrow> (Panic p, app_store I s w1)
              | (Err e, s) \<Rightarrow> app_failed I ''Failed to save device'' e (app_store I s w1)
              | (Ok _, s) \<Rightarrow>
                  (let w2 = app_metric I IncrReceivedMessages (app_store I s w1);
                       w3 = app_info I ''Terminal registered''
                              [log_field ''terminalID'' (VString (TerminalID reg)),
                               log_field ''plateNo'' (VString (PlateNo reg))] w2
                   in with_header msg (\<lambda>h.
                        ap_Send I conn (Some (reply MsgIDTerminalRegisterResponse h
                          (buildRegisterResponse 0 auth_token)))) w3)))"

definition on_heartbeat :: "'w app_iface \<Rightarrow> 'w handler" where
  "on_heartbeat I ctx conn msg w =
     (let w1 = app_metric I IncrReceivedMessages w;
          w2 = app_info I ''Heartbeat received'' [log_field ''deviceID'' (VString (ap_DeviceID I conn w1))] w1
      in with_header msg (\<lambda>h.
           ap_Send I conn (Some (reply MsgIDPlatformCommonResponse h
             (buildCommonResponse (MsgID h) (MsgFlowNo h) 0)))) w2)"

definition on_connected :: "'w app_iface \<Rightarrow> nat \<Rightarrow> 'w \<Rightarrow> unit res \<times> 'w" where
  "on_connected I conn w =
     (Ok (), app_info I ''Connection established'' [log_field ''remoteAddr'' (VString (ap_RemoteAddr I conn w))]
        (app_metric I IncrActiveConnections w))"

definition on_disconnected :: "'w app_iface \<Rightarrow> nat \<Rightarrow> 'w \<Rightarrow> unit res \<times> 'w" where
  "on_disconnected I conn w =
     (Ok (), app_info I ''Connection closed'' [log_field ''deviceID'' (VString (ap_DeviceID I conn w))]
        (app_metric I DecrActiveConnections w))"

definition app_server :: "'w app_iface \<Rightarrow> 'w server" where
  "app_server I =
     OnDisconnect (on_disconnected I) (OnConnect (on_connected I)
       (RegisterHandler MsgIDTerminalHeartbeat (on_heartbeat I)
         (RegisterHandler MsgIDTerminalRegister (on_register I)
           (RegisterHandler MsgIDLocationReport (on_location I) new_server))))"

section \<open>The two programs\<close>

definition server_config :: TcpConfig where
  "server_config = DefaultConfig\<lparr>ListenAddr := go_str '':8080'', MaxConnections := 100000\<rparr>"

definition highperf_config :: "int \<Rightarrow> HighPerfConfig" where
  "highperf_config numCPU = (DefaultHighPerfConfig numCPU)\<lparr>hp_ListenAddr := go_str '':8080'',
     hp_MaxConnections := 200000, hp_MinWorkers := 1000, hp_MaxWorkers := 50000, hp_WorkerQueueSize := 1000000,
     hp_ConnPoolShardCount := 256, hp_AcceptParallel := numCPU, hp_ReadBufferSize := 8192,
     hp_WriteBufferSize := 8192, hp_EnableTCPNoDelay := True, hp_EnableTCPKeepAlive := True\<rparr>"

definition new_app :: "go_time \<Rightarrow> app_state" where
  "new_app now = \<lparr>app_storage = NewMemoryStorage, app_metrics = NewMetrics now, app_lines = []\<rparr>"

definition tcp_app ::
  "(go_value \<Rightarrow> gostring) \<Rightarrow> (app_state tcp_world \<Rightarrow> gostring) \<Rightarrow> zone \<Rightarrow> app_state tcp_world app_iface" where
  "tcp_app fmt clock zn =
     \<lparr>ap_Send = tcp_Send, ap_DeviceID = tcp_DeviceID, ap_SetDeviceID = tcp_SetDeviceID,
      ap_RemoteAddr = tcp_RemoteAddr, ap_state = tw_app, ap_upd = (\<lambda>f w. w\<lparr>tw_app := f (tw_app w)\<rparr>),
      ap_fmt = fmt, ap_clock = clock, ap_zone = zn, ap_verbose = True\<rparr>"

definition hp_app ::
  "(go_value \<Rightarrow> gostring) \<Rightarrow> (app_state hp_world \<Rightarrow> gostring) \<Rightarrow> zone \<Rightarrow> app_state hp_world app_iface" where
  "hp_app fmt clock zn =
     \<lparr>ap_Send = hp_Send, ap_DeviceID = hp_DeviceID, ap_SetDeviceID = hp_SetDeviceID,
      ap_RemoteAddr = hp_RemoteAddr, ap_state = hw_app, ap_upd = (\<lambda>f w. w\<lparr>hw_app := f (hw_app w)\<rparr>),
      ap_fmt = fmt, ap_clock = clock, ap_zone = zn, ap_verbose = False\<rparr>"

text \<open>What the two \<^verbatim>\<open>main\<close>s register.\<close>

definition cmd_server ::
  "(go_value \<Rightarrow> gostring) \<Rightarrow> (app_state tcp_world \<Rightarrow> gostring) \<Rightarrow> zone \<Rightarrow> app_state tcp_world server" where
  "cmd_server fmt clock zn = app_server (tcp_app fmt clock zn)"

definition cmd_highperf ::
  "(go_value \<Rightarrow> gostring) \<Rightarrow> (app_state hp_world \<Rightarrow> gostring) \<Rightarrow> zone \<Rightarrow> app_state hp_world server" where
  "cmd_highperf fmt clock zn = app_server (hp_app fmt clock zn)"

section \<open>The laws the handlers rely on\<close>

definition known_devices :: "MemoryStorage \<Rightarrow> gostring set" where
  "known_devices s = dom (gm_get (devices s))"

text \<open>\<open>registered\<close> are the device IDs the server's registry knows; \<open>valid\<close> says that a connection exists.\<close>

locale application =
  fixes I :: "'w app_iface" and valid :: "nat \<Rightarrow> 'w \<Rightarrow> bool" and registered :: "'w \<Rightarrow> gostring set"
  assumes state_upd: "ap_state I (ap_upd I f w) = f (ap_state I w)"
    and state_Send: "ap_state I (snd (ap_Send I c m w)) = ap_state I w"
    and state_SetDeviceID: "ap_state I (ap_SetDeviceID I c d w) = ap_state I w"
    and device_upd: "ap_DeviceID I c (ap_upd I f w) = ap_DeviceID I c w"
    and device_Send: "ap_DeviceID I c' (snd (ap_Send I c m w)) = ap_DeviceID I c' w"
    and device_SetDeviceID: "valid c w \<Longrightarrow> ap_DeviceID I c (ap_SetDeviceID I c d w) = d"
    and valid_upd: "valid c (ap_upd I f w) = valid c w"
    and valid_Send: "valid c' (snd (ap_Send I c m w)) = valid c' w"
    and valid_SetDeviceID: "valid c w \<Longrightarrow> valid c (ap_SetDeviceID I c d w)"
    and safe_Send: "safe (fst (ap_Send I c m w))"
    and registered_upd: "registered (ap_upd I f w) = registered w"
    and registered_Send: "registered (snd (ap_Send I c m w)) = registered w"
    and registered_SetDeviceID: "valid c w \<Longrightarrow> registered (ap_SetDeviceID I c d w) \<subseteq> insert d (registered w)"
begin

lemmas laws = state_upd state_Send state_SetDeviceID device_upd device_Send device_SetDeviceID
  valid_upd valid_Send valid_SetDeviceID registered_upd registered_Send

lemma state_app [simp]:
  "app_storage (ap_state I (app_log I call t fs w)) = app_storage (ap_state I w)"
  "app_metrics (ap_state I (app_log I call t fs w)) = app_metrics (ap_state I w)"
  "app_storage (ap_state I (app_info I t fs w)) = app_storage (ap_state I w)"
  "app_metrics (ap_state I (app_info I t fs w)) = app_metrics (ap_state I w)"
  "app_storage (ap_state I (app_metric I g w)) = app_storage (ap_state I w)"
  "app_metrics (ap_state I (app_metric I g w)) = g (app_metrics (ap_state I w))"
  "app_storage (ap_state I (app_store I s w)) = s"
  "app_metrics (ap_state I (app_store I s w)) = app_metrics (ap_state I w)"
  by (simp_all add: app_log_def app_info_def app_metric_def app_store_def state_upd)

lemma device_app [simp]:
  "ap_DeviceID I c (app_log I call t fs w) = ap_DeviceID I c w" "ap_DeviceID I c (app_info I t fs w) = ap_DeviceID I c w"
  "ap_DeviceID I c (app_metric I g w) = ap_DeviceID I c w" "ap_DeviceID I c (app_store I s w) = ap_DeviceID I c w"
  by (simp_all add: app_log_def app_info_def app_metric_def app_store_def device_upd)

lemma registered_app [simp]:
  "registered (app_log I call t fs w) = registered w" "registered (app_info I t fs w) = registered w"
  "registered (app_metric I g w) = registered w" "registered (app_store I s w) = registered w"
  by (simp_all add: app_log_def app_info_def app_metric_def app_store_def registered_upd)

lemma valid_app [simp]:
  "valid c (app_log I call t fs w) = valid c w" "valid c (app_info I t fs w) = valid c w"
  "valid c (app_metric I g w) = valid c w" "valid c (app_store I s w) = valid c w"
  by (simp_all add: app_log_def app_info_def app_metric_def app_store_def valid_upd)

text \<open>The reply at the end of a handler acts on the connection only.\<close>

lemma replied [simp]:
  "ap_state I (snd (with_header msg (\<lambda>h. ap_Send I c (k h)) w)) = ap_state I w"
  "ap_DeviceID I c (snd (with_header msg (\<lambda>h. ap_Send I c (k h)) w)) = ap_DeviceID I c w"
  "valid c (snd (with_header msg (\<lambda>h. ap_Send I c (k h)) w)) = valid c w"
  "registered (snd (with_header msg (\<lambda>h. ap_Send I c (k h)) w)) = registered w"
  "Header msg = Some h0 \<Longrightarrow> safe (fst (with_header msg (\<lambda>h. ap_Send I c (k h)) w))"
  by (simp_all add: with_header_def laws safe_Send split: option.splits)

text \<open>A location report is stored, under the device ID of its connection, exactly when it can be parsed and
  the connection has one.\<close>

lemma on_location_storage:
  assumes "on_location I ctx c msg w = (r, w')"
  shows "app_storage (ap_state I w') =
    (case ParseLocationReport (ap_zone I) (Body msg) of
       Ok report \<Rightarrow>
         (if ap_DeviceID I c w = [] then app_storage (ap_state I w)
          else (app_storage (ap_state I w))\<lparr>locations :=
            append_capped (ap_DeviceID I c w) report (locations (app_storage (ap_state I w)))\<rparr>)
     | _ \<Rightarrow> app_storage (ap_state I w))"
proof -
  have ctx: "ctx_string (with_value deviceID_key (VString d) (ctx_values ctx)) deviceID_key = d" for d
    by (simp add: ctx_string_def with_value_def)
  from assms have "app_storage (ap_state I (snd (on_location I ctx c msg w))) = app_storage (ap_state I w')" by simp
  then show ?thesis
    by (cases "ParseLocationReport (ap_zone I) (Body msg)")
      (simp_all add: on_location_def app_failed_def SaveLocation_def ctx Let_def split: if_splits)
qed

text \<open>Before that, a location report changes nothing but the log and the count of errors.\<close>

lemma on_location_unregistered:
  assumes "ParseLocationReport (ap_zone I) (Body msg) = Ok report" and "ap_DeviceID I c w = []"
  shows "on_location I ctx c msg w =
    app_failed I ''Failed to save location'' DeviceIDNotInContext (app_store I (app_storage (ap_state I w)) w)"
  using assms by (simp add: on_location_def SaveLocation_def ctx_string_def with_value_def deviceID_key_def)

text \<open>A registration that can be parsed is stored under the terminal ID it carries.\<close>

lemma on_register_storage:
  assumes "on_register I ctx c msg w = (r, w')" and "valid c w"
    and "ParseTerminalRegister (Body msg) = Ok reg"
  shows "GetDevice (TerminalID reg) (app_storage (ap_state I w')) = Ok reg \<and> ap_DeviceID I c w' = TerminalID reg
    \<and> locations (app_storage (ap_state I w')) = locations (app_storage (ap_state I w)) \<and> valid c w'"
proof -
  have "w' = snd (on_register I ctx c msg w)" using assms(1) by simp
  then show ?thesis
    using assms(2,3)
    by (simp add: on_register_def SaveDevice_def Let_def laws GetDevice_def gm_get_put)
qed

text \<open>What every handler does to a message the server hands to it: it does not panic, counts the message in
  exactly one of two counters of the metrics, leaves the count of connections alone, and registers only
  devices whose registration it stores.\<close>

definition served :: "nat \<Rightarrow> 'w \<Rightarrow> unit res \<times> 'w \<Rightarrow> bool" where
  "served c w r \<longleftrightarrow>
     safe (fst r) \<and> valid c (snd r) \<and>
     m_receivedMessages (app_metrics (ap_state I (snd r))) + m_messageErrors (app_metrics (ap_state I (snd r)))
       = m_receivedMessages (app_metrics (ap_state I w)) + m_messageErrors (app_metrics (ap_state I w)) + 1 \<and>
     m_activeConnections (app_metrics (ap_state I (snd r))) = m_activeConnections (app_metrics (ap_state I w)) \<and>
     (registered w \<subseteq> known_devices (app_storage (ap_state I w)) \<longrightarrow>
       registered (snd r) \<subseteq> known_devices (app_storage (ap_state I (snd r))))"

lemma served_failed:
  assumes "valid c w" and "app_metrics (ap_state I w) = app_metrics (ap_state I w0)"
    and "app_storage (ap_state I w) = app_storage (ap_state I w0)" and "registered w = registered w0"
  shows "served c w0 (app_failed I t e w)"
  using assms by (simp add: served_def app_failed_def IncrMessageErrors_def)

lemma on_heartbeat_served:
  "Header msg = Some h \<Longrightarrow> valid c w \<Longrightarrow> served c w (on_heartbeat I ctx c msg w)"
  by (simp add: served_def on_heartbeat_def Let_def IncrReceivedMessages_def)

lemma on_location_served:
  assumes "Header msg = Some h" and "valid c w"
  shows "served c w (on_location I ctx c msg w)"
proof (cases "ParseLocationReport (ap_zone I) (Body msg)")
  case (Ok report)
  let ?ctx = "with_value deviceID_key (VString (ap_DeviceID I c w)) (ctx_values ctx)"
  let ?s = "app_storage (ap_state I w)"
  obtain r s where rs: "SaveLocation ?ctx (Some report) ?s = (r, s)" by fastforce
  then have s: "safe r" "devices s = devices ?s" "\<And>e. r = Err e \<Longrightarrow> s = ?s"
    by (auto simp: SaveLocation_def Let_def split: if_splits)
  then have "known_devices s = known_devices ?s" by (simp add: known_devices_def)
  with Ok rs s assms show ?thesis
    by (cases r) (simp_all add: on_location_def Let_def served_failed, simp add: served_def IncrReceivedMessages_def)
qed (use assms body_parsers_total [of "ap_zone I" "Body msg"] in \<open>auto simp: on_location_def served_failed\<close>)

lemma on_register_served:
  assumes "Header msg = Some h" and "valid c w"
  shows "served c w (on_register I ctx c msg w)"
proof (cases "ParseTerminalRegister (Body msg)")
  case (Ok reg)
  let ?w = "ap_SetDeviceID I c (TerminalID reg) w"
  have "registered ?w \<subseteq> insert (TerminalID reg) (registered w)"
    by (rule registered_SetDeviceID [OF assms(2)])
  with Ok assms show ?thesis
    by (auto simp: on_register_def Let_def SaveDevice_def served_def IncrReceivedMessages_def laws known_devices_def gm_get_put)
qed (use assms body_parsers_total [of "ap_zone I" "Body msg"] in \<open>auto simp: on_register_def served_failed\<close>)

lemma server_handlers:
  "gm_get (sv_handlers (app_server I)) mid =
    (if mid = MsgIDLocationReport then Some (on_location I)
     else if mid = MsgIDTerminalRegister then Some (on_register I)
     else if mid = MsgIDTerminalHeartbeat then Some (on_heartbeat I) else None)"
  "snd ` set (sv_handlers (app_server I)) = {on_location I, on_register I, on_heartbeat I}"
  by (auto simp: app_server_def RegisterHandler_def OnConnect_def OnDisconnect_def new_server_def gm_put_def
      gm_get_def proto_consts)

lemma handler_served:
  "h \<in> snd ` set (sv_handlers (app_server I)) \<Longrightarrow> Header msg = Some hd0 \<Longrightarrow> valid c w \<Longrightarrow> served c w (h ctx c msg w)"
  unfolding server_handlers
  using on_location_served on_register_served on_heartbeat_served by auto

end

text \<open>When the operations of the connection are calls of a server, the program is code that only makes calls:
  what is proved of a server with such handlers and hooks holds of the program.\<close>

locale application_calls = application +
  fixes exec :: "'x \<Rightarrow> 'a \<Rightarrow> 'a" and own :: "nat \<Rightarrow> 'x \<Rightarrow> bool" and plain :: "'x \<Rightarrow> bool"
  assumes call_upd: "\<exists>x. plain x \<and> exec x w = ap_upd I f w"
    and call_Send: "\<exists>x. plain x \<and> exec x w = snd (ap_Send I c m w)"
    and call_SetDeviceID: "\<exists>x. own c x \<and> exec x w = ap_SetDeviceID I c d w"
    and plain_own: "plain x \<Longrightarrow> own c x"
begin

lemma calls_upd: "by_calls exec plain w (ap_upd I f w)"
  using call_upd [of w f] by_calls_one [of plain] by metis

lemma calls_app:
  "by_calls exec plain w (app_log I call t fs w)" "by_calls exec plain w (app_info I t fs w)"
  "by_calls exec plain w (app_metric I g w)" "by_calls exec plain w (app_store I s w)"
  by (simp_all add: app_log_def app_info_def app_metric_def app_store_def calls_upd)

lemma calls_own: "by_calls exec plain w w' \<Longrightarrow> by_calls exec (own c) w w'"
  by (erule by_calls_mono, rule plain_own)

lemma calls_reply: "by_calls exec plain w (snd (with_header msg (\<lambda>h. ap_Send I c (k h)) w))"
proof (cases "Header msg")
  case (Some h)
  have "by_calls exec plain w (snd (ap_Send I c (k h) w))"
    using call_Send [of w c "k h"] by_calls_one [of plain] by metis
  with Some show ?thesis by (simp add: with_header_def)
qed (simp add: with_header_def)

lemma calls_SetDeviceID: "by_calls exec (own c) w (ap_SetDeviceID I c d w)"
  using call_SetDeviceID [of c w d] by_calls_one [of "own c"] by metis

lemmas calls_steps = calls_reply calls_app

lemma calls_failed: "by_calls exec plain w (snd (app_failed I t e w))"
  unfolding app_failed_def snd_conv by (rule by_calls_trans) (rule calls_steps)+

text \<open>Only a registration does more than plain calls, and it starts with it.\<close>

lemma calls_on_heartbeat: "by_calls exec plain w (snd (on_heartbeat I ctx c msg w))"
  unfolding on_heartbeat_def Let_def
  by (rule by_calls_trans [OF by_calls_trans]) (rule calls_steps)+

lemma calls_on_location: "by_calls exec plain w (snd (on_location I ctx c msg w))"
  unfolding on_location_def Let_def
  by (auto split: go.splits prod.splits
      intro: by_calls_trans [OF calls_app(4) calls_failed] calls_failed calls_steps
        by_calls_trans [OF by_calls_trans [OF by_calls_trans]])

lemma calls_after_registration:
  "ParseTerminalRegister (Body msg) = Ok reg \<Longrightarrow>
    by_calls exec plain (ap_SetDeviceID I c (TerminalID reg) w) (snd (on_register I ctx c msg w))"
  unfolding on_register_def Let_def
  by (auto split: go.splits prod.splits
      intro: by_calls_trans [OF calls_app(4) calls_failed] calls_failed calls_steps
        by_calls_trans [OF by_calls_trans [OF by_calls_trans]])

lemma calls_on_register: "by_calls exec (own c) w (snd (on_register I ctx c msg w))"
proof (cases "ParseTerminalRegister (Body msg)")
  case (Ok reg)
  from calls_own [OF calls_after_registration [OF this]] show ?thesis
    by (rule by_calls_trans [OF calls_SetDeviceID])
qed (simp_all add: on_register_def calls_own calls_failed)

lemma app_server_ok: "server_ok exec own plain (app_server I)"
proof -
  have hooks: "sv_OnConnect (app_server I) = [on_connected I]" "sv_OnDisconnect (app_server I) = [on_disconnected I]"
    "sv_OnError (app_server I) = []" "sv_middleware (app_server I) = []"
    by (simp_all add: app_server_def RegisterHandler_def OnConnect_def OnDisconnect_def new_server_def)
  have "by_calls exec plain w (snd (on_connected I c w))" "by_calls exec plain w (snd (on_disconnected I c w))" for c w
    unfolding on_connected_def on_disconnected_def snd_conv
    by (rule by_calls_trans [OF calls_app(3,2)])+
  then show ?thesis
    unfolding server_ok_def hooks server_handlers
    by (simp add: calls_own calls_on_heartbeat calls_on_location calls_on_register)
qed

end

end
