(* ===== verification/AppProps.thy ===== *)
theory AppProps
  imports ServerApp TcpProps HpProps
begin

text \<open>
  The properties of the two programs of \<^verbatim>\<open>cmd/\<close>: the laws of \<open>application\<close> for both servers, what holds in
  every reachable state of the program, and what one terminal experiences.
\<close>

section \<open>The servers provide what the handlers rely on\<close>

lemma tcp_app_simps [simp]:
  "ap_Send (tcp_app fmt clock zn) = tcp_Send" "ap_DeviceID (tcp_app fmt clock zn) = tcp_DeviceID"
  "ap_SetDeviceID (tcp_app fmt clock zn) = tcp_SetDeviceID" "ap_RemoteAddr (tcp_app fmt clock zn) = tcp_RemoteAddr"
  "ap_state (tcp_app fmt clock zn) = tw_app" "ap_upd (tcp_app fmt clock zn) f w = w\<lparr>tw_app := f (tw_app w)\<rparr>"
  "ap_zone (tcp_app fmt clock zn) = zn"
  by (simp_all add: tcp_app_def)

lemma hp_app_simps [simp]:
  "ap_Send (hp_app fmt clock zn) = hp_Send" "ap_DeviceID (hp_app fmt clock zn) = hp_DeviceID"
  "ap_SetDeviceID (hp_app fmt clock zn) = hp_SetDeviceID" "ap_RemoteAddr (hp_app fmt clock zn) = hp_RemoteAddr"
  "ap_state (hp_app fmt clock zn) = hw_app" "ap_upd (hp_app fmt clock zn) f w = w\<lparr>hw_app := f (hw_app w)\<rparr>"
  "ap_zone (hp_app fmt clock zn) = zn"
  by (simp_all add: hp_app_def)

lemma nth_update: "xs[i := y] ! j = (if i = j \<and> i < length xs then y else xs ! j)"
  by (cases "i < length xs") (auto simp: list_update_beyond)

lemma tcp_Send_parts:
  "tw_app (snd (tcp_Send c m w)) = tw_app w" "tcp_DeviceID c' (snd (tcp_Send c m w)) = tcp_DeviceID c' w"
  "length (tw_conns (snd (tcp_Send c m w))) = length (tw_conns w)" "safe (fst (tcp_Send c m w))"
  "tw_connections (snd (tcp_Send c m w)) = tw_connections w"
  using safe_Encode [of m]
  by (auto simp: tcp_Send_def tcp_DeviceID_def net_Write_def upd_conn_def nth_update
      split: go.splits prod.splits option.splits)

lemma tcp_SetDeviceID_parts:
  "tw_app (tcp_SetDeviceID c d w) = tw_app w" "length (tw_conns (tcp_SetDeviceID c d w)) = length (tw_conns w)"
  "c < length (tw_conns w) \<Longrightarrow> tcp_DeviceID c (tcp_SetDeviceID c d w) = d"
  "dom (gm_get (tw_connections (tcp_SetDeviceID c d w))) \<subseteq> insert d (dom (gm_get (tw_connections w)))"
  by (auto simp: tcp_SetDeviceID_def tcp_DeviceID_def Let_def upd_conn_def claim_device_def gm_get_put gm_get_cad
      split: if_splits)

text \<open>Of the calls of the server the program's handlers make two, and registration a third.\<close>

fun quiet_call :: "'app tcp_call \<Rightarrow> bool" where
  "quiet_call (ASend c m) = True"
| "quiet_call (AApp f) = True"
| "quiet_call x = False"

fun program_call :: "nat \<Rightarrow> 'app tcp_call \<Rightarrow> bool" where
  "program_call c (ASetDeviceID c' d) = (c' = c)"
| "program_call c x = quiet_call x"

interpretation tcp_program: application_calls "tcp_app fmt clock zn" "\<lambda>c w. c < length (tw_conns w)"
    "\<lambda>w. dom (gm_get (tw_connections w))" tcp_call_exec program_call quiet_call for fmt clock zn
proof unfold_locales
  show "\<exists>x. quiet_call x \<and> tcp_call_exec x w = ap_upd (tcp_app fmt clock zn) f w" for w f
    by (rule exI [of _ "AApp f"]) simp
  show "\<exists>x. quiet_call x \<and> tcp_call_exec x w = snd (ap_Send (tcp_app fmt clock zn) c m w)" for w c m
    by (rule exI [of _ "ASend c m"]) simp
  show "\<exists>x. program_call c x \<and> tcp_call_exec x w = ap_SetDeviceID (tcp_app fmt clock zn) c d w" for c w d
    by (rule exI [of _ "ASetDeviceID c d"]) simp
  show "program_call c x" if "quiet_call x" for c and x :: "app_state tcp_call"
    using that by (cases x) simp_all
  show "dom (gm_get (tw_connections (ap_SetDeviceID (tcp_app fmt clock zn) c d w)))
      \<subseteq> insert d (dom (gm_get (tw_connections w)))" for c d and w :: "app_state tcp_world"
    using tcp_SetDeviceID_parts(4) by simp
qed (simp_all add: tcp_Send_parts tcp_SetDeviceID_parts, simp add: tcp_DeviceID_def)

lemma server_ok_mono:
  assumes "server_ok exec own plain srv" and "\<And>c x. own c x \<Longrightarrow> own' c x" and "\<And>x. plain x \<Longrightarrow> plain' x"
  shows "server_ok exec own' plain' srv"
  using assms(1) unfolding server_ok_def
  by (intro conjI ballI allI) (blast intro: by_calls_mono assms(2,3))+

lemma tcp_program_ok: "tcp_server_ok (app_server (tcp_app fmt clock zn))"
proof (rule server_ok_mono [OF tcp_program.app_server_ok])
  show "own_calls c x" if "program_call c x" for c and x :: "app_state tcp_call"
    using that by (cases x) simp_all
  show "no_claim x" if "quiet_call x" for x :: "app_state tcp_call"
    using that by (cases x) simp_all
qed

lemma hp_Send_parts:
  "hw_app (snd (hp_Send c m w)) = hw_app w" "hp_DeviceID c' (snd (hp_Send c m w)) = hp_DeviceID c' w"
  "length (hw_conns (snd (hp_Send c m w))) = length (hw_conns w)" "safe (fst (hp_Send c m w))"
  "hw_connPool (snd (hp_Send c m w)) = hw_connPool w"
  using safe_Encode [of m]
  by (auto simp: hp_Send_def hp_DeviceID_def net_Write_def hupd_def nth_update
      split: go.splits prod.splits option.splits)

lemma hp_SetDeviceID_app:
  "hw_app (hp_SetDeviceID c d w) = hw_app w" "length (hw_conns (hp_SetDeviceID c d w)) = length (hw_conns w)"
  "c < length (hw_conns w) \<Longrightarrow> hp_DeviceID c (hp_SetDeviceID c d w) = d"
  by (simp_all add: hp_SetDeviceID_def hp_DeviceID_def Let_def hupd_nth)

interpretation hp_program: application_calls "hp_app fmt clock zn"
    "\<lambda>c w. c < length (hw_conns w) \<and> pool_wf fnvHash (hw_connPool w)"
    "\<lambda>w. dom (pool_Get fnvHash (hw_connPool w))" hp_call_exec hp_own_calls hp_no_claim for fmt clock zn
proof unfold_locales
  show "\<exists>x. hp_no_claim x \<and> hp_call_exec x w = ap_upd (hp_app fmt clock zn) f w" for w f
    by (rule exI [of _ "HApp f"]) simp
  show "\<exists>x. hp_no_claim x \<and> hp_call_exec x w = snd (ap_Send (hp_app fmt clock zn) c m w)" for w c m
    by (rule exI [of _ "HSend c m"]) simp
  show "\<exists>x. hp_own_calls c x \<and> hp_call_exec x w = ap_SetDeviceID (hp_app fmt clock zn) c d w" for c w d
    by (rule exI [of _ "HSetDeviceID c d"]) simp
  show "hp_own_calls c x" if "hp_no_claim x" for c and x :: "app_state hp_call"
    using that by (cases x) simp_all
  fix c d and w :: "app_state hp_world"
  assume v: "c < length (hw_conns w) \<and> pool_wf fnvHash (hw_connPool w)"
  then have p: "hw_connPool (hp_SetDeviceID c d w) =
      claim_device (\<lambda>k. pool_Put fnvHash (\<lambda>_. k)) (pool_DeleteConn fnvHash) (hc_deviceID (hw_conns w ! c)) d c (hw_connPool w)"
    using hp_SetDeviceID_pool [of c w d] by simp
  show "c < length (hw_conns (ap_SetDeviceID (hp_app fmt clock zn) c d w)) \<and>
      pool_wf fnvHash (hw_connPool (ap_SetDeviceID (hp_app fmt clock zn) c d w))"
    using v by (simp add: hp_SetDeviceID_app p hp_pool_cad.invar_claim del: hp_SetDeviceID_parts)
  show "dom (pool_Get fnvHash (hw_connPool (ap_SetDeviceID (hp_app fmt clock zn) c d w)))
      \<subseteq> insert d (dom (pool_Get fnvHash (hw_connPool w)))"
    using v hp_pool_cad.lookup_claim [of "hw_connPool w"] by (auto simp: p split: if_splits)
qed (auto simp: hp_Send_parts hp_SetDeviceID_app, simp_all add: hp_DeviceID_def)

text \<open>So what \<open>HpProps\<close> proves of a server holds of \<^verbatim>\<open>cmd/highperf\<close>.\<close>

lemma cmd_highperf_ok: "hp_server_ok (cmd_highperf fmt clock zn)"
  unfolding cmd_highperf_def by (rule hp_program.app_server_ok)

interpretation hp_attrs: conn_attributes "\<lambda>c w. c < length (hw_conns w)" hp_ops
proof unfold_locales
qed (auto simp: hp_ops_def hp_conn_Get_def hp_conn_Set_def hp_DeviceID_def hupd_def gm_get_put nth_update)

section \<open>The program \<^verbatim>\<open>cmd/server\<close>\<close>

text \<open>
  The steps of the program are those of its server, without the calls an application could make from
  goroutines of its own: \<^verbatim>\<open>main\<close> makes none but \<^verbatim>\<open>GetStats\<close>, which changes nothing.
\<close>

inductive program_step ::
  "TcpConfig \<Rightarrow> app_state tcp_world server \<Rightarrow> app_state tcp_sys \<Rightarrow> app_state tcp_sys \<Rightarrow> bool"
  for cfg srv where
  "sys_crashed s = None \<Longrightarrow> \<not> tw_cancelled (sys_world s) \<Longrightarrow> \<not> at_limit cfg (sys_world s) \<Longrightarrow>
    \<not> nc_closed n \<Longrightarrow> program_step cfg srv s (accept_conn n s)"
| "sys_crashed s = None \<Longrightarrow> \<not> tw_cancelled (sys_world s) \<Longrightarrow>
    program_step cfg srv s (s\<lparr>sys_world := upd_stats (add_Error 1) (sys_world s)\<rparr>)"
| "sys_crashed s = None \<Longrightarrow> c < length (sys_phases s) \<Longrightarrow> sys_phases s ! c = Spawned \<Longrightarrow>
    program_step cfg srv s (goroutine_step c after_start (tcp_start srv c (sys_world s)) s)"
| "sys_crashed s = None \<Longrightarrow> c < length (sys_phases s) \<Longrightarrow> sys_phases s ! c = Reading \<Longrightarrow>
    program_step cfg srv s (goroutine_step c after_iter (tcp_iter cfg srv pick c (sys_world s)) s)"
| "sys_crashed s = None \<Longrightarrow> c < length (sys_phases s) \<Longrightarrow> sys_phases s ! c = Leaving \<Longrightarrow>
    program_step cfg srv s (goroutine_step c after_cleanup (tcp_cleanup srv c (sys_world s)) s)"
| "sys_crashed s = None \<Longrightarrow> program_step cfg srv s (s\<lparr>sys_world := tcp_Stop (sys_world s)\<rparr>)"
| "0 \<le> d \<Longrightarrow> program_step cfg srv s (s\<lparr>sys_world := (sys_world s)\<lparr>tw_now := tw_now (sys_world s) + d\<rparr>\<rparr>)"

inductive program_reachable ::
  "(go_value \<Rightarrow> gostring) \<Rightarrow> (app_state tcp_world \<Rightarrow> gostring) \<Rightarrow> zone \<Rightarrow> app_state tcp_sys \<Rightarrow> bool"
  for fmt clock zn where
  "program_reachable fmt clock zn (tcp_init now (new_app now))"
| "program_reachable fmt clock zn s \<Longrightarrow> program_step server_config (app_server (tcp_app fmt clock zn)) s s' \<Longrightarrow>
    program_reachable fmt clock zn s'"

lemma program_step_tcp: "program_step cfg srv s s' \<Longrightarrow> tcp_step cfg srv s s'"
  by (induction rule: program_step.induct) (blast intro: tcp_step.intros)+

lemma program_reachable_tcp:
  "program_reachable fmt clock zn s \<Longrightarrow> tcp_reachable server_config (app_server (tcp_app fmt clock zn)) s"
  by (induction rule: program_reachable.induct) (blast intro: tcp_reachable.intros program_step_tcp)+

subsection \<open>Its invariant\<close>

definition tallied :: "app_state tcp_world \<Rightarrow> bool" where
  "tallied w \<longleftrightarrow>
     m_activeConnections (app_metrics (tw_app w)) = s_ActiveConnections (tw_stats w) \<and>
     m_receivedMessages (app_metrics (tw_app w)) + m_messageErrors (app_metrics (tw_app w)) = s_ReceivedMessages (tw_stats w) \<and>
     dom (gm_get (tw_connections w)) \<subseteq> known_devices (app_storage (tw_app w))"

lemma calls_keep_counts:
  assumes "by_calls tcp_call_exec ok w w'"
  shows "s_ActiveConnections (tw_stats w') = s_ActiveConnections (tw_stats w)
    \<and> s_ReceivedMessages (tw_stats w') = s_ReceivedMessages (tw_stats w)
    \<and> length (tw_conns w') = length (tw_conns w)"
proof (rule by_calls_invariant [OF assms])
  have sent: "s_ReceivedMessages (add_Sent 1 st) = s_ReceivedMessages st" for st by (simp add: add_Sent_def)
  fix x and v :: "'a tcp_world"
  assume "s_ActiveConnections (tw_stats v) = s_ActiveConnections (tw_stats w)
    \<and> s_ReceivedMessages (tw_stats v) = s_ReceivedMessages (tw_stats w) \<and> length (tw_conns v) = length (tw_conns w)"
  then show "s_ActiveConnections (tw_stats (tcp_call_exec x v)) = s_ActiveConnections (tw_stats w)
    \<and> s_ReceivedMessages (tw_stats (tcp_call_exec x v)) = s_ReceivedMessages (tw_stats w)
    \<and> length (tw_conns (tcp_call_exec x v)) = length (tw_conns w)"
    by (cases x) (auto simp: tcp_Send_def tcp_Close_def tcp_Set_def tcp_SetDeviceID_def Let_def sent
        split: go.splits prod.splits)
qed simp

lemma readMessage_result:
  assumes "readMessage n r = (res, r')"
  shows "safe res \<and> (\<forall>m. res = Ok m \<longrightarrow> (\<exists>h. Header m = Some h))"
proof (cases "pending r")
  case Nil
  with assms show ?thesis by (cases r) auto
next
  case (Cons b bs)
  show ?thesis
  proof (cases "b = 0x7E")
    case True
    obtain c r2 where rc: "read_content (effective_max n) [] \<lparr>pending = bs, final_error = final_error r\<rparr> = (c, r2)"
      by fastforce
    have "int (length ([] :: byte list)) \<le> effective_max n"
      using effective_max_pos [of n] by simp
    from read_content_bounds [OF rc this] have "safe c" by auto
    moreover have "\<exists>h. Header m = Some h" if "Decode d = Ok m" for d m
      using Decode_header [OF that] by (auto simp: msg_id_def split: option.splits)
    ultimately show ?thesis
      using assms Cons True rc safe_Decode by (cases r) (auto simp: readMessage_def split: go.splits)
  qed (use assms Cons in \<open>cases r, auto simp: readMessage_def\<close>)
qed

lemma app_server_parts:
  "sv_middleware (app_server I) = []" "sv_OnError (app_server I) = []"
  "sv_OnConnect (app_server I) = [on_connected I]" "sv_OnDisconnect (app_server I) = [on_disconnected I]"
  by (simp_all add: app_server_def RegisterHandler_def OnConnect_def OnDisconnect_def new_server_def)

lemma tallied_dispatch:
  fixes w0 :: "app_state tcp_world"
  assumes "tallied w0" and "c < length (tw_conns w0)" and "Header m = Some h"
    and "w = upd_stats (add_Received 1) w0"
    and "srv = app_server (tcp_app fmt clock zn)"
  shows "\<exists>w'. tcp_dispatch srv pick c m w = (Continue, w') \<and> tallied w' \<and> length (tw_conns w') = length (tw_conns w)"
proof -
  note srv_def = assms(5)
  have "sv_handlers srv \<noteq> []" by (simp add: srv_def app_server_def RegisterHandler_def OnConnect_def
        OnDisconnect_def new_server_def gm_put_def)
  then obtain k where k: "route pick (sv_handlers srv) (MsgID h) = Some k"
    by (cases "gm_get (sv_handlers srv) (MsgID h)") (auto simp: route_def)
  then have mem: "k \<in> snd ` set (sv_handlers srv)" by (rule route_in)
  have c: "c < length (tw_conns w)" using assms(2,4) by simp
  obtain r w1 where r: "k Background c m w = (r, w1)" by fastforce
  have served: "tcp_program.served fmt clock zn c w (r, w1)"
    using tcp_program.handler_served [OF mem [unfolded srv_def] assms(3) c, of Background] r by simp
  have "by_calls tcp_call_exec (program_call c) w (snd (apply_middleware (sv_middleware srv) k Background c m w))"
    using tcp_program.app_server_ok [of fmt clock zn] mem unfolding server_ok_def srv_def by blast
  then have "by_calls tcp_call_exec (program_call c) w w1"
    by (simp add: srv_def app_server_parts apply_middleware_def r)
  note counts = calls_keep_counts [OF this]
  have t1: "tallied w1"
    using served counts assms(1,4) by (simp add: tcp_program.served_def tallied_def add_Received_def)
  have e: "tallied (upd_stats (add_Error 1) w1)"
    using t1 by (simp add: tallied_def add_Error_def)
  have parts: "sv_middleware srv = []" "sv_OnError srv = []"
    by (simp_all add: srv_def app_server_parts)
  from served t1 e counts show ?thesis
    by (cases r) (simp_all add: tcp_dispatch_def msg_id_def assms(3) k r parts
        apply_middleware_def report_error_def tcp_program.served_def)
qed

lemma tallied_iter:
  assumes "tallied w" and "c < length (tw_conns w)"
    and "tcp_iter cfg (app_server (tcp_app fmt clock zn)) pick c w = (out, w')"
  shows "tallied w' \<and> crash_of out = None \<and> length (tw_conns w') = length (tw_conns w)"
proof -
  obtain r rd where rd: "readMessage (MaxPacketSize cfg) (nc_reader (tc_net (tw_conns w ! c))) = (r, rd)"
    by fastforce
  let ?w1 = "upd_conn c (tc_net_update (nc_reader_update (\<lambda>_. rd))) w"
  have t: "tallied ?w1" "tallied (upd_stats (add_Error 1) ?w1)"
    using assms(1) by (simp_all add: tallied_def add_Error_def)
  note res = readMessage_result [OF rd]
  show ?thesis
  proof (cases r)
    case (Ok m)
    with res obtain h where "Header m = Some h" by auto
    from tallied_dispatch [OF t(1) _ this refl refl, of c fmt clock zn pick] assms Ok rd show ?thesis
      by (auto simp: tcp_iter_def split: if_splits)
  qed (use assms rd res t in \<open>auto simp: tcp_iter_def Let_def report_error_def app_server_parts split: if_splits\<close>)
qed

lemma tallied_start:
  assumes "tallied w" and "c < length (tw_conns w)"
    and "tcp_start (app_server (tcp_app fmt clock zn)) c w = (out, w')"
  shows "tallied w' \<and> out = Continue \<and> length (tw_conns w') = length (tw_conns w)"
proof -
  have "out = Continue" "w' = snd (on_connected (tcp_app fmt clock zn) c (upd_stats (add_Total 1) (upd_stats (add_Active 1)
      (upd_conn c (\<lambda>tc. NewTCPConnection (tc_net tc) (tw_now w)) (w\<lparr>tw_rawConns := gm_put c c (tw_rawConns w)\<rparr>)))))"
    using assms(3) by (auto simp: tcp_start_def app_server_parts on_connected_def Let_def)
  with assms(1) show ?thesis
    by (simp add: on_connected_def app_info_def app_log_def app_metric_def tallied_def tcp_app_def
        IncrActiveConnections_def add_Total_def add_Active_def)
qed

lemma tcp_Close_parts:
  "tw_app (snd (tcp_Close c w)) = tw_app w" "tw_stats (snd (tcp_Close c w)) = tw_stats w"
  "tw_connections (snd (tcp_Close c w)) = tw_connections w" "length (tw_conns (snd (tcp_Close c w))) = length (tw_conns w)"
  by (simp_all add: tcp_Close_def)

lemma dom_release: "dom (gm_get (release_device gm_cad d c m)) \<subseteq> dom (gm_get m)"
  by (auto simp: release_device_def gm_get_cad split: if_splits)

lemma tallied_cleanup:
  assumes "tallied w" and "tcp_cleanup (app_server (tcp_app fmt clock zn)) c w = (out, w')"
  shows "tallied w' \<and> out = Return \<and> length (tw_conns w') = length (tw_conns w)"
proof -
  define w1 where "w1 = snd (on_disconnected (tcp_app fmt clock zn) c w)"
  define w2 where "w2 = snd (tcp_Close c
    (w1\<lparr>tw_connections := release_device gm_cad (tcp_DeviceID c w1) c (tw_connections w1)\<rparr>))"
  have out: "out = Return" "w' = (upd_stats (add_Active (- 1)) w2)\<lparr>tw_rawConns := gm_delete c (tw_rawConns w2)\<rparr>"
    using assms(2) by (auto simp: tcp_cleanup_def app_server_parts on_disconnected_def Let_def w1_def w2_def)
  have "tw_connections w1 = tw_connections w" "tw_stats w1 = tw_stats w" "tw_conns w1 = tw_conns w"
    "app_storage (tw_app w1) = app_storage (tw_app w)"
    "app_metrics (tw_app w1) = DecrActiveConnections (app_metrics (tw_app w))"
    by (simp_all add: w1_def on_disconnected_def app_info_def app_log_def app_metric_def tcp_app_def)
  moreover have "dom (gm_get (tw_connections w2)) \<subseteq> dom (gm_get (tw_connections w1))"
    by (simp add: w2_def tcp_Close_parts dom_release)
  ultimately show ?thesis
    using assms(1) unfolding out
    by (simp add: tallied_def w2_def tcp_Close_parts DecrActiveConnections_def add_Active_def) blast
qed

lemma tallied_Stop: "tallied w \<Longrightarrow> tallied (tcp_Stop w) \<and> length (tw_conns (tcp_Stop w)) = length (tw_conns w)"
proof -
  have raw: "tallied v \<Longrightarrow> tallied (foldl (\<lambda>w e. upd_conn (snd e) f w) v es)" for f v and es :: "(nat \<times> nat) list"
    by (induction es arbitrary: v) (simp_all add: tallied_def)
  have reg: "tallied v \<Longrightarrow> tallied (foldl (\<lambda>w e. snd (tcp_Close (snd e) w)) v es) \<and>
      length (tw_conns (foldl (\<lambda>w e. snd (tcp_Close (snd e) w)) v es)) = length (tw_conns v)"
    for v and es :: "(gostring \<times> nat) list"
    by (induction es arbitrary: v) (simp_all add: tallied_def tcp_Close_parts)
  assume "tallied w"
  then have "tallied (w\<lparr>tw_cancelled := True\<rparr>)" by (simp add: tallied_def)
  from reg [OF raw [OF this]] show ?thesis
    by (simp add: tcp_Stop_def Let_def length_foldl_close)
qed

definition program_inv :: "app_state tcp_sys \<Rightarrow> bool" where
  "program_inv s \<longleftrightarrow> sys_crashed s = None \<and> tallied (sys_world s) \<and> length (sys_phases s) = length (tw_conns (sys_world s))"

lemma program_inv_goroutine:
  assumes "program_inv s" and "r = (out, w)" and "tallied w" and "crash_of out = None"
    and "length (tw_conns w) = length (tw_conns (sys_world s))"
  shows "program_inv (goroutine_step c next_phase r s)"
  using assms by (simp add: program_inv_def goroutine_step_def)

lemma program_inv_step:
  assumes "program_step cfg (app_server (tcp_app fmt clock zn)) s s'" and "program_inv s"
  shows "program_inv s'"
  using assms
proof (induction rule: program_step.induct)
  case (3 s c)
  obtain out w where r: "tcp_start (app_server (tcp_app fmt clock zn)) c (sys_world s) = (out, w)" by fastforce
  from 3 tallied_start [OF _ _ r] show ?case
    by (intro program_inv_goroutine [OF _ r]) (auto simp: program_inv_def)
next
  case (4 s c pick)
  obtain out w where r: "tcp_iter cfg (app_server (tcp_app fmt clock zn)) pick c (sys_world s) = (out, w)" by fastforce
  from 4 tallied_iter [OF _ _ r] show ?case
    by (intro program_inv_goroutine [OF _ r]) (auto simp: program_inv_def)
next
  case (5 s c)
  obtain out w where r: "tcp_cleanup (app_server (tcp_app fmt clock zn)) c (sys_world s) = (out, w)" by fastforce
  from 5 tallied_cleanup [OF _ r] show ?case
    by (intro program_inv_goroutine [OF _ r]) (auto simp: program_inv_def)
qed (simp_all add: program_inv_def accept_conn_def tallied_def add_Error_def,
    use tallied_Stop in \<open>auto simp: tallied_def\<close>)

lemma program_reachable_inv: "program_reachable fmt clock zn s \<Longrightarrow> program_inv s"
proof (induction rule: program_reachable.induct)
  case (1 now)
  show ?case
    by (simp add: program_inv_def tcp_init_def NewTCPServer_def tallied_def new_app_def NewMetrics_def new_stats_def
        dom_gm_get)
qed (rule program_inv_step)

section \<open>One terminal\<close>

lemma quiet_calls:
  assumes "by_calls tcp_call_exec quiet_call w w'"
  shows "tw_connections w' = tw_connections w \<and> tcp_DeviceID c w' = tcp_DeviceID c w \<and> incoming c bs w' = incoming c bs w"
proof (rule by_calls_invariant [OF assms])
  fix x :: "'a tcp_call" and v :: "'a tcp_world"
  assume x: "quiet_call x"
    and "tw_connections v = tw_connections w \<and> tcp_DeviceID c v = tcp_DeviceID c w \<and> incoming c bs v = incoming c bs w"
  moreover have "incoming c bs (snd (tcp_Send c' m v)) = incoming c bs v" for c' m
    by (auto simp: tcp_Send_def incoming_def net_Write_def upd_conn_def nth_update split: go.splits prod.splits option.splits)
  ultimately show "tw_connections (tcp_call_exec x v) = tw_connections w \<and> tcp_DeviceID c (tcp_call_exec x v) = tcp_DeviceID c w
      \<and> incoming c bs (tcp_call_exec x v) = incoming c bs w"
    by (cases x) (simp_all add: tcp_Send_parts, simp_all add: incoming_def tcp_DeviceID_def)
qed simp

text \<open>A message whose ID has a handler is handed to it, in a world where the frame has been read and
  counted; after that the connection's loop goes on unless the handler panics.\<close>

definition read_frame :: "nat \<Rightarrow> byte list \<Rightarrow> 'app tcp_world \<Rightarrow> 'app tcp_world" where
  "read_frame c bs w =
     upd_stats (add_Received 1) (upd_conn c (tc_net_update (nc_reader_update (\<lambda>_. \<lparr>pending = bs, final_error = IoEOF\<rparr>))) w)"

lemma read_frame_parts [simp]:
  "tw_app (read_frame c bs w) = tw_app w" "tw_connections (read_frame c bs w) = tw_connections w"
  "length (tw_conns (read_frame c bs w)) = length (tw_conns w)"
  "tcp_DeviceID c' (read_frame c bs w) = tcp_DeviceID c' w"
  by (auto simp: read_frame_def tcp_DeviceID_def upd_conn_def nth_update)

lemma incoming_read_frame: "incoming c as w \<Longrightarrow> incoming c bs (read_frame c bs w)"
  by (simp add: incoming_def read_frame_def upd_conn_nth)

text \<open>After an error of the handler the error is counted; nothing else of the world changes.\<close>

definition settle :: "unit res \<times> 'app tcp_world \<Rightarrow> 'app tcp_world" where
  "settle r = (case r of (Ok _, w) \<Rightarrow> w | (_, w) \<Rightarrow> upd_stats (add_Error 1) w)"

lemma settle_parts [simp]:
  "tw_app (settle r) = tw_app (snd r)" "tw_connections (settle r) = tw_connections (snd r)"
  "tw_conns (settle r) = tw_conns (snd r)" "tw_cancelled (settle r) = tw_cancelled (snd r)"
  "incoming c bs (settle r) = incoming c bs (snd r)" "tcp_DeviceID c (settle r) = tcp_DeviceID c (snd r)"
  "tcp_GetConnection d (settle r) = tcp_GetConnection d (snd r)"
  by (auto simp: settle_def incoming_def tcp_DeviceID_def tcp_GetConnection_def split: prod.splits go.splits)

lemma program_message:
  assumes "incoming c (f @ bs) w" and "snd (Encode m0) = Ok f" and "Decode f = Ok m" and "Header m = Some h"
    and "MaxPacketSize cfg \<le> 0 \<or> 2092 \<le> MaxPacketSize cfg"
    and "gm_get (sv_handlers (app_server (tcp_app fmt clock zn))) (MsgID h) = Some k"
  shows "tcp_iter cfg (app_server (tcp_app fmt clock zn)) pick c w =
    (Continue, settle (k Background c m (read_frame c bs w)))"
proof -
  have "Encode m0 = (fst (Encode m0), Ok f)" using assms(2) by (metis prod.collapse)
  from readMessage_encoded_eq [OF this assms(5), of bs IoEOF] assms(1,3)
  have read: "readMessage (MaxPacketSize cfg) (nc_reader (tc_net (tw_conns w ! c))) = (Ok m, \<lparr>pending = bs, final_error = IoEOF\<rparr>)"
    by (simp add: incoming_def)
  have "(MsgID h, k) \<in> set (sv_handlers (app_server (tcp_app fmt clock zn)))"
    using assms(6) unfolding gm_get_def by (rule map_of_SomeD)
  then have mem: "k \<in> snd ` set (sv_handlers (app_server (tcp_app fmt clock zn)))" by force
  obtain r w1 where r: "k Background c m (read_frame c bs w) = (r, w1)" by fastforce
  have "c < length (tw_conns (read_frame c bs w))" using assms(1) by (simp add: incoming_def)
  then have "safe r"
    using tcp_program.handler_served [OF mem assms(4), of c "read_frame c bs w" Background] r
    by (simp add: tcp_program.served_def)
  then show ?thesis
    using assms(1,4,6) read r [unfolded read_frame_def]
    by (cases r) (simp_all add: tcp_iter_def incoming_def tcp_dispatch_def msg_id_def route_def settle_def
        app_server_parts apply_middleware_def report_error_def read_frame_def)
qed

lemma program_location:
  assumes "incoming c (f @ bs) w" and "snd (Encode m0) = Ok f" and "Decode f = Ok m"
    and "MaxPacketSize cfg \<le> 0 \<or> 2092 \<le> MaxPacketSize cfg"
    and "msg_id m = Ok MsgIDLocationReport" and "ParseLocationReport zn (Body m) = Ok report"
    and "tcp_DeviceID c w = d" and "d \<noteq> []"
  shows "\<exists>w1. tcp_iter cfg (app_server (tcp_app fmt clock zn)) pick c w = (Continue, w1) \<and> incoming c bs w1
    \<and> app_storage (tw_app w1) = (app_storage (tw_app w))\<lparr>locations := append_capped d report (locations (app_storage (tw_app w)))\<rparr>
    \<and> tcp_DeviceID c w1 = d \<and> tw_connections w1 = tw_connections w"
proof -
  let ?I = "tcp_app fmt clock zn" and ?v = "read_frame c bs w"
  from assms(5) obtain h where h: "Header m = Some h" "MsgID h = MsgIDLocationReport"
    by (auto simp: msg_id_def split: option.splits)
  have "gm_get (sv_handlers (app_server ?I)) (MsgID h) = Some (on_location ?I)"
    by (simp add: tcp_program.server_handlers h)
  note iter = program_message [OF assms(1-3) h(1) assms(4) this, of pick]
  let ?w1 = "snd (on_location ?I Background c m ?v)"
  have "by_calls tcp_call_exec quiet_call ?v ?w1" by (rule tcp_program.calls_on_location)
  note quiet = quiet_calls [OF this, of c bs]
  obtain r where "on_location ?I Background c m ?v = (r, ?w1)" by (metis prod.collapse)
  from tcp_program.on_location_storage [OF this] iter quiet assms(6-8) incoming_read_frame [OF assms(1), of bs]
  show ?thesis by simp
qed

text \<open>What a frame is for the program: an encoded message that it can parse as a registration, a location.\<close>

definition register_frame :: "byte list \<Rightarrow> TerminalRegister \<Rightarrow> bool" where
  "register_frame f reg \<longleftrightarrow> (\<exists>m0 m. snd (Encode m0) = Ok f \<and> Decode f = Ok m \<and> msg_id m = Ok MsgIDTerminalRegister
     \<and> ParseTerminalRegister (Body m) = Ok reg)"

definition location_frame :: "zone \<Rightarrow> byte list \<Rightarrow> LocationReport \<Rightarrow> bool" where
  "location_frame zn f report \<longleftrightarrow> (\<exists>m0 m. snd (Encode m0) = Ok f \<and> Decode f = Ok m \<and> msg_id m = Ok MsgIDLocationReport
     \<and> ParseLocationReport zn (Body m) = Ok report)"

lemma program_locations:
  assumes "list_all2 (location_frame zn) fs reports"
    and "incoming c (concat fs) w" and "MaxPacketSize cfg \<le> 0 \<or> 2092 \<le> MaxPacketSize cfg"
    and "tcp_DeviceID c w = d" and "d \<noteq> []"
  shows "\<exists>w'. tcp_loop cfg (app_server (tcp_app fmt clock zn)) pick c (Suc (length fs)) w = (Return, w')
    \<and> app_storage (tw_app w') = (app_storage (tw_app w))\<lparr>locations :=
        fold (append_capped d) reports (locations (app_storage (tw_app w)))\<rparr>
    \<and> tw_connections w' = tw_connections w"
  using assms(1,2,4)
proof (induction fs reports arbitrary: w rule: list_all2_induct)
  case Nil
  then show ?case by (simp add: tcp_iter_def incoming_def)
next
  case (Cons f fs report reports)
  then obtain m0 m where f: "snd (Encode m0) = Ok f" "Decode f = Ok m"
    "msg_id m = Ok MsgIDLocationReport" "ParseLocationReport zn (Body m) = Ok report"
    by (auto simp: location_frame_def)
  have "incoming c (f @ concat fs) w" using Cons.prems by simp
  from program_location [OF this f(1,2) assms(3) f(3,4) Cons.prems(2) assms(5), of fmt clock pick]
  obtain w1 where w1: "tcp_iter cfg (app_server (tcp_app fmt clock zn)) pick c w = (Continue, w1)"
    "incoming c (concat fs) w1" "tcp_DeviceID c w1 = d" "tw_connections w1 = tw_connections w"
    "app_storage (tw_app w1) = (app_storage (tw_app w))\<lparr>locations := append_capped d report (locations (app_storage (tw_app w)))\<rparr>"
    by auto
  from Cons.IH [OF w1(2,3)] w1 show ?case by auto
qed

lemma program_register:
  assumes "incoming c (f @ bs) w" and "snd (Encode m0) = Ok f" and "Decode f = Ok m"
    and "MaxPacketSize cfg \<le> 0 \<or> 2092 \<le> MaxPacketSize cfg"
    and "msg_id m = Ok MsgIDTerminalRegister" and "ParseTerminalRegister (Body m) = Ok reg"
    and "TerminalID reg \<noteq> []"
  shows "\<exists>w1. tcp_iter cfg (app_server (tcp_app fmt clock zn)) pick c w = (Continue, w1) \<and> incoming c bs w1
    \<and> GetDevice (TerminalID reg) (app_storage (tw_app w1)) = Ok reg
    \<and> locations (app_storage (tw_app w1)) = locations (app_storage (tw_app w))
    \<and> tcp_DeviceID c w1 = TerminalID reg \<and> tcp_GetConnection (TerminalID reg) w1 = Ok c"
proof -
  let ?I = "tcp_app fmt clock zn" and ?v = "read_frame c bs w"
  let ?u = "tcp_SetDeviceID c (TerminalID reg) ?v"
  from assms(5) obtain h where h: "Header m = Some h" "MsgID h = MsgIDTerminalRegister"
    by (auto simp: msg_id_def split: option.splits)
  have "gm_get (sv_handlers (app_server ?I)) (MsgID h) = Some (on_register ?I)"
    by (simp add: tcp_program.server_handlers h proto_consts)
  note iter = program_message [OF assms(1-3) h(1) assms(4) this, of pick]
  let ?w1 = "snd (on_register ?I Background c m ?v)"
  have "by_calls tcp_call_exec quiet_call ?u ?w1"
    using tcp_program.calls_after_registration [OF assms(6), where fmt = fmt and clock = clock and zn = zn] by simp
  note quiet = quiet_calls [OF this, of c bs]
  have c: "c < length (tw_conns ?v)" using assms(1) by (simp add: incoming_def)
  have "incoming c bs ?u"
    using incoming_read_frame [OF assms(1), of bs] c
    by (simp add: incoming_def tcp_SetDeviceID_def Let_def upd_conn_nth)
  moreover have "gm_get (tw_connections ?u) (TerminalID reg) = Some c"
    using assms(7) by (simp add: tcp_SetDeviceID_def Let_def claim_device_def gm_get_put)
  moreover obtain r where r: "on_register ?I Background c m ?v = (r, ?w1)" by (metis prod.collapse)
  ultimately show ?thesis
    using tcp_program.on_register_storage [OF r c assms(6)] iter quiet by (simp add: tcp_GetConnection_def)
qed

lemma gm_list_fold_capped:
  "length (gm_list m d) \<le> 1000 \<Longrightarrow> gm_list (fold (append_capped d) xs m) d = lastn 1000 (gm_list m d @ xs)"
proof (induction xs arbitrary: m)
  case Nil
  then show ?case by (simp add: lastn_def)
next
  case (Cons x xs)
  from Cons.IH [of "append_capped d x m"] show ?case
    by (simp add: gm_list_capped lastn_append_lastn)
qed

subsection \<open>Replies\<close>

definition writable :: "nat \<Rightarrow> 'app tcp_world \<Rightarrow> bool" where
  "writable c w \<longleftrightarrow> tcp_IsConnected c w \<and> \<not> nc_closed (tc_net (tw_conns w ! c)) \<and> nc_write_error (tc_net (tw_conns w ! c)) = None"

definition written :: "nat \<Rightarrow> 'app tcp_world \<Rightarrow> byte list list" where
  "written c w = nc_out (tc_net (tw_conns w ! c))"

text \<open>The frame \<open>g\<close> carries the reply \<open>mid\<close> with the given body to the sender of a message with header \<open>h\<close>:
  the header is of the legacy form, and carries the first twelve digits of the sender's number.\<close>

definition reply_to :: "uint16 \<Rightarrow> byte list \<Rightarrow> MessageHeader \<Rightarrow> byte list \<Rightarrow> bool" where
  "reply_to mid body h g \<longleftrightarrow> (\<exists>h'. Decode g = Ok \<lparr>Header = Some h', Body = body, Raw = g\<rparr> \<and> MsgID h' = mid
     \<and> MsgFlowNo h' = MsgFlowNo h \<and> ProtocolVersion h' = 0
     \<and> PhoneNo h' = take 12 (PhoneNo h @ replicate (12 - length (PhoneNo h)) 0x30))"

lemma reply_sent:
  assumes "c < length (tw_conns w)" and "writable c w" and "length body \<le> 1023" and "list_all is_digit (PhoneNo h)"
  shows "\<exists>g. tcp_Send c (Some (reply mid h body)) w = (Ok (), snd (tcp_Send c (Some (reply mid h body)) w))
    \<and> written c (snd (tcp_Send c (Some (reply mid h body)) w)) = written c w @ [g] \<and> reply_to mid body h g"
proof -
  let ?m = "reply mid h body"
  obtain h0 where h0: "Header ?m = Some h0" "Body ?m = body" "MsgID h0 = mid" "MsgFlowNo h0 = MsgFlowNo h"
    "ProtocolVersion h0 = 0" "PhoneNo h0 = PhoneNo h"
    by (simp add: reply_def)
  let ?g = "frame (encodeHeader (updateBodyProperty h0 (length body)) @ body)"
  have "snd (Encode (Some ?m)) = Ok ?g"
    using Encode_Ok [OF h0(1)] h0(2) assms(3) by simp
  moreover have "reply_to mid body h ?g"
    using Decode_frame_encoded [OF refl assms(3), of h0] h0 decode_encodeBCD [OF assms(4), of 6]
    by (simp add: reply_to_def wire_header_def phone_len_def)
  ultimately show ?thesis
    using assms(1,2) by (intro exI [of _ ?g])
      (simp add: tcp_Send_def tcp_IsConnected_def writable_def written_def net_Write_def upd_conn_nth)
qed

lemma Decode_phone: "Decode f = Ok m \<Longrightarrow> Header m = Some h \<Longrightarrow> list_all is_digit (PhoneNo h)"
  by (auto simp: Decode_eq decode_payload_def decodeHeader_def go_simps Let_def decodeBCD_digits split: if_splits)

lemma program_conns [simp]:
  "tw_conns (app_metric (tcp_app fmt clock zn) g w) = tw_conns w" "tw_conns (app_store (tcp_app fmt clock zn) s w) = tw_conns w"
  "tw_conns (app_info (tcp_app fmt clock zn) t fs w) = tw_conns w"
  by (simp_all add: app_metric_def app_store_def app_info_def app_log_def tcp_app_def)

lemma writable_cong: "tw_conns w' = tw_conns w \<Longrightarrow> writable c w' = writable c w"
  by (simp add: writable_def tcp_IsConnected_def)

lemma written_cong: "tw_conns w' = tw_conns w \<Longrightarrow> written c w' = written c w"
  by (simp add: written_def)

lemma read_frame_writable:
  "c < length (tw_conns w) \<Longrightarrow> writable c (read_frame c bs w) = writable c w"
  "c < length (tw_conns w) \<Longrightarrow> written c (read_frame c bs w) = written c w"
  by (simp_all add: writable_def written_def tcp_IsConnected_def read_frame_def upd_conn_nth)

section \<open>Properties\<close>

text \<open>C2. In every reachable state of \<^verbatim>\<open>cmd/server\<close>, whatever the terminals send and however connections,
  goroutines and \<^verbatim>\<open>Stop\<close> interleave: no panic has ended the process; the metrics agree with the server's
  own counters, every message read being counted as received or as an error and never as both; the
  count of active connections is the number of connections being served; and every device that
  \<^verbatim>\<open>GetConnection\<close> finds has its registration in the storage, and its connection is being served.\<close>

theorem cmd_server_invariant:
  assumes "program_reachable fmt clock zn s"
  shows "sys_crashed s = None
    \<and> m_receivedMessages (app_metrics (tw_app (sys_world s))) + m_messageErrors (app_metrics (tw_app (sys_world s)))
        = s_ReceivedMessages (tw_stats (sys_world s))
    \<and> m_activeConnections (app_metrics (tw_app (sys_world s))) = of_nat (length (filter live (sys_phases s)))
    \<and> (\<forall>d c. tcp_GetConnection d (sys_world s) = Ok c \<longrightarrow>
        live (sys_phases s ! c) \<and> (\<exists>reg. GetDevice d (app_storage (tw_app (sys_world s))) = Ok reg))"
proof -
  note inv = program_reachable_inv [OF assms]
  note tcp = tcp_reachable_inv [OF program_reachable_tcp [OF assms] tcp_program_ok]
  have "live (sys_phases s ! c) \<and> (\<exists>reg. GetDevice d (app_storage (tw_app (sys_world s))) = Ok reg)"
    if "tcp_GetConnection d (sys_world s) = Ok c" for d c
  proof -
    have g: "gm_get (tw_connections (sys_world s)) d = Some c"
      using that by (simp add: tcp_GetConnection_def split: option.splits)
    then have "live (sys_phases s ! c)" using tcp by (simp add: tcp_inv_def registry_ok_def)
    moreover have "d \<in> known_devices (app_storage (tw_app (sys_world s)))"
      using g inv by (auto simp: program_inv_def tallied_def)
    ultimately show ?thesis by (auto simp: known_devices_def GetDevice_def)
  qed
  with inv tcp show ?thesis
    by (simp add: program_inv_def tallied_def tcp_inv_def counts_ok_def)
qed

theorem cmd_server_invariant_witness:
  "\<exists>s. program_reachable (\<lambda>v. []) (\<lambda>w. []) (fixed_zone 28800) s \<and> sys_phases s = [Reading]
     \<and> m_activeConnections (app_metrics (tw_app (sys_world s))) = 1"
proof -
  let ?srv = "app_server (tcp_app (\<lambda>v. []) (\<lambda>w. []) (fixed_zone 28800))"
  let ?s0 = "tcp_init 0 (new_app 0) :: app_state tcp_sys"
  let ?s1 = "accept_conn sample_net ?s0"
  let ?s2 = "goroutine_step 0 after_start (tcp_start ?srv 0 (sys_world ?s1)) ?s1"
  have s1: "sys_crashed ?s1 = None" "sys_phases ?s1 = [Spawned]" "tallied (sys_world ?s1)"
    "length (tw_conns (sys_world ?s1)) = 1"
    by (simp_all add: tcp_init_def accept_conn_def NewTCPServer_def tallied_def new_app_def NewMetrics_def
        new_stats_def dom_gm_get)
  have "program_step server_config ?srv ?s0 ?s1"
    by (rule program_step.intros(1)) (simp_all add: tcp_init_def NewTCPServer_def at_limit_def new_stats_def
        server_config_def DefaultConfig_def sample_net_def)
  moreover have "program_step server_config ?srv ?s1 ?s2"
    by (rule program_step.intros(3)) (simp_all add: s1)
  ultimately have r: "program_reachable (\<lambda>v. []) (\<lambda>w. []) (fixed_zone 28800) ?s2"
    by (blast intro: program_reachable.intros)
  obtain out w where st: "tcp_start ?srv 0 (sys_world ?s1) = (out, w)" by fastforce
  have "out = Continue" using tallied_start [OF s1(3) _ st] s1(4) by simp
  then have "sys_phases ?s2 = [Reading]" by (simp add: st goroutine_step_def s1)
  with cmd_server_invariant [OF r] r show ?thesis
    by (intro exI [of _ ?s2]) simp
qed

text \<open>C1. A terminal's session with \<^verbatim>\<open>cmd/server\<close>: it connects, sends its registration and then location
  reports, and ends the stream. The loop of its connection handles them all and returns; from the
  registration on \<^verbatim>\<open>GetConnection\<close> finds the connection under the terminal ID, the storage has the
  registration, and a query returns those of the last 1000 reports (what it had before and what the
  session sent, in order) whose time is in the interval. Whether the replies can be written plays no part.\<close>

theorem terminal_session:
  assumes "register_frame f reg" and "TerminalID reg \<noteq> []" and "list_all2 (location_frame zn) fs reports"
    and "incoming c (f @ concat fs) w" and "storage_wf (app_storage (tw_app w))"
    and "MaxPacketSize cfg \<le> 0 \<or> 2092 \<le> MaxPacketSize cfg"
  shows "\<exists>w'. tcp_loop cfg (cmd_server fmt clock zn) pick c (Suc (Suc (length fs))) w = (Return, w')
    \<and> tcp_GetConnection (TerminalID reg) w' = Ok c
    \<and> GetDevice (TerminalID reg) (app_storage (tw_app w')) = Ok reg
    \<and> GetLocations (TerminalID reg) start fin (app_storage (tw_app w')) =
        Ok (filter (\<lambda>l. start \<le> LR_Time l \<and> LR_Time l \<le> fin)
             (lastn 1000 (gm_list (locations (app_storage (tw_app w))) (TerminalID reg) @ reports)))"
proof -
  let ?d = "TerminalID reg" and ?ls = "locations (app_storage (tw_app w))"
  from assms(1) obtain m0 m where m: "snd (Encode m0) = Ok f" "Decode f = Ok m"
    "msg_id m = Ok MsgIDTerminalRegister" "ParseTerminalRegister (Body m) = Ok reg"
    by (auto simp: register_frame_def)
  from program_register [OF assms(4) m(1,2) assms(6) m(3,4) assms(2), of fmt clock zn pick] obtain w1 where w1:
    "tcp_iter cfg (app_server (tcp_app fmt clock zn)) pick c w = (Continue, w1)" "incoming c (concat fs) w1"
    "GetDevice ?d (app_storage (tw_app w1)) = Ok reg" "locations (app_storage (tw_app w1)) = ?ls"
    "tcp_DeviceID c w1 = ?d" "tcp_GetConnection ?d w1 = Ok c"
    by auto
  from program_locations [OF assms(3) w1(2) assms(6) w1(5) assms(2), of fmt clock pick] obtain w' where w':
    "tcp_loop cfg (app_server (tcp_app fmt clock zn)) pick c (Suc (length fs)) w1 = (Return, w')"
    "app_storage (tw_app w') = (app_storage (tw_app w1))\<lparr>locations := fold (append_capped ?d) reports ?ls\<rparr>"
    "tw_connections w' = tw_connections w1"
    using w1(4) by auto
  have "length (gm_list ?ls ?d) \<le> 1000"
    using assms(5) by (simp add: storage_wf_def capped_def)
  note ls = gm_list_fold_capped [OF this, of reports]
  have "GetLocations ?d start fin (app_storage (tw_app w')) =
      Ok (filter (\<lambda>l. start \<le> LR_Time l \<and> LR_Time l \<le> fin) (gm_list (fold (append_capped ?d) reports ?ls) ?d))"
    unfolding w'(2) by (simp add: GetLocations_def gm_list_def not_less split: option.splits)
  with w1 w' show ?thesis
    unfolding ls cmd_server_def by (simp add: GetDevice_def tcp_GetConnection_def del: tcp_loop.simps)
      (simp add: w1(1))
qed

lemma sample_location_frame:
  assumes "28 \<le> length (body :: byte list)" and "length body \<le> 1023"
  shows "\<exists>f r. location_frame zn f r"
proof -
  obtain m0 f m where "snd (Encode m0) = Ok f" "Decode f = Ok m" "msg_id m = Ok MsgIDLocationReport" "Body m = body"
    using sample_encoded [OF assms(2)] by blast
  moreover obtain r where "ParseLocationReport zn body = Ok r"
    using body_parsers_total [of zn body] assms(1) by (cases "ParseLocationReport zn body") auto
  ultimately show ?thesis unfolding location_frame_def by blast
qed

theorem terminal_session_witness:
  "\<exists>f l report w' (w :: app_state tcp_world). location_frame (fixed_zone 28800) l report \<and>
     tcp_loop DefaultConfig (cmd_server (\<lambda>v. []) (\<lambda>w. []) (fixed_zone 28800)) 0 0 3 w = (Return, w')
     \<and> tcp_GetConnection (go_str ''T0001'') w' = Ok 0
     \<and> GetLocations (go_str ''T0001'') (LR_Time report) (LR_Time report) (app_storage (tw_app w')) = Ok [report]"
proof -
  have p: "ParseTerminalRegister (register_body sample_register) = Ok sample_register" by code_simp
  have "length (register_body sample_register) \<le> 1023" by code_simp
  from sample_encoded [OF this, of MsgIDTerminalRegister] p obtain f where f: "register_frame f sample_register"
    unfolding register_frame_def by metis
  obtain l report where l: "location_frame (fixed_zone 28800) l report"
    using sample_location_frame [of "replicate 28 0 :: byte list"] by fastforce
  let ?w = "NewTCPServer 0 (new_app 0)\<lparr>tw_conns := [NewTCPConnection
     (sample_net\<lparr>nc_reader := \<lparr>pending = f @ concat [l], final_error = IoEOF\<rparr>\<rparr>) 0]\<rparr>"
  have n: "TerminalID sample_register \<noteq> []" "TerminalID sample_register = go_str ''T0001''"
    by (simp_all add: sample_register_def go_str_def)
  have ls: "list_all2 (location_frame (fixed_zone 28800)) [l] [report]" using l by simp
  have i: "incoming 0 (f @ concat [l]) ?w" by (simp add: incoming_def NewTCPServer_def NewTCPConnection_def)
  have wf: "storage_wf (app_storage (tw_app ?w))"
    by (simp add: NewTCPServer_def new_app_def storage_wf_new)
  have empty: "gm_list (locations (app_storage (tw_app ?w))) d = []" for d
    by (simp add: NewTCPServer_def new_app_def NewMemoryStorage_def gm_list_def)
  have mx: "MaxPacketSize DefaultConfig \<le> 0 \<or> 2092 \<le> MaxPacketSize DefaultConfig" by (simp add: DefaultConfig_def)
  from terminal_session [OF f n(1) ls i wf mx, of "\<lambda>v. []" "\<lambda>w. []" 0 "LR_Time report" "LR_Time report"]
  obtain w' where w': "tcp_loop DefaultConfig (cmd_server (\<lambda>v. []) (\<lambda>w. []) (fixed_zone 28800)) 0 0 3 ?w = (Return, w')"
    "tcp_GetConnection (go_str ''T0001'') w' = Ok 0"
    "GetLocations (go_str ''T0001'') (LR_Time report) (LR_Time report) (app_storage (tw_app w')) = Ok [report]"
    unfolding empty n(2) by (auto simp: lastn_def eval_nat_numeral simp del: tcp_loop.simps)
  show ?thesis using l w' by blast
qed

text \<open>C29. A heartbeat on a connection that can be written to is acknowledged at once: exactly one frame is
  written, the common response to the heartbeat's ID and flow number with result 0, and the storage is
  not touched. The response has a header of the legacy form, whoever asked: a terminal of the 2019
  version, whose number has 20 digits, is answered under the first 12 of them.\<close>

theorem heartbeat_acknowledged:
  assumes "incoming c (f @ bs) w" and "snd (Encode m0) = Ok f" and "Decode f = Ok m" and "Header m = Some h"
    and "MsgID h = MsgIDTerminalHeartbeat" and "writable c w" and "MaxPacketSize cfg \<le> 0 \<or> 2092 \<le> MaxPacketSize cfg"
  shows "\<exists>w' g. tcp_iter cfg (cmd_server fmt clock zn) pick c w = (Continue, w')
    \<and> written c w' = written c w @ [g]
    \<and> reply_to MsgIDPlatformCommonResponse (put_u16 (MsgFlowNo h) @ put_u16 MsgIDTerminalHeartbeat @ [0]) h g
    \<and> app_storage (tw_app w') = app_storage (tw_app w)"
proof -
  let ?I = "tcp_app fmt clock zn" and ?v = "read_frame c bs w"
  let ?body = "put_u16 (MsgFlowNo h) @ put_u16 MsgIDTerminalHeartbeat @ [0]"
  have "gm_get (sv_handlers (app_server ?I)) (MsgID h) = Some (on_heartbeat ?I)"
    by (simp add: tcp_program.server_handlers assms(5) proto_consts)
  note iter = program_message [OF assms(1-4,7) this, of pick]
  define u where "u = app_info ?I ''Heartbeat received'' [log_field ''deviceID''
    (VString (tcp_DeviceID c (app_metric ?I IncrReceivedMessages ?v)))] (app_metric ?I IncrReceivedMessages ?v)"
  have u: "tw_conns u = tw_conns ?v" "app_storage (tw_app u) = app_storage (tw_app w)"
    using tcp_program.state_app by (simp_all add: u_def)
  have h: "on_heartbeat ?I Background c m ?v = tcp_Send c (Some (reply MsgIDPlatformCommonResponse h ?body)) u"
    by (simp add: on_heartbeat_def Let_def with_header_def assms(4,5) buildCommonResponse_def u_def)
  have c: "c < length (tw_conns w)" using assms(1) by (simp add: incoming_def)
  have "length ?body \<le> 1023" by simp
  then obtain g where g: "tcp_Send c (Some (reply MsgIDPlatformCommonResponse h ?body)) u =
      (Ok (), snd (tcp_Send c (Some (reply MsgIDPlatformCommonResponse h ?body)) u))"
    "written c (snd (tcp_Send c (Some (reply MsgIDPlatformCommonResponse h ?body)) u)) = written c u @ [g]"
    "reply_to MsgIDPlatformCommonResponse ?body h g"
    using reply_sent [of c u ?body h MsgIDPlatformCommonResponse] Decode_phone [OF assms(3,4)] assms(6) c
    by (auto simp: u(1) writable_cong [OF u(1)] read_frame_writable)
  have "settle (tcp_Send c (Some (reply MsgIDPlatformCommonResponse h ?body)) u) =
      snd (tcp_Send c (Some (reply MsgIDPlatformCommonResponse h ?body)) u)"
    by (subst g(1)) (simp add: settle_def)
  with iter g h u(2) show ?thesis
    unfolding cmd_server_def by (simp add: written_cong [OF u(1)] read_frame_writable c tcp_Send_parts)
qed

text \<open>A location report from a terminal that has not registered on its connection is refused by both
  programs, even when it can be parsed: the handler returns the error of the storage, the stored
  locations and all connections stay as they were, and nothing is sent.\<close>

theorem unregistered_location_refused:
  assumes "ParseLocationReport zn (Body m) = Ok report" and "tcp_DeviceID c w = []" and "hp_DeviceID c v = []"
  shows "\<exists>w' v'. on_location (tcp_app fmt clock zn) ctx c m w = (Err DeviceIDNotInContext, w')
    \<and> on_location (hp_app fmt clock' zn) ctx c m v = (Err DeviceIDNotInContext, v')
    \<and> app_storage (tw_app w') = app_storage (tw_app w) \<and> tw_conns w' = tw_conns w \<and> tw_connections w' = tw_connections w
    \<and> app_storage (hw_app v') = app_storage (hw_app v) \<and> hw_conns v' = hw_conns v \<and> hw_connPool v' = hw_connPool v"
  using tcp_program.on_location_unregistered [where fmt = fmt and clock = clock and zn = zn, of m report c w ctx]
    hp_program.on_location_unregistered [where fmt = fmt and clock = clock' and zn = zn, of m report c v ctx] assms
  by (simp add: app_failed_def app_store_def app_metric_def app_log_def tcp_app_def hp_app_def)

theorem unregistered_location_refused_witness:
  "\<exists>body w' (w :: app_state tcp_world).
     on_location (tcp_app (\<lambda>v. []) (\<lambda>w. []) (fixed_zone 28800)) Background 0 (sample_message_of MsgIDLocationReport body) w
       = (Err DeviceIDNotInContext, w') \<and> locations (app_storage (tw_app w')) = [] \<and> length (tw_conns w) = 1"
proof -
  let ?w = "NewTCPServer 0 (new_app 0)\<lparr>tw_conns := [NewTCPConnection sample_net 0]\<rparr>"
  let ?v = "NewHighPerfTCPServer (DefaultHighPerfConfig 1) 0 (new_app 0)\<lparr>hw_conns := [NewHighPerfTCPConnection sample_net 0]\<rparr>"
  let ?m = "sample_message_of MsgIDLocationReport (replicate 28 0)"
  obtain report where r: "ParseLocationReport (fixed_zone 28800) (Body ?m) = Ok report"
    using body_parsers_total [of "fixed_zone 28800" "Body ?m"]
    by (cases "ParseLocationReport (fixed_zone 28800) (Body ?m)") (auto simp: sample_message_of_def)
  have d: "tcp_DeviceID 0 ?w = []" "hp_DeviceID 0 ?v = []"
    by (simp_all add: tcp_DeviceID_def NewTCPConnection_def hp_DeviceID_def NewHighPerfTCPConnection_def)
  from unregistered_location_refused [OF r d, of "\<lambda>v. []" "\<lambda>w. []" Background "\<lambda>w. []"]
  obtain w' where "on_location (tcp_app (\<lambda>v. []) (\<lambda>w. []) (fixed_zone 28800)) Background 0 ?m ?w = (Err DeviceIDNotInContext, w')"
    "app_storage (tw_app w') = app_storage (tw_app ?w)" by blast
  moreover have "locations (app_storage (tw_app ?w)) = []" "length (tw_conns ?w) = 1"
    by (simp_all add: NewTCPServer_def new_app_def NewMemoryStorage_def)
  ultimately show ?thesis by metis
qed

definition header_2019 :: MessageHeader where
  "header_2019 = \<lparr>MsgID = MsgIDTerminalHeartbeat, MsgBodyProperty = 0, ProtocolVersion = 1,
     PhoneNo = go_str ''00000000013912345678'', MsgFlowNo = 9, MsgBodyLength = 0, SubPackage = False, Encryption = 0\<rparr>"

theorem heartbeat_acknowledged_witness:
  "\<exists>w w' g m h. tcp_iter DefaultConfig (cmd_server (\<lambda>v. []) (\<lambda>w. []) (fixed_zone 28800)) 0 0 w = (Continue, w')
     \<and> written 0 w = [] \<and> written 0 w' = [g] \<and> Decode g = Ok m \<and> Header m = Some h
     \<and> PhoneNo h = go_str ''000000000139'' \<and> Body m = [0, 9, 0, 2, 0]"
proof -
  let ?m0 = "\<lparr>Header = Some header_2019, Body = [], Raw = []\<rparr>"
  let ?f = "frame (encodeHeader (updateBodyProperty header_2019 0))"
  let ?h = "wire_header header_2019 0"
  have f: "snd (Encode (Some ?m0)) = Ok ?f" using Encode_Ok [of ?m0 header_2019] by simp
  have d: "Decode ?f = Ok \<lparr>Header = Some ?h, Body = [], Raw = ?f\<rparr>"
    using Decode_frame_encoded [of 0 "[]" header_2019] by simp
  have digits: "list_all is_digit (PhoneNo header_2019)" "length (PhoneNo header_2019) = 20"
    "take 12 (PhoneNo header_2019) = go_str ''000000000139''" by code_simp+
  have h: "MsgID ?h = MsgIDTerminalHeartbeat" "MsgFlowNo ?h = 9" "PhoneNo ?h = PhoneNo header_2019"
    using decode_encodeBCD [OF digits(1), of 10] digits(2)
    by (simp_all add: wire_header_def phone_len_def, simp_all add: header_2019_def)
  let ?w = "NewTCPServer 0 (new_app 0)\<lparr>tw_conns := [NewTCPConnection
     (sample_net\<lparr>nc_reader := \<lparr>pending = ?f @ [], final_error = IoEOF\<rparr>\<rparr>) 0]\<rparr>"
  have i: "incoming 0 (?f @ []) ?w" by (simp add: incoming_def NewTCPServer_def NewTCPConnection_def)
  have wr: "writable 0 ?w" "written 0 ?w = []"
    by (simp_all add: writable_def written_def tcp_IsConnected_def NewTCPConnection_def sample_net_def)
  have mx: "MaxPacketSize DefaultConfig \<le> 0 \<or> 2092 \<le> MaxPacketSize DefaultConfig" by (simp add: DefaultConfig_def)
  have hdr: "Header \<lparr>Header = Some ?h, Body = [], Raw = ?f\<rparr> = Some ?h" by simp
  from heartbeat_acknowledged [OF i f d hdr h(1) wr(1) mx, of "\<lambda>v. []" "\<lambda>w. []" "fixed_zone 28800" 0]
  obtain w' g where w': "tcp_iter DefaultConfig (cmd_server (\<lambda>v. []) (\<lambda>w. []) (fixed_zone 28800)) 0 0 ?w = (Continue, w')"
    "written 0 w' = [g]"
    and g: "reply_to MsgIDPlatformCommonResponse (put_u16 9 @ put_u16 MsgIDTerminalHeartbeat @ [0]) ?h g"
    unfolding wr(2) h(2) by auto
  have "put_u16 9 @ put_u16 MsgIDTerminalHeartbeat @ [0] = [0, 9, 0, 2, 0]" by code_simp
  with g obtain h' where "Decode g = Ok \<lparr>Header = Some h', Body = [0, 9, 0, 2, 0], Raw = g\<rparr>"
    "PhoneNo h' = go_str ''000000000139''"
    by (auto simp: reply_to_def h(3) digits)
  with w' wr(2) show ?thesis
    by (intro exI [of _ ?w] exI [of _ w'] exI [of _ g]) simp
qed

end
