(* ===== verification/StorageBase.thy ===== *)
theory StorageBase
  imports MemoryStorage
begin

text \<open>
  What the storages behind a server (\<^verbatim>\<open>storage/redis\<close>, \<^verbatim>\<open>storage/mysql\<close>, \<^verbatim>\<open>storage/postgres\<close>) share: the loop that
  decodes the results of a query, decimal numerals, and the comparison of their answers with those of
  the memory storage after the same history of saves.
\<close>

section \<open>Decoding results\<close>

text \<open>The loops that decode the results of a query: the first that does not decode ends them.\<close>

fun decode_all :: "('t \<Rightarrow> 'a res) \<Rightarrow> 't list \<Rightarrow> 'a list \<Rightarrow> 'a list res" where
  "decode_all f [] acc = Ok acc"
| "decode_all f (t # ts) acc = go_bind (f t) (\<lambda>x. decode_all f ts (acc @ [x]))"

lemma decode_all_map: "(\<And>x. x \<in> set xs \<Longrightarrow> f (g x) = Ok (h x)) \<Longrightarrow> decode_all f (map g xs) acc = Ok (acc @ map h xs)"
  by (induction xs arbitrary: acc) simp_all

lemma decode_all_OkD: "decode_all f ts acc = Ok xs \<Longrightarrow> x \<in> set xs \<Longrightarrow> x \<in> set acc \<or> (\<exists>t \<in> set ts. f t = Ok x)"
  by (induction f ts acc rule: decode_all.induct) (auto simp: go_bind_Ok_iff)

lemma decode_all_Ok: "(\<And>x. x \<in> set xs \<Longrightarrow> f (g x) = Ok x) \<Longrightarrow> decode_all f (map g xs) acc = Ok (acc @ xs)"
  by (induction xs arbitrary: acc) simp_all

text \<open>\<^verbatim>\<open>%d\<close>\<close>

fun nat_digits :: "nat \<Rightarrow> gostring" where
  "nat_digits n = (if n < 10 then [word_of_nat (48 + n)] else nat_digits (n div 10) @ [word_of_nat (48 + n mod 10)])"

definition sprintf_d :: "int \<Rightarrow> gostring" where
  "sprintf_d n = (if n < 0 then go_str ''-'' @ nat_digits (nat (- n)) else nat_digits (nat n))"

declare nat_digits.simps [simp del]

text \<open>Reading a numeral back, as a server does.\<close>

definition digits_value :: "gostring \<Rightarrow> nat" where
  "digits_value = foldl (\<lambda>n c. 10 * n + (unat c - 48)) 0"

fun read_d :: "gostring \<Rightarrow> int" where
  "read_d [] = 0"
| "read_d (c # cs) = (if c = 45 then - int (digits_value cs) else int (digits_value (c # cs)))"

lemma digit_unat: "n < 10 \<Longrightarrow> unat (word_of_nat (48 + n) :: byte) = 48 + n"
  using unat_of_nat [of "48 + n", where 'a = 8] by (simp del: of_nat_add)

lemma digits_value_nat: "digits_value (nat_digits n) = n"
proof (induction n rule: nat_digits.induct)
  case (1 n)
  show ?case
  proof (cases "n < 10")
    case True
    then show ?thesis using digit_unat [of n] by (subst nat_digits.simps) (simp add: digits_value_def)
  next
    case False
    then have "digits_value (nat_digits n) = 10 * digits_value (nat_digits (n div 10)) + n mod 10"
      using digit_unat [of "n mod 10"] by (subst nat_digits.simps) (simp add: digits_value_def)
    with 1 False show ?thesis by simp
  qed
qed

lemma nat_digits_bytes: "c \<in> set (nat_digits n) \<Longrightarrow> 48 \<le> unat c"
proof (induction n rule: nat_digits.induct)
  case (1 n)
  show ?case
  proof (cases "n < 10")
    case True
    with 1(2) digit_unat [of n] show ?thesis by (subst (asm) nat_digits.simps) simp
  next
    case False
    with 1(2) have "c \<in> set (nat_digits (n div 10)) \<or> c = word_of_nat (48 + n mod 10)"
      by (subst (asm) nat_digits.simps) auto
    with 1(1) False digit_unat [of "n mod 10"] show ?thesis by auto
  qed
qed

lemma nat_digits_not_Nil: "nat_digits n \<noteq> []"
  by (subst nat_digits.simps) simp

lemma read_sprintf_d [simp]: "read_d (sprintf_d n) = n"
proof (cases "n < 0")
  case True
  then show ?thesis by (simp add: sprintf_d_def go_str_def digits_value_nat)
next
  case False
  obtain c cs where digits: "nat_digits (nat n) = c # cs" using nat_digits_not_Nil [of "nat n"] by (cases "nat_digits (nat n)") auto
  then have "c \<noteq> 45" using nat_digits_bytes [of c "nat n"] by auto
  with False digits digits_value_nat [of "nat n"] show ?thesis by (simp add: sprintf_d_def)
qed

text \<open>The integer a \<^verbatim>\<open>DeviceStatus\<close> is.\<close>

fun status_int :: "DeviceStatus \<Rightarrow> int" where
  "status_int DeviceStatusOffline = 0"
| "status_int DeviceStatusOnline = 1"
| "status_int DeviceStatusAuthenticating = 2"

section \<open>Histories of saves\<close>

definition device_ctx :: "gostring \<Rightarrow> context_values" where
  "device_ctx d = with_value deviceID_key (VString d) []"

lemma ctx_device [simp]: "ctx_string (device_ctx d) deviceID_key = d"
  by (simp add: device_ctx_def ctx_string_def with_value_def)

text \<open>The reports \<open>ls\<close> of the device \<open>d\<close> saved one after the other, until a save fails.\<close>

fun run_saves ::
  "(context_values \<Rightarrow> 'a option \<Rightarrow> 'db \<Rightarrow> unit res \<times> 'db) \<Rightarrow> gostring \<Rightarrow> 'a list \<Rightarrow> 'db \<Rightarrow> unit res \<times> 'db" where
  "run_saves save d [] db = (Ok (), db)"
| "run_saves save d (l # ls) db =
     (case save (device_ctx d) (Some l) db of
        (Ok _, db1) \<Rightarrow> run_saves save d ls db1
      | (r, db1) \<Rightarrow> (r, db1))"

lemma run_saves_Ok:
  assumes "\<And>x db. x \<in> set xs \<Longrightarrow> \<exists>db'. save (device_ctx d) (Some x) db = (Ok (), db')"
  shows "\<exists>db'. run_saves save d xs db = (Ok (), db')"
  using assms
proof (induction xs arbitrary: db)
  case (Cons x xs)
  obtain db1 where "save (device_ctx d) (Some x) db = (Ok (), db1)" using Cons.prems [of x] by auto
  moreover have "\<exists>db'. run_saves save d xs db1 = (Ok (), db')" using Cons.prems by (intro Cons.IH) auto
  ultimately show ?case by simp
qed simp

definition memory_saves :: "gostring \<Rightarrow> LocationReport list \<Rightarrow> MemoryStorage" where
  "memory_saves d ls = storage_run (map (\<lambda>l. CallSaveLocation (device_ctx d) (Some l)) ls) NewMemoryStorage"

lemma memory_saves_locations:
  "d \<noteq> [] \<Longrightarrow> gm_list (locations (memory_saves d ls)) d = lastn 1000 ls"
proof -
  assume d: "d \<noteq> []"
  have "history (location_of d) (map (\<lambda>l. CallSaveLocation (device_ctx d) (Some l)) ls) = ls"
    by (induction ls) (simp_all add: history_def map_filter_simps)
  with locations_run [OF d] show ?thesis by (simp add: memory_saves_def)
qed

definition in_window :: "go_time \<Rightarrow> go_time \<Rightarrow> LocationReport \<Rightarrow> bool" where
  "in_window start fin l \<longleftrightarrow> start \<le> LR_Time l \<and> LR_Time l \<le> fin"

lemma memory_saves_query:
  "d \<noteq> [] \<Longrightarrow> GetLocations d start fin (memory_saves d ls) = Ok (filter (in_window start fin) (lastn 1000 ls))"
  using memory_saves_locations [of d ls]
  by (auto simp: GetLocations_def gm_list_def in_window_def not_less split: option.splits intro!: filter_cong)

lemma lastn_map: "lastn n (map f xs) = map f (lastn n xs)"
  by (simp add: lastn_def drop_map)

lemma lastn_subset: "set (lastn n xs) \<subseteq> set xs"
  by (simp add: lastn_def set_drop_subset)

lemma lastn_all: "length xs \<le> n \<Longrightarrow> lastn n xs = xs"
  by (simp add: lastn_def)

text \<open>Instants on whole seconds, as the protocol's time stamps are.\<close>

definition whole_second :: "go_time \<Rightarrow> bool" where
  "whole_second t \<longleftrightarrow> 10 ^ 9 dvd t \<and> \<bar>t\<bar> \<le> 2 ^ 62"

end
