(* ===== verification/RedisStorage.thy ===== *)
theory RedisStorage
  imports StorageBase "HOL-Library.List_Lexorder" "HOL-Library.Product_Lexorder"
begin

text \<open>
  \<^verbatim>\<open>storage/redis/redis.go\<close>: the storage that keeps each device's reports in a sorted set of a Redis server,
  scored by the second of the report, and its registration under a string key. The server and
  \<^verbatim>\<open>encoding/json\<close>'s text format are parameters: a client record \<open>'db redis_client\<close> and a record \<open>json_lib\<close>.
  What the code relies on of the server is the locale \<open>redis_server\<close>, the documented behaviour of the commands
  used; an in-memory server interprets it.
\<close>

section \<open>The clients\<close>

datatype redis_command =
    ZAdd gostring float64 gostring
  | ZRemRangeByRank gostring int int
  | Expire gostring go_duration

record 'db redis_client =
  rc_Ping :: "'db \<Rightarrow> unit res \<times> 'db"
  rc_Close :: "'db \<Rightarrow> unit res \<times> 'db"
  rc_Exec :: "redis_command list \<Rightarrow> 'db \<Rightarrow> unit res \<times> 'db"
  rc_ZRangeByScore :: "gostring \<Rightarrow> gostring \<Rightarrow> gostring \<Rightarrow> 'db \<Rightarrow> gostring list res \<times> 'db"
  rc_Set :: "gostring \<Rightarrow> gostring + int \<Rightarrow> 'db \<Rightarrow> unit res \<times> 'db"
  rc_Get :: "gostring \<Rightarrow> 'db \<Rightarrow> gostring option res \<times> 'db"

text \<open>\<^verbatim>\<open>Get\<close> of a missing key is the error \<^verbatim>\<open>redis.Nil\<close>, here \<open>Ok None\<close>.\<close>

record json_lib =
  js_location :: "LocationReport \<Rightarrow> gostring res"
  js_to_location :: "gostring \<Rightarrow> LocationReport res"
  js_alarm :: "AlarmReport \<Rightarrow> gostring res"
  js_to_alarm :: "gostring \<Rightarrow> AlarmReport res"
  js_device :: "TerminalRegister \<Rightarrow> gostring res"
  js_to_device :: "gostring \<Rightarrow> TerminalRegister res"

section \<open>The storage\<close>

text \<open>\<^verbatim>\<open>time.Time.Unix\<close>\<close>

definition unix_seconds :: "go_time \<Rightarrow> int" where
  "unix_seconds t = t div 10 ^ 9"

definition location_key :: "gostring \<Rightarrow> gostring" where
  "location_key deviceID = go_str ''location:'' @ deviceID"

definition alarm_key :: "gostring \<Rightarrow> gostring" where
  "alarm_key deviceID = go_str ''alarm:'' @ deviceID"

definition device_key :: "gostring \<Rightarrow> gostring" where
  "device_key deviceID = go_str ''device:'' @ deviceID"

definition status_key :: "gostring \<Rightarrow> gostring" where
  "status_key deviceID = go_str ''device_status:'' @ deviceID"

text \<open>The pipeline of a save.\<close>

definition save_pipeline :: "gostring \<Rightarrow> go_time \<Rightarrow> gostring \<Rightarrow> go_duration \<Rightarrow> redis_command list" where
  "save_pipeline key t data ttl =
     [ZAdd key (f64_of_int (unix_seconds t)) data, ZRemRangeByRank key 0 (- 1001), Expire key ttl]"

definition days :: "int \<Rightarrow> go_duration" where
  "days n = n * 24 * 3600 * 10 ^ 9"

definition redis_SaveLocation ::
  "json_lib \<Rightarrow> 'db redis_client \<Rightarrow> context_values \<Rightarrow> LocationReport option \<Rightarrow> 'db \<Rightarrow> unit res \<times> 'db" where
  "redis_SaveLocation js cl ctx loc db =
     (case loc of
        None \<Rightarrow> (Err LocationIsNil, db)
      | Some l \<Rightarrow>
          (let deviceID = ctx_string ctx deviceID_key
           in if deviceID = [] then (Err DeviceIDNotInContext, db)
              else
                (case js_location js l of
                   Err e \<Rightarrow> (Err e, db)
                 | Panic p \<Rightarrow> (Panic p, db)
                 | Ok data \<Rightarrow> rc_Exec cl (save_pipeline (location_key deviceID) (LR_Time l) data (days 7)) db)))"

definition redis_GetLocations ::
  "json_lib \<Rightarrow> 'db redis_client \<Rightarrow> gostring \<Rightarrow> go_time \<Rightarrow> go_time \<Rightarrow> 'db \<Rightarrow> LocationReport list res \<times> 'db" where
  "redis_GetLocations js cl deviceID start fin db =
     (case rc_ZRangeByScore cl (location_key deviceID) (sprintf_d (unix_seconds start)) (sprintf_d (unix_seconds fin)) db of
        (Err e, db1) \<Rightarrow> (Err e, db1)
      | (Panic p, db1) \<Rightarrow> (Panic p, db1)
      | (Ok results, db1) \<Rightarrow> (decode_all (js_to_location js) results [], db1))"

definition redis_SaveAlarm ::
  "json_lib \<Rightarrow> 'db redis_client \<Rightarrow> context_values \<Rightarrow> AlarmReport option \<Rightarrow> 'db \<Rightarrow> unit res \<times> 'db" where
  "redis_SaveAlarm js cl ctx alarm db =
     (case alarm of
        None \<Rightarrow> (Err AlarmIsNil, db)
      | Some a \<Rightarrow>
          (let deviceID = ctx_string ctx deviceID_key
           in if deviceID = [] then (Err DeviceIDNotInContext, db)
              else
                (case js_alarm js a of
                   Err e \<Rightarrow> (Err e, db)
                 | Panic p \<Rightarrow> (Panic p, db)
                 | Ok data \<Rightarrow> rc_Exec cl (save_pipeline (alarm_key deviceID) (AR_Time a) data (days 30)) db)))"

definition redis_GetAlarms ::
  "json_lib \<Rightarrow> 'db redis_client \<Rightarrow> gostring \<Rightarrow> go_time \<Rightarrow> go_time \<Rightarrow> 'db \<Rightarrow> AlarmReport list res \<times> 'db" where
  "redis_GetAlarms js cl deviceID start fin db =
     (case rc_ZRangeByScore cl (alarm_key deviceID) (sprintf_d (unix_seconds start)) (sprintf_d (unix_seconds fin)) db of
        (Err e, db1) \<Rightarrow> (Err e, db1)
      | (Panic p, db1) \<Rightarrow> (Panic p, db1)
      | (Ok results, db1) \<Rightarrow> (decode_all (js_to_alarm js) results [], db1))"

definition redis_SaveDevice ::
  "json_lib \<Rightarrow> 'db redis_client \<Rightarrow> gostring \<Rightarrow> TerminalRegister option \<Rightarrow> 'db \<Rightarrow> unit res \<times> 'db" where
  "redis_SaveDevice js cl deviceID info db =
     (case info of
        None \<Rightarrow> (Err DeviceInfoIsNil, db)
      | Some r \<Rightarrow>
          (case js_device js r of
             Err e \<Rightarrow> (Err e, db)
           | Panic p \<Rightarrow> (Panic p, db)
           | Ok data \<Rightarrow> rc_Set cl (device_key deviceID) (Inl data) db))"

definition redis_GetDevice ::
  "json_lib \<Rightarrow> 'db redis_client \<Rightarrow> gostring \<Rightarrow> 'db \<Rightarrow> TerminalRegister res \<times> 'db" where
  "redis_GetDevice js cl deviceID db =
     (case rc_Get cl (device_key deviceID) db of
        (Ok None, db1) \<Rightarrow> (Err (DeviceNotFound deviceID), db1)
      | (Err e, db1) \<Rightarrow> (Err e, db1)
      | (Panic p, db1) \<Rightarrow> (Panic p, db1)
      | (Ok (Some data), db1) \<Rightarrow> (js_to_device js data, db1))"

definition redis_UpdateDeviceStatus ::
  "'db redis_client \<Rightarrow> gostring \<Rightarrow> DeviceStatus \<Rightarrow> 'db \<Rightarrow> unit res \<times> 'db" where
  "redis_UpdateDeviceStatus cl deviceID st db = rc_Set cl (status_key deviceID) (Inr (status_int st)) db"

text \<open>\<^verbatim>\<open>NewRedisStorage\<close>: a client that answers no \<^verbatim>\<open>PING\<close> is closed and refused. \<open>ping_error\<close> wraps the error.\<close>

definition NewRedisStorage :: "(go_error \<Rightarrow> go_error) \<Rightarrow> 'db redis_client \<Rightarrow> 'db \<Rightarrow> 'db redis_client res \<times> 'db" where
  "NewRedisStorage wrap cl db =
     (case rc_Ping cl db of
        (Err e, db1) \<Rightarrow> (Err (wrap e), snd (rc_Close cl db1))
      | (Panic p, db1) \<Rightarrow> (Panic p, db1)
      | (Ok _, db1) \<Rightarrow> (Ok cl, db1))"

section \<open>What the code relies on\<close>

text \<open>
  A sorted set is its elements in the order of the server: by score, and by the bytes of the member where
  scores are equal; each member occurs once. Ranks count from zero, negative ones from the end. \<^verbatim>\<open>EXPIRE\<close> leaves the
  elements: a history is read before the time to live that each save renews has passed.
\<close>

type_synonym zset = "(float64 \<times> gostring) list"

definition zset_add :: "float64 \<Rightarrow> gostring \<Rightarrow> zset \<Rightarrow> zset" where
  "zset_add s m z = insort (s, m) (filter (\<lambda>e. snd e \<noteq> m) z)"

definition zset_rank :: "int \<Rightarrow> zset \<Rightarrow> int" where
  "zset_rank i z = (if i < 0 then int (length z) + i else i)"

definition zset_remove :: "int \<Rightarrow> int \<Rightarrow> zset \<Rightarrow> zset" where
  "zset_remove i j z = take (nat (zset_rank i z)) z @ drop (nat (max (zset_rank i z) (zset_rank j z + 1))) z"

definition zset_range :: "int \<Rightarrow> int \<Rightarrow> zset \<Rightarrow> gostring list" where
  "zset_range lo hi z = map snd (filter (\<lambda>e. f64_of_int lo \<le> fst e \<and> fst e \<le> f64_of_int hi) z)"

fun zset_command :: "redis_command \<Rightarrow> (gostring \<Rightarrow> zset) \<Rightarrow> gostring \<Rightarrow> zset" where
  "zset_command (ZAdd k s m) z = z(k := zset_add s m (z k))"
| "zset_command (ZRemRangeByRank k i j) z = z(k := zset_remove i j (z k))"
| "zset_command (Expire k t) z = z"

locale redis_server =
  fixes cl :: "'db redis_client" and zsets :: "'db \<Rightarrow> gostring \<Rightarrow> zset"
    and strings :: "'db \<Rightarrow> gostring \<Rightarrow> (gostring + int) option"
  assumes Exec_ok: "rc_Exec cl cmds db = (Ok (), db') \<Longrightarrow>
      zsets db' = fold zset_command cmds (zsets db) \<and> strings db' = strings db"
    and Set_ok: "rc_Set cl k v db = (Ok (), db') \<Longrightarrow> strings db' = (strings db)(k \<mapsto> v) \<and> zsets db' = zsets db"
    and ZRange_ok: "rc_ZRangeByScore cl k (sprintf_d lo) (sprintf_d hi) db = (Ok ms, db') \<Longrightarrow> ms = zset_range lo hi (zsets db k)"
    and Get_ok: "rc_Get cl k db = (Ok r, db') \<Longrightarrow> (\<forall>s. strings db k = Some (Inl s) \<longrightarrow> r = Some s) \<and> (strings db k = None \<longrightarrow> r = None)"
begin

text \<open>What a successful save leaves.\<close>

lemma save_zset:
  assumes "rc_Exec cl (save_pipeline k t data ttl) db = (Ok (), db')"
  shows "zsets db' = (zsets db)(k := zset_remove 0 (- 1001) (zset_add (f64_of_int (unix_seconds t)) data (zsets db k)))"
  using Exec_ok [OF assms] by (simp add: save_pipeline_def)

lemma get_saved_device:
  assumes "redis_SaveDevice js cl d (Some r) db = (Ok (), db1)" and "js_device js r = Ok text"
    and "redis_GetDevice js cl d db1 = (res, db2)" and "fst (rc_Get cl (device_key d) db1) = Ok x"
  shows "res = js_to_device js text"
proof -
  have "rc_Set cl (device_key d) (Inl text) db = (Ok (), db1)"
    using assms(1,2) by (simp add: redis_SaveDevice_def)
  then have "strings db1 (device_key d) = Some (Inl text)" using Set_ok by fastforce
  moreover obtain db3 where "rc_Get cl (device_key d) db1 = (Ok x, db3)"
    using assms(4) by (cases "rc_Get cl (device_key d) db1") auto
  ultimately show ?thesis
    using Get_ok [of "device_key d" db1 x db3] assms(3) by (simp add: redis_GetDevice_def)
qed

end

section \<open>An in-memory server\<close>

type_synonym redis_memory = "(gostring \<Rightarrow> zset) \<times> (gostring \<Rightarrow> (gostring + int) option)"

definition mem_redis :: "redis_memory redis_client" where
  "mem_redis =
     \<lparr>rc_Ping = (\<lambda>db. (Ok (), db)), rc_Close = (\<lambda>db. (Ok (), db)),
      rc_Exec = (\<lambda>cmds (z, s). (Ok (), (fold zset_command cmds z, s))),
      rc_ZRangeByScore = (\<lambda>k lo hi (z, s). (Ok (zset_range (read_d lo) (read_d hi) (z k)), (z, s))),
      rc_Set = (\<lambda>k v (z, s). (Ok (), (z, s(k \<mapsto> v)))),
      rc_Get = (\<lambda>k (z, s).
        (case s k of Some (Inl t) \<Rightarrow> Ok (Some t) | Some (Inr n) \<Rightarrow> Err (AppError 0) | None \<Rightarrow> Ok None, (z, s)))\<rparr>"

definition empty_redis :: redis_memory where
  "empty_redis = (\<lambda>k. [], \<lambda>k. None)"

interpretation mem_redis: redis_server mem_redis fst snd
  by unfold_locales (auto simp: mem_redis_def split: option.splits sum.splits)

section \<open>A history of saves\<close>

definition json_faithful :: "json_lib \<Rightarrow> LocationReport list \<Rightarrow> bool" where
  "json_faithful js ls \<longleftrightarrow> (\<forall>l \<in> set ls. \<exists>t. js_location js l = Ok t \<and> js_to_location js t = Ok l)"

definition js_text :: "json_lib \<Rightarrow> LocationReport \<Rightarrow> gostring" where
  "js_text js l = (case js_location js l of Ok t \<Rightarrow> t | _ \<Rightarrow> [])"

definition zset_of :: "json_lib \<Rightarrow> LocationReport list \<Rightarrow> zset" where
  "zset_of js ls = map (\<lambda>l. (of_int (unix_seconds (LR_Time l)), js_text js l)) ls"

lemma whole_second_unix:
  assumes "whole_second t"
  shows "f64_of_int (unix_seconds t) = of_int (unix_seconds t)"
proof -
  have "\<bar>unix_seconds t\<bar> \<le> 2 ^ 53"
    using assms unfolding whole_second_def unix_seconds_def by (auto elim!: dvdE)
  then show ?thesis by (simp add: f64_of_int_def f64_of_int_exact)
qed

lemma whole_second_less: "whole_second s \<Longrightarrow> whole_second t \<Longrightarrow> unix_seconds s < unix_seconds t \<longleftrightarrow> s < t"
  by (auto simp: whole_second_def unix_seconds_def elim!: dvdE)

lemma whole_second_le: "whole_second s \<Longrightarrow> whole_second t \<Longrightarrow> unix_seconds s \<le> unix_seconds t \<longleftrightarrow> s \<le> t"
  using whole_second_less [of t s] by (simp add: not_less [symmetric])

lemma insort_last: "(\<And>y. y \<in> set xs \<Longrightarrow> y < x) \<Longrightarrow> insort x xs = xs @ [x]"
proof (induction xs)
  case (Cons a xs)
  then have "a < x" "insort x xs = xs @ [x]" by auto
  then show ?case by (simp add: not_le [symmetric])
qed simp

lemma zset_remove_old: "zset_remove 0 (- 1001) z = lastn 1000 z"
  by (simp add: zset_remove_def zset_rank_def lastn_def nat_diff_distrib' max_def)

lemma lastn_zset: "lastn n (zset_of js ls) = zset_of js (lastn n ls)"
  by (simp add: zset_of_def lastn_map)

text \<open>A report that is later than all stored ones goes to the end.\<close>

lemma zset_add_later:
  assumes "whole_second (LR_Time l)" and "js_location js l = Ok text" and "js_to_location js text = Ok l"
    and "\<And>x. x \<in> set hist \<Longrightarrow> LR_Time x < LR_Time l \<and> whole_second (LR_Time x)"
    and "json_faithful js hist"
  shows "zset_add (f64_of_int (unix_seconds (LR_Time l))) text (zset_of js hist) = zset_of js (hist @ [l])"
proof -
  have new: "js_text js x \<noteq> text" if "x \<in> set hist" for x
    using assms(3,4,5) that by (force simp: json_faithful_def js_text_def)
  have "filter (\<lambda>e. snd e \<noteq> text) (zset_of js hist) = zset_of js hist"
    using new by (auto simp: zset_of_def filter_id_conv)
  moreover have "insort (of_int (unix_seconds (LR_Time l)), text) (zset_of js hist)
      = zset_of js hist @ [(of_int (unix_seconds (LR_Time l)), text)]"
    using assms(4) whole_second_less [OF _ assms(1)]
    by (intro insort_last) (auto simp: zset_of_def less_prod_def)
  ultimately show ?thesis
    using assms(2) by (simp add: zset_add_def whole_second_unix [OF assms(1)] zset_of_def js_text_def)
qed

lemma redis_saves_zset:
  assumes "redis_server cl zsets strings" and "json_faithful js (hist @ ls)" and "d \<noteq> []"
    and "sorted_wrt (<) (map LR_Time (hist @ ls))" and "\<forall>l \<in> set (hist @ ls). whole_second (LR_Time l)"
    and "zsets db (location_key d) = zset_of js (lastn 1000 hist)"
    and "run_saves (redis_SaveLocation js cl) d ls db = (Ok (), db')"
  shows "zsets db' (location_key d) = zset_of js (lastn 1000 (hist @ ls))"
  using assms(2,4-7)
proof (induction ls arbitrary: hist db)
  case (Cons l ls)
  from Cons.prems(1) obtain enc where enc: "js_location js l = Ok enc" "js_to_location js enc = Ok l"
    by (auto simp: json_faithful_def)
  obtain r db1 where step: "rc_Exec cl (save_pipeline (location_key d) (LR_Time l) enc (days 7)) db = (r, db1)"
    by fastforce
  then have save: "redis_SaveLocation js cl (device_ctx d) (Some l) db = (r, db1)"
    using enc assms(3) by (simp add: redis_SaveLocation_def)
  with Cons.prems(5) have r: "r = Ok ()" "run_saves (redis_SaveLocation js cl) d ls db1 = (Ok (), db')"
    by (cases r; auto)+
  have "zset_add (f64_of_int (unix_seconds (LR_Time l))) enc (zset_of js (lastn 1000 hist)) = zset_of js (lastn 1000 hist @ [l])"
    using Cons.prems(1,2,3) enc lastn_subset [of 1000 hist]
    by (intro zset_add_later) (auto simp: sorted_wrt_append json_faithful_def)
  then have "zsets db1 (location_key d) = zset_of js (lastn 1000 (hist @ [l]))"
    using redis_server.save_zset [OF assms(1) step [unfolded r(1)]] Cons.prems(4)
    by (simp add: zset_remove_old lastn_zset lastn_append_lastn)
  from Cons.IH [of "hist @ [l]" db1] this r(2) Cons.prems show ?case by simp
qed simp

lemma zset_range_of:
  assumes "whole_second start" and "whole_second fin" and "\<forall>l \<in> set ls. whole_second (LR_Time l)"
  shows "zset_range (unix_seconds start) (unix_seconds fin) (zset_of js ls) =
    map (js_text js) (filter (in_window start fin) ls)"
  using assms(3) by (induction ls)
    (auto simp: in_window_def zset_range_def zset_of_def whole_second_unix assms(1,2) whole_second_le [OF assms(1)]
      whole_second_le [OF _ assms(2)])

section \<open>Properties\<close>

text \<open>C14. The Redis storage answers as the memory storage does: when the same reports are saved in both, in the
  order of their time stamps and on whole seconds as the protocol's are, a query of Redis for an interval
  of whole seconds returns exactly the list the memory storage returns, the last 1000 reports included in
  the interval, whatever server does what the commands are documented to do.\<close>

theorem redis_matches_memory:
  assumes "redis_server cl zsets strings" and "json_faithful js ls" and "d \<noteq> []"
    and "sorted_wrt (<) (map LR_Time ls)" and "\<forall>l \<in> set ls. whole_second (LR_Time l)"
    and "whole_second start" and "whole_second fin" and "zsets db (location_key d) = []"
    and "run_saves (redis_SaveLocation js cl) d ls db = (Ok (), db1)"
    and "rc_ZRangeByScore cl (location_key d) (sprintf_d (unix_seconds start)) (sprintf_d (unix_seconds fin)) db1 = (Ok found, db2)"
  shows "fst (redis_GetLocations js cl d start fin db1) = GetLocations d start fin (memory_saves d ls)"
proof -
  let ?ls = "lastn 1000 ls" and ?in = "in_window start fin"
  have sub: "set ?ls \<subseteq> set ls" by (rule lastn_subset)
  have "zsets db1 (location_key d) = zset_of js ?ls"
    using redis_saves_zset [OF assms(1), of js "[]" ls d db db1] assms by (simp add: zset_of_def)
  moreover have "\<forall>l \<in> set ?ls. whole_second (LR_Time l)" using assms(5) sub by blast
  ultimately have "found = map (js_text js) (filter ?in ?ls)"
    using redis_server.ZRange_ok [OF assms(1,10)] zset_range_of [OF assms(6,7)] by simp
  moreover have "json_faithful js (filter ?in ?ls)"
    using assms(2) sub by (auto simp: json_faithful_def)
  ultimately have "fst (redis_GetLocations js cl d start fin db1) = Ok (filter ?in ?ls)"
    using assms(10) decode_all_Ok [of "filter ?in ?ls" "js_to_location js" "js_text js" "[]"]
    by (fastforce simp: redis_GetLocations_def json_faithful_def js_text_def)
  moreover have "GetLocations d start fin (memory_saves d ls) = Ok (filter ?in ?ls)"
    by (rule memory_saves_query [OF assms(3)])
  ultimately show ?thesis by simp
qed

text \<open>A JSON library for the samples: the text of a report is its second in unary.\<close>

definition sample_json :: json_lib where
  "sample_json =
     \<lparr>js_location = (\<lambda>l. Ok (replicate (nat (unix_seconds (LR_Time l))) 0)),
      js_to_location = (\<lambda>t. Ok (sample_location (int (length t) * 10 ^ 9))),
      js_alarm = (\<lambda>a. Err (AppError 0)), js_to_alarm = (\<lambda>t. Err (AppError 0)),
      js_device = (\<lambda>r. Ok (TerminalID r)),
      js_to_device = (\<lambda>t. Ok \<lparr>ProvinceID = 0, CityID = 0, ManufacturerID = [], TerminalType = [],
        TerminalID = t, PlateColor = 0, PlateNo = []\<rparr>)\<rparr>"

definition second :: "int \<Rightarrow> LocationReport" where
  "second n = sample_location (n * 10 ^ 9)"

lemma sample_faithful: "\<forall>l \<in> set ls. \<exists>n \<ge> 0. l = second n \<Longrightarrow> json_faithful sample_json ls"
  by (fastforce simp: json_faithful_def sample_json_def second_def sample_location_def unix_seconds_def)

lemma sample_seconds [simp]:
  "LR_Time (second n) = n * 10 ^ 9" "unix_seconds (n * 10 ^ 9) = n" "unix_seconds (n * 1000000000) = n"
  by (simp_all add: second_def sample_location_def unix_seconds_def)

lemma whole_sample: "\<bar>n\<bar> \<le> 2 ^ 31 \<Longrightarrow> whole_second (n * 10 ^ 9)"
  by (simp add: whole_second_def abs_mult)

lemma sample_score: "\<bar>n\<bar> \<le> 2 ^ 31 \<Longrightarrow> f64_of_int n = of_int n"
  using whole_second_unix [OF whole_sample, of n] by simp

lemma sample_saves:
  "run_saves (redis_SaveLocation sample_json mem_redis) d ls db = (Ok (), snd (run_saves (redis_SaveLocation sample_json mem_redis) d ls db))" if "d \<noteq> []"
  using that by (induction ls arbitrary: db)
    (auto simp: redis_SaveLocation_def sample_json_def mem_redis_def)

theorem redis_matches_memory_witness:
  "fst (redis_GetLocations sample_json mem_redis (go_str ''D1'') (15 * 10 ^ 9) (30 * 10 ^ 9)
      (snd (run_saves (redis_SaveLocation sample_json mem_redis) (go_str ''D1'') [second 10, second 20, second 30] empty_redis)))
   = Ok [second 20, second 30]"
proof -
  let ?d = "go_str ''D1''" and ?ls = "[second 10, second 20, second 30]"
  let ?db = "snd (run_saves (redis_SaveLocation sample_json mem_redis) ?d ?ls empty_redis)"
  have d: "?d \<noteq> []" by (simp add: go_str_def)
  have js: "json_faithful sample_json ?ls"
    by (rule sample_faithful) (auto intro: exI [of _ "10 :: int"] exI [of _ "20 :: int"] exI [of _ "30 :: int"])
  have ws: "\<forall>l \<in> set ?ls. whole_second (LR_Time l)" "whole_second (15 * 10 ^ 9)" "whole_second (30 * 10 ^ 9)"
    by (auto simp: whole_second_def)
  have saved: "run_saves (redis_SaveLocation sample_json mem_redis) ?d ?ls empty_redis = (Ok (), ?db)" by (rule sample_saves [OF d])
  obtain found db2 where q: "rc_ZRangeByScore mem_redis (location_key ?d) (sprintf_d (unix_seconds (15 * 10 ^ 9))) (sprintf_d (unix_seconds (30 * 10 ^ 9))) ?db
      = (Ok found, db2)"
    by (cases "?db") (simp add: mem_redis_def)
  have sorted: "sorted_wrt (<) (map LR_Time ?ls)" by simp
  have empty: "fst empty_redis (location_key ?d) = []" by (simp add: empty_redis_def)
  have "fst (redis_GetLocations sample_json mem_redis ?d (15 * 10 ^ 9) (30 * 10 ^ 9) ?db)
      = GetLocations ?d (15 * 10 ^ 9) (30 * 10 ^ 9) (memory_saves ?d ?ls)"
    by (rule redis_matches_memory [OF mem_redis.redis_server_axioms js d sorted ws empty saved q])
  also have "\<dots> = Ok [second 20, second 30]"
    by (simp add: memory_saves_query [OF d] lastn_def in_window_def)
  finally show ?thesis .
qed

text \<open>Outside those histories the two storages differ: Redis keeps one copy of a report that is sent
  twice, and returns the reports by their time stamps where the memory storage returns them in the order
  in which they were saved.\<close>

theorem redis_differs_from_memory:
  "fst (redis_GetLocations sample_json mem_redis (go_str ''D1'') 0 (30 * 10 ^ 9)
      (snd (run_saves (redis_SaveLocation sample_json mem_redis) (go_str ''D1'') [second 20, second 10, second 20] empty_redis)))
     = Ok [second 10, second 20]
   \<and> GetLocations (go_str ''D1'') 0 (30 * 10 ^ 9) (memory_saves (go_str ''D1'') [second 20, second 10, second 20])
     = Ok [second 20, second 10, second 20]"
proof
  have d: "go_str ''D1'' \<noteq> []" by (simp add: go_str_def)
  have key: "insort (of_int 20 :: float64, t) [] = [(20, t)]" for t :: gostring by simp
  show "fst (redis_GetLocations sample_json mem_redis (go_str ''D1'') 0 (30 * 10 ^ 9)
      (snd (run_saves (redis_SaveLocation sample_json mem_redis) (go_str ''D1'') [second 20, second 10, second 20] empty_redis)))
     = Ok [second 10, second 20]"
    using d sample_score [of 10] sample_score [of 20] sample_score [of 30] sample_score [of 0]
    by (simp add: redis_GetLocations_def redis_SaveLocation_def sample_json_def mem_redis_def empty_redis_def
        save_pipeline_def zset_add_def zset_remove_old lastn_def zset_range_def less_prod_def less_eq_prod_def
        second_def sample_location_def unix_seconds_def)
  show "GetLocations (go_str ''D1'') 0 (30 * 10 ^ 9) (memory_saves (go_str ''D1'') [second 20, second 10, second 20])
     = Ok [second 20, second 10, second 20]"
    by (simp add: memory_saves_query [OF d] lastn_def in_window_def)
qed

text \<open>Registrations in Redis: after a successful \<^verbatim>\<open>SaveDevice\<close>, and successful updates of any device's
  status, \<^verbatim>\<open>GetDevice\<close> returns what the JSON text of the registration decodes to; for a device that was
  never saved it returns the error "device not found". Unlike the memory and SQL storages, \<^verbatim>\<open>SaveDevice\<close>
  records no status.\<close>

theorem redis_device_registered:
  assumes "redis_server cl zsets strings"
    and "redis_SaveDevice js cl d (Some r) db = (Ok (), db1)" and "js_device js r = Ok enc"
    and "redis_UpdateDeviceStatus cl d' st db1 = (Ok (), db2)"
    and "rc_Get cl (device_key d) db2 = (Ok x, db3)"
    and "strings db2 (device_key u) = None" and "rc_Get cl (device_key u) db2 = (Ok y, db4)"
  shows "fst (redis_GetDevice js cl d db2) = js_to_device js enc
    \<and> fst (redis_GetDevice js cl u db2) = Err (DeviceNotFound u)
    \<and> strings db1 (status_key d) = strings db (status_key d)"
proof -
  have keys: "device_key d \<noteq> status_key d''" for d'' by (simp add: device_key_def status_key_def go_str_def)
  have s: "rc_Set cl (device_key d) (Inl enc) db = (Ok (), db1)"
    using assms(2,3) by (simp add: redis_SaveDevice_def)
  have u: "rc_Set cl (status_key d') (Inr (status_int st)) db1 = (Ok (), db2)"
    using assms(4) by (simp add: redis_UpdateDeviceStatus_def)
  have "strings db2 (device_key d) = Some (Inl enc)" "strings db1 (status_key d) = strings db (status_key d)"
    using redis_server.Set_ok [OF assms(1) s] redis_server.Set_ok [OF assms(1) u] keys keys [of d, symmetric] by auto
  with redis_server.Get_ok [OF assms(1,5)] redis_server.Get_ok [OF assms(1,7)] assms(5-7) show ?thesis
    by (simp add: redis_GetDevice_def)
qed

theorem redis_device_registered_witness:
  "\<exists>db1 db2 r. redis_SaveDevice sample_json mem_redis (go_str ''D1'') (Some r) empty_redis = (Ok (), db1)
     \<and> redis_UpdateDeviceStatus mem_redis (go_str ''D1'') DeviceStatusOffline db1 = (Ok (), db2)
     \<and> fst (redis_GetDevice sample_json mem_redis (go_str ''D1'') db2) = Ok r
     \<and> fst (redis_GetDevice sample_json mem_redis (go_str ''D2'') db2) = Err (DeviceNotFound (go_str ''D2''))"
proof -
  let ?d = "go_str ''D1''" and ?u = "go_str ''D2''"
  let ?r = "\<lparr>ProvinceID = 0, CityID = 0, ManufacturerID = [], TerminalType = [], TerminalID = go_str ''T1'',
    PlateColor = 0, PlateNo = []\<rparr>"
  let ?db1 = "(\<lambda>k. [], [device_key ?d \<mapsto> Inl (go_str ''T1'')]) :: redis_memory"
  let ?db2 = "(\<lambda>k. [], (snd ?db1)(status_key ?d \<mapsto> Inr 0)) :: redis_memory"
  have keys: "device_key ?d \<noteq> status_key ?d" "device_key ?u \<noteq> status_key ?d" "device_key ?u \<noteq> device_key ?d"
    by (simp_all add: device_key_def status_key_def go_str_def)
  have save: "redis_SaveDevice sample_json mem_redis ?d (Some ?r) empty_redis = (Ok (), ?db1)"
    by (simp add: redis_SaveDevice_def sample_json_def mem_redis_def empty_redis_def)
  have js: "js_device sample_json ?r = Ok (go_str ''T1'')" "js_to_device sample_json (go_str ''T1'') = Ok ?r"
    by (simp_all add: sample_json_def)
  have upd: "redis_UpdateDeviceStatus mem_redis ?d DeviceStatusOffline ?db1 = (Ok (), ?db2)"
    by (simp add: redis_UpdateDeviceStatus_def mem_redis_def)
  have get: "rc_Get mem_redis (device_key ?d) ?db2 = (Ok (Some (go_str ''T1'')), ?db2)"
    "rc_Get mem_redis (device_key ?u) ?db2 = (Ok None, ?db2)" "snd ?db2 (device_key ?u) = None"
    using keys by (simp_all add: mem_redis_def)
  from redis_device_registered [OF mem_redis.redis_server_axioms save js(1) upd get(1,3,2)] save upd js(2)
  show ?thesis by (intro exI [of _ ?db1] exI [of _ ?db2] exI [of _ ?r]) simp
qed

end
