(* ===== verification/SqlStorage.thy ===== *)
theory SqlStorage
  imports StorageBase "HOL-Library.Multiset"
begin

text \<open>
  \<^verbatim>\<open>storage/mysql/mysql.go\<close> and \<^verbatim>\<open>storage/postgres/postgres.go\<close>: the two storages over \<^verbatim>\<open>database/sql\<close>. The
  database behind \<^verbatim>\<open>sql.DB\<close> is a parameter, a record \<open>'db sql_db\<close> of its operations. A statement of the code
  is a value of the datatype \<open>statement\<close> with the table, the columns in the order of the text, the key and the
  columns of its conditions; what the code relies on is the locale \<open>sql_server\<close>, the meaning of these
  statements on tables whose columns have the types the code creates them with. An in-memory database
  interprets it.
\<close>

section \<open>The database\<close>

text \<open>The values of columns and arguments. The drivers return integer columns as \<^verbatim>\<open>int64\<close>, text as bytes,
  and timestamps as \<^verbatim>\<open>time.Time\<close>.\<close>

datatype sql_value = SqlNull | SqlInt int | SqlFloat float64 | SqlText gostring | SqlTime go_time

text \<open>An integer column has a least and a greatest value, a text column a greatest length; \<open>SerialColumn\<close> is
  numbered and \<open>StampColumn\<close> kept up to date by the server.\<close>

datatype column_type =
    IntColumn int int
  | TextColumn nat
  | FloatColumn
  | TimeColumn
  | SerialColumn
  | StampColumn

text \<open>\<open>CreateTable t cols indexed\<close>; \<open>Insert t cols\<close> with an argument for each column; \<open>Upsert t cols key cols'\<close>, which
  sets the columns \<open>cols'\<close> of the row with the same key if there is one; \<open>SelectWindow cols t key time\<close> of the rows
  with a key and a time between two arguments, ordered by the time; \<open>SelectKey cols t key\<close>; \<open>UpdateKey t col stamps key\<close>.\<close>

datatype statement =
    CreateTable string "(string \<times> column_type) list" "string list"
  | Insert string "string list"
  | Upsert string "string list" string "string list"
  | SelectWindow "string list" string string string
  | SelectKey "string list" string string
  | UpdateKey string string "string list" string

text \<open>A query returns rows and the error that ended their iteration, if any; \<^verbatim>\<open>sql.ErrNoRows\<close> of a query for
  one row is \<open>Ok None\<close>.\<close>

record 'db sql_db =
  sq_Ping :: "'db \<Rightarrow> unit res \<times> 'db"
  sq_Close :: "'db \<Rightarrow> unit res \<times> 'db"
  sq_Exec :: "statement \<Rightarrow> sql_value list \<Rightarrow> 'db \<Rightarrow> unit res \<times> 'db"
  sq_Query :: "statement \<Rightarrow> sql_value list \<Rightarrow> 'db \<Rightarrow> (sql_value list list \<times> go_error option) res \<times> 'db"
  sq_QueryRow :: "statement \<Rightarrow> sql_value list \<Rightarrow> 'db \<Rightarrow> sql_value list option res \<times> 'db"

section \<open>Scanning\<close>

text \<open>\<^verbatim>\<open>Scan\<close> of a column into a Go variable, of the kinds the two files use: an integer out of the
  variable's range, a null and a value of another kind are errors.\<close>

definition scan_error :: go_error where
  "scan_error = AppError 1"

definition sql_uint :: "'a::len word \<Rightarrow> sql_value" where
  "sql_uint w = SqlInt (uint w)"

definition scan_uint :: "sql_value \<Rightarrow> 'a::len word res" where
  "scan_uint v = (case v of SqlInt n \<Rightarrow> if 0 \<le> n \<and> n < 2 ^ LENGTH('a) then Ok (word_of_int n) else Err scan_error
     | _ \<Rightarrow> Err scan_error)"

definition scan_float :: "sql_value \<Rightarrow> float64 res" where
  "scan_float v = (case v of SqlFloat x \<Rightarrow> Ok x | _ \<Rightarrow> Err scan_error)"

definition scan_text :: "sql_value \<Rightarrow> gostring res" where
  "scan_text v = (case v of SqlText s \<Rightarrow> Ok s | _ \<Rightarrow> Err scan_error)"

definition scan_time :: "sql_value \<Rightarrow> go_time res" where
  "scan_time v = (case v of SqlTime t \<Rightarrow> Ok t | _ \<Rightarrow> Err scan_error)"

fun scan_location :: "sql_value list \<Rightarrow> LocationReport res" where
  "scan_location [a, s, la, lo, al, sp, di, t] =
     go_bind (scan_uint a) (\<lambda>alarm. go_bind (scan_uint s) (\<lambda>st.
     go_bind (scan_float la) (\<lambda>lat. go_bind (scan_float lo) (\<lambda>lng.
     go_bind (scan_uint al) (\<lambda>alt. go_bind (scan_uint sp) (\<lambda>speed. go_bind (scan_uint di) (\<lambda>dir.
     go_bind (scan_time t) (\<lambda>tm.
       Ok \<lparr>LR_AlarmFlag = alarm, LR_Status = st, LR_Latitude = lat, LR_Longitude = lng, LR_Altitude = alt,
           LR_Speed = speed, LR_Direction = dir, LR_Time = tm\<rparr>))))))))"
| "scan_location vs = Err scan_error"

fun scan_alarm :: "sql_value list \<Rightarrow> AlarmReport res" where
  "scan_alarm [a, s, la, lo, al, sp, di, ty, t] =
     go_bind (scan_uint a) (\<lambda>alarm. go_bind (scan_uint s) (\<lambda>st.
     go_bind (scan_float la) (\<lambda>lat. go_bind (scan_float lo) (\<lambda>lng.
     go_bind (scan_uint al) (\<lambda>alt. go_bind (scan_uint sp) (\<lambda>speed. go_bind (scan_uint di) (\<lambda>dir.
     go_bind (scan_uint ty) (\<lambda>typ. go_bind (scan_time t) (\<lambda>tm.
       Ok \<lparr>AR_AlarmFlag = alarm, AR_Status = st, AR_Latitude = lat, AR_Longitude = lng, AR_Altitude = alt,
           AR_Speed = speed, AR_Direction = dir, AR_Time = tm, AR_AlarmType = typ\<rparr>)))))))))"
| "scan_alarm vs = Err scan_error"

fun scan_device :: "sql_value list \<Rightarrow> TerminalRegister res" where
  "scan_device [p, c, m, ty, i, co, pl] =
     go_bind (scan_uint p) (\<lambda>province. go_bind (scan_uint c) (\<lambda>city. go_bind (scan_text m) (\<lambda>manufacturer.
     go_bind (scan_text ty) (\<lambda>typ. go_bind (scan_text i) (\<lambda>ident. go_bind (scan_uint co) (\<lambda>color.
     go_bind (scan_text pl) (\<lambda>plate.
       Ok \<lparr>ProvinceID = province, CityID = city, ManufacturerID = manufacturer, TerminalType = typ,
           TerminalID = ident, PlateColor = color, PlateNo = plate\<rparr>)))))))"
| "scan_device vs = Err scan_error"

section \<open>Operations over a connection\<close>

text \<open>The arguments the code passes, and the operations for given statements.\<close>

definition location_args :: "LocationReport \<Rightarrow> sql_value list" where
  "location_args l =
     [sql_uint (LR_AlarmFlag l), sql_uint (LR_Status l), SqlFloat (LR_Latitude l), SqlFloat (LR_Longitude l),
      sql_uint (LR_Altitude l), sql_uint (LR_Speed l), sql_uint (LR_Direction l), SqlTime (LR_Time l)]"

definition alarm_args :: "AlarmReport \<Rightarrow> sql_value list" where
  "alarm_args a =
     [sql_uint (AR_AlarmFlag a), sql_uint (AR_Status a), SqlFloat (AR_Latitude a), SqlFloat (AR_Longitude a),
      sql_uint (AR_Altitude a), sql_uint (AR_Speed a), sql_uint (AR_Direction a), sql_uint (AR_AlarmType a),
      SqlTime (AR_Time a)]"

definition device_args :: "TerminalRegister \<Rightarrow> sql_value list" where
  "device_args r =
     [sql_uint (ProvinceID r), sql_uint (CityID r), SqlText (ManufacturerID r), SqlText (TerminalType r),
      SqlText (TerminalID r), sql_uint (PlateColor r), SqlText (PlateNo r)]"

definition sql_SaveLocation ::
  "statement \<Rightarrow> 'db sql_db \<Rightarrow> context_values \<Rightarrow> LocationReport option \<Rightarrow> 'db \<Rightarrow> unit res \<times> 'db" where
  "sql_SaveLocation st sq ctx loc db =
     (case loc of
        None \<Rightarrow> (Err LocationIsNil, db)
      | Some l \<Rightarrow>
          (let deviceID = ctx_string ctx deviceID_key
           in if deviceID = [] then (Err DeviceIDNotInContext, db)
              else sq_Exec sq st (SqlText deviceID # location_args l) db))"

definition sql_SaveAlarm ::
  "statement \<Rightarrow> 'db sql_db \<Rightarrow> context_values \<Rightarrow> AlarmReport option \<Rightarrow> 'db \<Rightarrow> unit res \<times> 'db" where
  "sql_SaveAlarm st sq ctx alarm db =
     (case alarm of
        None \<Rightarrow> (Err AlarmIsNil, db)
      | Some a \<Rightarrow>
          (let deviceID = ctx_string ctx deviceID_key
           in if deviceID = [] then (Err DeviceIDNotInContext, db)
              else sq_Exec sq st (SqlText deviceID # alarm_args a) db))"

text \<open>A query: its rows scanned one by one, then \<^verbatim>\<open>rows.Err\<close>.\<close>

definition sql_select ::
  "statement \<Rightarrow> (sql_value list \<Rightarrow> 'a res) \<Rightarrow> 'db sql_db \<Rightarrow> gostring \<Rightarrow> go_time \<Rightarrow> go_time \<Rightarrow> 'db \<Rightarrow> 'a list res \<times> 'db" where
  "sql_select st scan sq deviceID start fin db =
     (case sq_Query sq st [SqlText deviceID, SqlTime start, SqlTime fin] db of
        (Err e, db1) \<Rightarrow> (Err e, db1)
      | (Panic p, db1) \<Rightarrow> (Panic p, db1)
      | (Ok (rows, rows_err), db1) \<Rightarrow>
          (go_bind (decode_all scan rows []) (\<lambda>xs. case rows_err of Some e \<Rightarrow> Err e | None \<Rightarrow> Ok xs), db1))"

definition sql_SaveDevice ::
  "statement \<Rightarrow> 'db sql_db \<Rightarrow> gostring \<Rightarrow> TerminalRegister option \<Rightarrow> 'db \<Rightarrow> unit res \<times> 'db" where
  "sql_SaveDevice st sq deviceID info db =
     (case info of
        None \<Rightarrow> (Err DeviceInfoIsNil, db)
      | Some r \<Rightarrow> sq_Exec sq st (SqlText deviceID # device_args r @ [SqlInt (status_int DeviceStatusOnline)]) db)"

definition sql_GetDevice :: "statement \<Rightarrow> 'db sql_db \<Rightarrow> gostring \<Rightarrow> 'db \<Rightarrow> TerminalRegister res \<times> 'db" where
  "sql_GetDevice st sq deviceID db =
     (case sq_QueryRow sq st [SqlText deviceID] db of
        (Ok None, db1) \<Rightarrow> (Err (DeviceNotFound deviceID), db1)
      | (Err e, db1) \<Rightarrow> (Err e, db1)
      | (Panic p, db1) \<Rightarrow> (Panic p, db1)
      | (Ok (Some row), db1) \<Rightarrow> (scan_device row, db1))"

definition sql_UpdateDeviceStatus :: "statement \<Rightarrow> 'db sql_db \<Rightarrow> gostring \<Rightarrow> DeviceStatus \<Rightarrow> 'db \<Rightarrow> unit res \<times> 'db" where
  "sql_UpdateDeviceStatus st sq deviceID ds db = sq_Exec sq st [SqlInt (status_int ds), SqlText deviceID] db"

text \<open>Opening a storage: the connection is closed again when it does not answer or a table cannot be created.
  \<open>wrap\<close> stands for \<^verbatim>\<open>fmt.Errorf\<close> with \<^verbatim>\<open>%w\<close>.\<close>

fun create_tables :: "(go_error \<Rightarrow> go_error) \<Rightarrow> 'db sql_db \<Rightarrow> statement list \<Rightarrow> 'db \<Rightarrow> unit res \<times> 'db" where
  "create_tables wrap sq [] db = (Ok (), db)"
| "create_tables wrap sq (st # sts) db =
     (case sq_Exec sq st [] db of
        (Ok _, db1) \<Rightarrow> create_tables wrap sq sts db1
      | (Err e, db1) \<Rightarrow> (Err (wrap e), db1)
      | (Panic p, db1) \<Rightarrow> (Panic p, db1))"

definition open_storage ::
  "(go_error \<Rightarrow> go_error) \<Rightarrow> (gostring \<Rightarrow> 'db sql_db res) \<Rightarrow> ('db sql_db \<Rightarrow> 'db \<Rightarrow> unit res \<times> 'db) \<Rightarrow>
    gostring \<Rightarrow> 'db \<Rightarrow> 'db sql_db res \<times> 'db" where
  "open_storage wrap sql_Open createTables dsn db =
     (case sql_Open dsn of
        Err e \<Rightarrow> (Err (wrap e), db)
      | Panic p \<Rightarrow> (Panic p, db)
      | Ok sq \<Rightarrow>
          (case sq_Ping sq db of
             (Err e, db1) \<Rightarrow> (Err (wrap e), snd (sq_Close sq db1))
           | (Panic p, db1) \<Rightarrow> (Panic p, db1)
           | (Ok _, db1) \<Rightarrow>
               (case createTables sq db1 of
                  (Err e, db2) \<Rightarrow> (Err (wrap e), snd (sq_Close sq db2))
                | (Panic p, db2) \<Rightarrow> (Panic p, db2)
                | (Ok _, db2) \<Rightarrow> (Ok sq, db2))))"

section \<open>The MySQL storage\<close>

record MySQLConfig =
  my_Host :: gostring
  my_Port :: int
  my_User :: gostring
  my_Password :: gostring
  my_Database :: gostring

definition mysql_dsn :: "MySQLConfig \<Rightarrow> gostring" where
  "mysql_dsn c = my_User c @ go_str '':'' @ my_Password c @ go_str ''@tcp('' @ my_Host c @ go_str '':''
     @ sprintf_d (my_Port c) @ go_str '')/'' @ my_Database c @ go_str ''?charset=utf8mb4&parseTime=True&loc=Local''"

text \<open>\<^verbatim>\<open>TINYINT\<close>, \<^verbatim>\<open>INT\<close>, \<^verbatim>\<open>INT UNSIGNED\<close>\<close>

definition mysql_tinyint :: column_type where
  "mysql_tinyint = IntColumn (- (2 ^ 7)) (2 ^ 7 - 1)"

definition mysql_int :: column_type where
  "mysql_int = IntColumn (- (2 ^ 31)) (2 ^ 31 - 1)"

definition mysql_uint :: column_type where
  "mysql_uint = IntColumn 0 (2 ^ 32 - 1)"

definition mysql_devices :: statement where
  "mysql_devices = CreateTable ''devices''
     [(''id'', TextColumn 64), (''province_id'', mysql_int), (''city_id'', mysql_int), (''manufacturer_id'', TextColumn 32),
      (''terminal_type'', TextColumn 64), (''terminal_id'', TextColumn 32), (''plate_color'', mysql_tinyint),
      (''plate_no'', TextColumn 32), (''status'', mysql_tinyint), (''created_at'', StampColumn), (''updated_at'', StampColumn)]
     [''terminal_id'', ''plate_no'']"

definition mysql_locations :: statement where
  "mysql_locations = CreateTable ''locations''
     [(''id'', SerialColumn), (''device_id'', TextColumn 64), (''alarm_flag'', mysql_uint), (''status'', mysql_uint),
      (''latitude'', FloatColumn), (''longitude'', FloatColumn), (''altitude'', mysql_int), (''speed'', mysql_int),
      (''direction'', mysql_int), (''report_time'', TimeColumn), (''created_at'', StampColumn)]
     [''device_id'', ''report_time'']"

definition mysql_alarms :: statement where
  "mysql_alarms = CreateTable ''alarms''
     [(''id'', SerialColumn), (''device_id'', TextColumn 64), (''alarm_flag'', mysql_uint), (''status'', mysql_uint),
      (''latitude'', FloatColumn), (''longitude'', FloatColumn), (''altitude'', mysql_int), (''speed'', mysql_int),
      (''direction'', mysql_int), (''alarm_type'', mysql_tinyint), (''report_time'', TimeColumn), (''created_at'', StampColumn)]
     [''device_id'', ''report_time'']"

definition mysql_tables :: "statement list" where
  "mysql_tables = [mysql_devices, mysql_locations, mysql_alarms]"

definition mysql_createTables :: "(go_error \<Rightarrow> go_error) \<Rightarrow> 'db sql_db \<Rightarrow> 'db \<Rightarrow> unit res \<times> 'db" where
  "mysql_createTables wrap sq = create_tables wrap sq mysql_tables"

definition NewMySQLStorage ::
  "(go_error \<Rightarrow> go_error) \<Rightarrow> (gostring \<Rightarrow> 'db sql_db res) \<Rightarrow> MySQLConfig \<Rightarrow> 'db \<Rightarrow> 'db sql_db res \<times> 'db" where
  "NewMySQLStorage wrap sql_Open c = open_storage wrap sql_Open (mysql_createTables wrap) (mysql_dsn c)"

definition mysql_insert_location :: statement where
  "mysql_insert_location = Insert ''locations''
     [''device_id'', ''alarm_flag'', ''status'', ''latitude'', ''longitude'', ''altitude'', ''speed'', ''direction'', ''report_time'']"

definition mysql_SaveLocation :: "'db sql_db \<Rightarrow> context_values \<Rightarrow> LocationReport option \<Rightarrow> 'db \<Rightarrow> unit res \<times> 'db" where
  "mysql_SaveLocation = sql_SaveLocation mysql_insert_location"

definition mysql_select_locations :: statement where
  "mysql_select_locations = SelectWindow
     [''alarm_flag'', ''status'', ''latitude'', ''longitude'', ''altitude'', ''speed'', ''direction'', ''report_time'']
     ''locations'' ''device_id'' ''report_time''"

definition mysql_GetLocations ::
  "'db sql_db \<Rightarrow> gostring \<Rightarrow> go_time \<Rightarrow> go_time \<Rightarrow> 'db \<Rightarrow> LocationReport list res \<times> 'db" where
  "mysql_GetLocations = sql_select mysql_select_locations scan_location"

definition mysql_insert_alarm :: statement where
  "mysql_insert_alarm = Insert ''alarms''
     [''device_id'', ''alarm_flag'', ''status'', ''latitude'', ''longitude'', ''altitude'', ''speed'', ''direction'',
      ''alarm_type'', ''report_time'']"

definition mysql_SaveAlarm :: "'db sql_db \<Rightarrow> context_values \<Rightarrow> AlarmReport option \<Rightarrow> 'db \<Rightarrow> unit res \<times> 'db" where
  "mysql_SaveAlarm = sql_SaveAlarm mysql_insert_alarm"

definition mysql_select_alarms :: statement where
  "mysql_select_alarms = SelectWindow
     [''alarm_flag'', ''status'', ''latitude'', ''longitude'', ''altitude'', ''speed'', ''direction'', ''alarm_type'', ''report_time'']
     ''alarms'' ''device_id'' ''report_time''"

definition mysql_GetAlarms ::
  "'db sql_db \<Rightarrow> gostring \<Rightarrow> go_time \<Rightarrow> go_time \<Rightarrow> 'db \<Rightarrow> AlarmReport list res \<times> 'db" where
  "mysql_GetAlarms = sql_select mysql_select_alarms scan_alarm"

definition mysql_upsert_device :: statement where
  "mysql_upsert_device = Upsert ''devices''
     [''id'', ''province_id'', ''city_id'', ''manufacturer_id'', ''terminal_type'', ''terminal_id'', ''plate_color'', ''plate_no'', ''status'']
     ''id''
     [''province_id'', ''city_id'', ''manufacturer_id'', ''terminal_type'', ''terminal_id'', ''plate_color'', ''plate_no'', ''status'']"

definition mysql_SaveDevice :: "'db sql_db \<Rightarrow> gostring \<Rightarrow> TerminalRegister option \<Rightarrow> 'db \<Rightarrow> unit res \<times> 'db" where
  "mysql_SaveDevice = sql_SaveDevice mysql_upsert_device"

definition mysql_select_device :: statement where
  "mysql_select_device = SelectKey
     [''province_id'', ''city_id'', ''manufacturer_id'', ''terminal_type'', ''terminal_id'', ''plate_color'', ''plate_no'']
     ''devices'' ''id''"

definition mysql_GetDevice :: "'db sql_db \<Rightarrow> gostring \<Rightarrow> 'db \<Rightarrow> TerminalRegister res \<times> 'db" where
  "mysql_GetDevice = sql_GetDevice mysql_select_device"

definition mysql_update_status :: statement where
  "mysql_update_status = UpdateKey ''devices'' ''status'' [] ''id''"

definition mysql_UpdateDeviceStatus :: "'db sql_db \<Rightarrow> gostring \<Rightarrow> DeviceStatus \<Rightarrow> 'db \<Rightarrow> unit res \<times> 'db" where
  "mysql_UpdateDeviceStatus = sql_UpdateDeviceStatus mysql_update_status"

section \<open>The PostgreSQL storage\<close>

record PostgresConfig =
  pg_Host :: gostring
  pg_Port :: int
  pg_User :: gostring
  pg_Password :: gostring
  pg_Database :: gostring
  pg_SSLMode :: gostring

text \<open>An empty SSL mode is set in the caller's configuration, which is the second component of the result of
  \<^verbatim>\<open>NewPostgresStorage\<close>.\<close>

definition with_sslmode :: "PostgresConfig \<Rightarrow> PostgresConfig" where
  "with_sslmode c = (if pg_SSLMode c = [] then c\<lparr>pg_SSLMode := go_str ''disable''\<rparr> else c)"

definition postgres_dsn :: "PostgresConfig \<Rightarrow> gostring" where
  "postgres_dsn c = go_str ''host='' @ pg_Host c @ go_str '' port='' @ sprintf_d (pg_Port c) @ go_str '' user='' @ pg_User c
     @ go_str '' password='' @ pg_Password c @ go_str '' dbname='' @ pg_Database c @ go_str '' sslmode='' @ pg_SSLMode c"

text \<open>\<^verbatim>\<open>SMALLINT\<close>, \<^verbatim>\<open>INTEGER\<close>, \<^verbatim>\<open>BIGINT\<close>\<close>

definition pg_smallint :: column_type where
  "pg_smallint = IntColumn (- (2 ^ 15)) (2 ^ 15 - 1)"

definition pg_integer :: column_type where
  "pg_integer = IntColumn (- (2 ^ 31)) (2 ^ 31 - 1)"

definition pg_bigint :: column_type where
  "pg_bigint = IntColumn (- (2 ^ 63)) (2 ^ 63 - 1)"

definition pg_devices :: statement where
  "pg_devices = CreateTable ''devices''
     [(''id'', TextColumn 64), (''province_id'', pg_integer), (''city_id'', pg_integer), (''manufacturer_id'', TextColumn 32),
      (''terminal_type'', TextColumn 64), (''terminal_id'', TextColumn 32), (''plate_color'', pg_smallint),
      (''plate_no'', TextColumn 32), (''status'', pg_smallint), (''created_at'', StampColumn), (''updated_at'', StampColumn)]
     [''terminal_id'', ''plate_no'']"

definition pg_locations :: statement where
  "pg_locations = CreateTable ''locations''
     [(''id'', SerialColumn), (''device_id'', TextColumn 64), (''alarm_flag'', pg_bigint), (''status'', pg_bigint),
      (''latitude'', FloatColumn), (''longitude'', FloatColumn), (''altitude'', pg_integer), (''speed'', pg_integer),
      (''direction'', pg_integer), (''report_time'', TimeColumn), (''created_at'', StampColumn)]
     [''device_id'', ''report_time'']"

definition pg_alarms :: statement where
  "pg_alarms = CreateTable ''alarms''
     [(''id'', SerialColumn), (''device_id'', TextColumn 64), (''alarm_flag'', pg_bigint), (''status'', pg_bigint),
      (''latitude'', FloatColumn), (''longitude'', FloatColumn), (''altitude'', pg_integer), (''speed'', pg_integer),
      (''direction'', pg_integer), (''alarm_type'', pg_smallint), (''report_time'', TimeColumn), (''created_at'', StampColumn)]
     [''device_id'', ''report_time'']"

definition pg_tables :: "statement list" where
  "pg_tables = [pg_devices, pg_locations, pg_alarms]"

definition pg_createTables :: "(go_error \<Rightarrow> go_error) \<Rightarrow> 'db sql_db \<Rightarrow> 'db \<Rightarrow> unit res \<times> 'db" where
  "pg_createTables wrap sq = create_tables wrap sq pg_tables"

definition NewPostgresStorage ::
  "(go_error \<Rightarrow> go_error) \<Rightarrow> (gostring \<Rightarrow> 'db sql_db res) \<Rightarrow> PostgresConfig \<Rightarrow> 'db \<Rightarrow> ('db sql_db res \<times> PostgresConfig) \<times> 'db" where
  "NewPostgresStorage wrap sql_Open c db =
     (let c1 = with_sslmode c; (r, db1) = open_storage wrap sql_Open (pg_createTables wrap) (postgres_dsn c1) db in ((r, c1), db1))"

definition pg_insert_location :: statement where
  "pg_insert_location = Insert ''locations''
     [''device_id'', ''alarm_flag'', ''status'', ''latitude'', ''longitude'', ''altitude'', ''speed'', ''direction'', ''report_time'']"

definition pg_SaveLocation :: "'db sql_db \<Rightarrow> context_values \<Rightarrow> LocationReport option \<Rightarrow> 'db \<Rightarrow> unit res \<times> 'db" where
  "pg_SaveLocation = sql_SaveLocation pg_insert_location"

definition pg_select_locations :: statement where
  "pg_select_locations = SelectWindow
     [''alarm_flag'', ''status'', ''latitude'', ''longitude'', ''altitude'', ''speed'', ''direction'', ''report_time'']
     ''locations'' ''device_id'' ''report_time''"

definition pg_GetLocations ::
  "'db sql_db \<Rightarrow> gostring \<Rightarrow> go_time \<Rightarrow> go_time \<Rightarrow> 'db \<Rightarrow> LocationReport list res \<times> 'db" where
  "pg_GetLocations = sql_select pg_select_locations scan_location"

definition pg_insert_alarm :: statement where
  "pg_insert_alarm = Insert ''alarms''
     [''device_id'', ''alarm_flag'', ''status'', ''latitude'', ''longitude'', ''altitude'', ''speed'', ''direction'',
      ''alarm_type'', ''report_time'']"

definition pg_SaveAlarm :: "'db sql_db \<Rightarrow> context_values \<Rightarrow> AlarmReport option \<Rightarrow> 'db \<Rightarrow> unit res \<times> 'db" where
  "pg_SaveAlarm = sql_SaveAlarm pg_insert_alarm"

definition pg_select_alarms :: statement where
  "pg_select_alarms = SelectWindow
     [''alarm_flag'', ''status'', ''latitude'', ''longitude'', ''altitude'', ''speed'', ''direction'', ''alarm_type'', ''report_time'']
     ''alarms'' ''device_id'' ''report_time''"

definition pg_GetAlarms ::
  "'db sql_db \<Rightarrow> gostring \<Rightarrow> go_time \<Rightarrow> go_time \<Rightarrow> 'db \<Rightarrow> AlarmReport list res \<times> 'db" where
  "pg_GetAlarms = sql_select pg_select_alarms scan_alarm"

definition pg_upsert_device :: statement where
  "pg_upsert_device = Upsert ''devices''
     [''id'', ''province_id'', ''city_id'', ''manufacturer_id'', ''terminal_type'', ''terminal_id'', ''plate_color'', ''plate_no'', ''status'']
     ''id''
     [''province_id'', ''city_id'', ''manufacturer_id'', ''terminal_type'', ''terminal_id'', ''plate_color'', ''plate_no'', ''status'']"

definition pg_SaveDevice :: "'db sql_db \<Rightarrow> gostring \<Rightarrow> TerminalRegister option \<Rightarrow> 'db \<Rightarrow> unit res \<times> 'db" where
  "pg_SaveDevice = sql_SaveDevice pg_upsert_device"

definition pg_select_device :: statement where
  "pg_select_device = SelectKey
     [''province_id'', ''city_id'', ''manufacturer_id'', ''terminal_type'', ''terminal_id'', ''plate_color'', ''plate_no'']
     ''devices'' ''id''"

definition pg_GetDevice :: "'db sql_db \<Rightarrow> gostring \<Rightarrow> 'db \<Rightarrow> TerminalRegister res \<times> 'db" where
  "pg_GetDevice = sql_GetDevice pg_select_device"

definition pg_update_status :: statement where
  "pg_update_status = UpdateKey ''devices'' ''status'' [''updated_at''] ''id''"

definition pg_UpdateDeviceStatus :: "'db sql_db \<Rightarrow> gostring \<Rightarrow> DeviceStatus \<Rightarrow> 'db \<Rightarrow> unit res \<times> 'db" where
  "pg_UpdateDeviceStatus = sql_UpdateDeviceStatus pg_update_status"

section \<open>Scanning what was written\<close>

lemma scan_sql_uint [simp]: "scan_uint (sql_uint w) = Ok (w :: 'a::len word)"
  using uint_bounded [of w] by (simp add: scan_uint_def sql_uint_def)

lemma scan_sql_values [simp]:
  "scan_float (SqlFloat x) = Ok x" "scan_text (SqlText s) = Ok s" "scan_time (SqlTime t) = Ok t"
  by (simp_all add: scan_float_def scan_text_def scan_time_def)

lemma scan_location_args [simp]: "scan_location (location_args l) = Ok l"
  by (simp add: location_args_def)

lemma scan_alarm_args [simp]: "scan_alarm (alarm_args a) = Ok a"
  by (simp add: alarm_args_def)

lemma scan_device_args [simp]: "scan_device (device_args r) = Ok r"
  by (simp add: device_args_def)


end
