(* ===== verification/SqlProps.thy ===== *)
theory SqlProps
  imports SqlStorage
begin

text \<open>
  What the SQL storages show. The locale \<open>sql_server\<close> is the documented meaning of the statements on the tables
  of a server, a list of rows for each table; \<open>report_table\<close> extends it by a table of reports and is where the
  history of the saves is proved once for the locations and alarms of both storages.
\<close>

section \<open>Rows and columns\<close>

type_synonym row = "string \<rightharpoonup> sql_value"
type_synonym schema = "string \<Rightarrow> string \<Rightarrow> column_type option"

definition column :: "row \<Rightarrow> string \<Rightarrow> sql_value" where
  "column r c = (case r c of None \<Rightarrow> SqlNull | Some v \<Rightarrow> v)"

abbreviation project :: "string list \<Rightarrow> row \<Rightarrow> sql_value list" where
  "project cols r \<equiv> map (column r) cols"

fun schema_of :: "statement list \<Rightarrow> schema" where
  "schema_of [] t = Map.empty"
| "schema_of (CreateTable u cols ixs # sts) t = (if t = u then map_of cols else schema_of sts t)"
| "schema_of (st # sts) t = schema_of sts t"

text \<open>The values a column keeps as they are: integers in its range, ASCII text not longer than its length,
  numbers, and whole seconds from 1970 to 2038, the range of a MySQL timestamp.\<close>

fun holds :: "column_type \<Rightarrow> sql_value \<Rightarrow> bool" where
  "holds (IntColumn lo hi) (SqlInt n) = (lo \<le> n \<and> n \<le> hi)"
| "holds (TextColumn n) (SqlText s) = (length s \<le> n \<and> (\<forall>b \<in> set s. 0 < b \<and> b < 128))"
| "holds FloatColumn (SqlFloat x) = True"
| "holds TimeColumn (SqlTime t) = (10 ^ 9 dvd t \<and> 0 < t \<and> t < 2 ^ 31 * 10 ^ 9)"
| "holds ty v = False"

definition fits :: "schema \<Rightarrow> string \<Rightarrow> string \<Rightarrow> sql_value \<Rightarrow> bool" where
  "fits sch t c v = (case sch t c of Some ty \<Rightarrow> holds ty v | None \<Rightarrow> False)"

fun shifted :: "int \<Rightarrow> sql_value \<Rightarrow> sql_value" where
  "shifted s (SqlTime t) = SqlTime (t + s)"
| "shifted s v = v"

lemma shifted_uint [simp]: "shifted s (sql_uint w) = sql_uint w"
  by (simp add: sql_uint_def)

fun time_of :: "sql_value \<Rightarrow> go_time" where
  "time_of (SqlTime t) = t"
| "time_of v = 0"

fun time_within :: "go_time \<Rightarrow> go_time \<Rightarrow> sql_value \<Rightarrow> bool" where
  "time_within a b (SqlTime t) = (a \<le> t \<and> t \<le> b)"
| "time_within a b v = False"

text \<open>The row an insertion stores, and the effect of the other statements on the rows of their table.\<close>

definition row_of ::
  "(column_type \<Rightarrow> sql_value \<Rightarrow> sql_value) \<Rightarrow> schema \<Rightarrow> string \<Rightarrow> string list \<Rightarrow> sql_value list \<Rightarrow> row" where
  "row_of store sch t cols vs = map_of (zip cols (map2 (\<lambda>c v. store (the (sch t c)) v) cols vs))"

definition has_key :: "(gostring \<Rightarrow> gostring \<Rightarrow> bool) \<Rightarrow> string \<Rightarrow> gostring \<Rightarrow> row \<Rightarrow> bool" where
  "has_key same key d r = (case column r key of SqlText e \<Rightarrow> same e d | _ \<Rightarrow> False)"

definition upsert_rows :: "(row \<Rightarrow> bool) \<Rightarrow> string list \<Rightarrow> row \<Rightarrow> row \<Rightarrow> row list \<Rightarrow> row list" where
  "upsert_rows m upd defaults row rows =
     (if \<exists>r \<in> set rows. m r then map (\<lambda>r. if m r then r ++ (row |` set upd) else r) rows else rows @ [defaults ++ row])"

definition update_rows :: "(row \<Rightarrow> bool) \<Rightarrow> string \<Rightarrow> sql_value \<Rightarrow> row list \<Rightarrow> row list" where
  "update_rows m c v = map (\<lambda>r. if m r then r(c \<mapsto> v) else r)"

text \<open>Equality of rows up to the columns the server keeps up to date.\<close>

definition same_row :: "schema \<Rightarrow> string \<Rightarrow> row \<Rightarrow> row \<Rightarrow> bool" where
  "same_row sch t r r' \<longleftrightarrow> (\<forall>c. sch t c \<noteq> Some StampColumn \<longrightarrow> column r' c = column r c)"

lemma project_stored:
  assumes "distinct (xs @ cs @ ys)" and "length us = length xs" and "length ws = length cs" and "length vs = length ys"
  shows "project cs (rest ++ map_of (zip (xs @ cs @ ys) (us @ ws @ vs))) = ws"
proof (rule nth_equalityI)
  fix i assume "i < length (project cs (rest ++ map_of (zip (xs @ cs @ ys) (us @ ws @ vs))))"
  then have i: "i < length cs" by simp
  let ?m = "map_of (zip (xs @ cs @ ys) (us @ ws @ vs))"
  from i assms have "?m ((xs @ cs @ ys) ! (length xs + i)) = Some ((us @ ws @ vs) ! (length xs + i))"
    by (intro map_of_zip_nth) simp_all
  then have "?m (cs ! i) = Some (ws ! i)" using i assms by (simp add: nth_append del: zip_append map_of_append)
  then have "column (rest ++ ?m) (cs ! i) = ws ! i" unfolding column_def map_add_def by simp
  with i show "project cs (rest ++ ?m) ! i = ws ! i" by (simp only: nth_map)
qed (use assms in simp)

section \<open>What the code relies on\<close>

text \<open>
  The rows of the tables are \<open>tables\<close>, their types \<open>sch\<close>. \<open>same\<close> is the server's comparison of texts, which need not
  be equality. \<open>store\<close> is what a column keeps of a value: a value it holds is kept, a timestamp up to \<open>shift\<close>, and an
  integer column has nothing out of its range. A MySQL timestamp column keeps the instant (\<open>shift = 0\<close>); a PostgreSQL
  \<^verbatim>\<open>TIMESTAMP\<close> ignores the zone of its input, so that what is read back as UTC is the local clock, the instant
  shifted by the offset of the zone, here a constant. The texts of the answers are those of successful calls:
  nothing is said of a call that fails. \<^verbatim>\<open>ORDER BY\<close> leaves the order of equal times open.
\<close>

locale sql_server =
  fixes sq :: "'db sql_db" and tables :: "'db \<Rightarrow> string \<Rightarrow> row list" and sch :: schema
    and same :: "gostring \<Rightarrow> gostring \<Rightarrow> bool" and shift :: int and store :: "column_type \<Rightarrow> sql_value \<Rightarrow> sql_value"
  assumes same_refl: "same d d"
    and store_holds: "holds ty v \<Longrightarrow> store ty v = shifted shift v"
    and store_range: "store (IntColumn lo hi) v = SqlInt n \<Longrightarrow> lo \<le> n \<and> n \<le> hi"
    and insert_ok: "sq_Exec sq (Insert t cols) vs db = (Ok (), db') \<Longrightarrow>
      \<exists>defaults. tables db' = (tables db)(t := tables db t @ [defaults ++ row_of store sch t cols vs])"
    and upsert_ok: "sq_Exec sq (Upsert t (key # cols) key upd) (SqlText d # vs) db = (Ok (), db') \<Longrightarrow>
      \<exists>defaults. list_all2 (same_row sch t)
        (upsert_rows (has_key same key d) upd defaults (row_of store sch t (key # cols) (SqlText d # vs)) (tables db t))
        (tables db' t)"
    and update_ok: "sq_Exec sq (UpdateKey t c stamps key) [v, SqlText d] db = (Ok (), db') \<Longrightarrow>
      list_all2 (same_row sch t) (update_rows (has_key same key d) c (store (the (sch t c)) v) (tables db t)) (tables db' t)"
    and window_ok: "sq_Query sq (SelectWindow cols t key tc) [SqlText d, SqlTime a, SqlTime b] db = (Ok (rows, None), db') \<Longrightarrow>
      10 ^ 9 dvd a \<Longrightarrow> 10 ^ 9 dvd b \<Longrightarrow>
      \<exists>rs. rows = map (project cols) rs \<and> sorted (map (\<lambda>r. time_of (column r tc)) rs)
        \<and> mset rs = mset (filter (\<lambda>r. has_key same key d r \<and> time_within (a + shift) (b + shift) (column r tc)) (tables db t))"
    and key_ok: "sq_QueryRow sq (SelectKey cols t key) [SqlText d] db = (Ok res, db') \<Longrightarrow>
      res = map_option (project cols) (List.find (has_key same key d) (tables db t))"
begin

lemma row_of_fitting:
  "list_all2 (fits sch t) cols vs \<Longrightarrow> row_of store sch t cols vs = map_of (zip cols (map (shifted shift) vs))"
proof -
  assume *: "list_all2 (fits sch t) cols vs"
  have "map2 (\<lambda>c v. store (the (sch t c)) v) cols vs = map (shifted shift) vs"
    using * by (induction rule: list_all2_induct) (auto simp: fits_def store_holds split: option.splits)
  then show ?thesis by (simp add: row_of_def)
qed

end

section \<open>A table with a key\<close>

lemma same_row_project: "same_row sch t r r' \<Longrightarrow> (\<And>c. c \<in> set cs \<Longrightarrow> sch t c \<noteq> Some StampColumn) \<Longrightarrow> project cs r' = project cs r"
  by (simp add: same_row_def)

lemma fits_not_stamp: "fits sch t c v \<Longrightarrow> sch t c \<noteq> Some StampColumn"
  by (auto simp: fits_def)

lemma list_all2_fits_not_stamp: "list_all2 (fits sch t) cs vs \<Longrightarrow> c \<in> set cs \<Longrightarrow> sch t c \<noteq> Some StampColumn"
  by (auto simp: list_all2_conv_all_nth in_set_conv_nth dest!: fits_not_stamp)

lemma list_all2_set2: "list_all2 R xs ys \<Longrightarrow> y \<in> set ys \<Longrightarrow> \<exists>x \<in> set xs. R x y"
  by (induction rule: list_all2_induct) auto

lemma list_all2_set1: "list_all2 R xs ys \<Longrightarrow> x \<in> set xs \<Longrightarrow> \<exists>y \<in> set ys. R x y"
  by (induction rule: list_all2_induct) auto

context sql_server
begin

text \<open>The rows with the key \<open>d\<close>, and there is one, have the values \<open>vs\<close> in the columns \<open>cs\<close>.\<close>

definition registered :: "string \<Rightarrow> gostring \<Rightarrow> string list \<Rightarrow> sql_value list \<Rightarrow> row list \<Rightarrow> bool" where
  "registered key d cs vs rows \<longleftrightarrow>
     (\<exists>r \<in> set rows. has_key same key d r) \<and> (\<forall>r \<in> set rows. has_key same key d r \<longrightarrow> project cs r = vs)"

definition unregistered :: "string \<Rightarrow> gostring \<Rightarrow> row list \<Rightarrow> bool" where
  "unregistered key d rows \<longleftrightarrow> (\<forall>r \<in> set rows. \<not> has_key same key d r)"

lemma has_key_same_row: "same_row sch t r r' \<Longrightarrow> sch t key \<noteq> Some StampColumn \<Longrightarrow> has_key same key d r' = has_key same key d r"
  by (simp add: same_row_def has_key_def)

lemma registered_same_rows:
  assumes "registered key d cs vs rows" and "list_all2 (same_row sch t) rows rows'"
    and "\<And>c. c \<in> set (key # cs) \<Longrightarrow> sch t c \<noteq> Some StampColumn"
  shows "registered key d cs vs rows'"
  using assms(1) list_all2_set1 [OF assms(2)] list_all2_set2 [OF assms(2)] assms(3)
    has_key_same_row [of t _ _ key d] same_row_project [of sch t _ _ cs]
  unfolding registered_def by (metis list.set_intros)

lemma unregistered_same_rows:
  assumes "unregistered key d rows" and "list_all2 (same_row sch t) rows rows'" and "sch t key \<noteq> Some StampColumn"
  shows "unregistered key d rows'"
  using assms(1) list_all2_set2 [OF assms(2)] has_key_same_row [OF _ assms(3)] unfolding unregistered_def by blast

lemma registered_map:
  "\<exists>r \<in> set rows. has_key same key d r \<Longrightarrow> (\<And>r. has_key same key d (f r) = has_key same key d r) \<Longrightarrow>
    (\<And>r. r \<in> set rows \<Longrightarrow> has_key same key d r \<Longrightarrow> project cs (f r) = vs) \<Longrightarrow> registered key d cs vs (map f rows)"
  by (auto simp: registered_def)

lemma registered_update:
  "registered key d cs vs rows \<Longrightarrow> c \<notin> set (key # cs) \<Longrightarrow> registered key d cs vs (update_rows m c v rows)"
proof -
  assume *: "registered key d cs vs rows" "c \<notin> set (key # cs)"
  have "has_key same key d (r(c \<mapsto> v)) = has_key same key d r" "project cs (r(c \<mapsto> v)) = project cs r" for r
    using *(2) by (auto simp: has_key_def column_def)
  with *(1) show ?thesis
    unfolding update_rows_def by (intro registered_map) (simp_all add: registered_def del: map_eq_conv)
qed

lemma unregistered_update:
  "unregistered key d rows \<Longrightarrow> c \<noteq> key \<Longrightarrow> unregistered key d (update_rows m c v rows)"
  by (auto simp: unregistered_def update_rows_def has_key_def column_def)

lemma upsert_registers:
  assumes "distinct (key # cs @ [st])" and "length ws = length cs"
    and row: "row = map_of (zip (key # cs @ [st]) (SqlText d # ws @ [w]))"
  shows "registered key d cs ws (upsert_rows (has_key same key d) (cs @ [st]) defaults row rows)"
proof -
  have project: "project cs (r ++ row) = ws" for r
    using project_stored [of "[key]" cs "[st]" "[SqlText d]" ws "[w]" r] assms(1,2) unfolding row by simp
  have key: "column (r ++ row) key = SqlText d" for r
    unfolding row column_def by simp
  have old: "column (r ++ (row |` set (cs @ [st]))) key = column r key" for r
    using assms(1) by (simp add: column_def map_add_def restrict_map_def)
  have new: "project cs (r ++ (row |` set (cs @ [st]))) = project cs (r ++ row)" for r
    by (simp add: column_def map_add_def restrict_map_def)
  show ?thesis
  proof (cases "\<exists>r \<in> set rows. has_key same key d r")
    case True
    let ?f = "\<lambda>r. if has_key same key d r then r ++ (row |` set (cs @ [st])) else r"
    have same: "has_key same key d (?f r) = has_key same key d r" for r
      by (cases "has_key same key d r") (simp_all only: if_True if_False, simp_all only: has_key_def old)
    have "project cs (?f r) = ws" if "has_key same key d r" for r
      using that new project by (simp only: if_True)
    with True same have "registered key d cs ws (map ?f rows)" by (intro registered_map)
    with True show ?thesis by (simp only: upsert_rows_def if_True)
  next
    case False
    have "has_key same key d (defaults ++ row)" using key by (simp add: has_key_def same_refl)
    with False project show ?thesis by (simp add: upsert_rows_def registered_def ball_Un bex_Un)
  qed
qed

lemma upsert_others:
  assumes "key \<notin> set upd" and "unregistered key u rows" and "\<not> same d u" and "column (defaults ++ row) key = SqlText d"
  shows "unregistered key u (upsert_rows m upd defaults row rows)"
proof -
  have "has_key same key u (r ++ (row |` set upd)) = has_key same key u r" for r
    using assms(1) by (simp add: has_key_def column_def map_add_def restrict_map_def)
  moreover have "\<not> has_key same key u (defaults ++ row)" using assms(3,4) by (simp add: has_key_def)
  ultimately show ?thesis
    using assms(2) by (auto simp: unregistered_def upsert_rows_def)
qed

lemma find_registered:
  assumes "registered key d cs vs rows"
  shows "map_option (project cs) (List.find (has_key same key d) rows) = Some vs"
proof (cases "List.find (has_key same key d) rows")
  case None
  with assms show ?thesis by (auto simp: registered_def find_None_iff)
next
  case (Some r)
  with assms show ?thesis by (auto simp: registered_def find_Some_iff)
qed

lemma find_unregistered: "unregistered key d rows \<Longrightarrow> List.find (has_key same key d) rows = None"
  by (simp add: unregistered_def find_None_iff)

text \<open>A row is put under a key and one of its columns is updated, under any key: a query by the key reads the
  other columns as they were put, and a key that had no row has none.\<close>

lemma upserted:
  assumes "sq_Exec sq (Upsert t (key # cs @ [st]) key (cs @ [st])) (SqlText d # ws @ [w]) db = (Ok (), db1)"
    and "list_all2 (fits sch t) (key # cs @ [st]) (SqlText d # ws @ [w])" and "distinct (key # cs @ [st])"
    and "sq_Exec sq (UpdateKey t st stamps key) [v, SqlText d'] db1 = (Ok (), db2)"
  shows "registered key d cs (map (shifted shift) ws) (tables db2 t)"
    and "unregistered key u (tables db t) \<Longrightarrow> \<not> same d u \<Longrightarrow> unregistered key u (tables db2 t)"
proof -
  let ?vs = "SqlText d # map (shifted shift) ws @ [shifted shift w]"
  from upsert_ok [OF assms(1)] row_of_fitting [OF assms(2)] obtain defaults where up:
    "list_all2 (same_row sch t) (upsert_rows (has_key same key d) (cs @ [st]) defaults
      (map_of (zip (key # cs @ [st]) ?vs)) (tables db t)) (tables db1 t)"
    by auto
  have len: "length (map (shifted shift) ws) = length cs"
    using list_all2_lengthD [OF assms(2)] by simp
  have stamp: "sch t c \<noteq> Some StampColumn" if "c \<in> set (key # cs)" for c
    using list_all2_fits_not_stamp [OF assms(2), of c] that by auto
  have other: "st \<notin> set (key # cs)" using assms(3) by auto
  show "registered key d cs (map (shifted shift) ws) (tables db2 t)"
    by (rule registered_same_rows [OF registered_update [OF registered_same_rows [OF upsert_registers [OF assms(3) len refl] up stamp]
      other] update_ok [OF assms(4)] stamp])
  show "unregistered key u (tables db2 t)" if "unregistered key u (tables db t)" "\<not> same d u"
    using other assms(3)
    by (intro unregistered_same_rows [OF unregistered_update [OF unregistered_same_rows [OF
      upsert_others [OF _ that] up]] update_ok [OF assms(4)]] stamp) (simp_all add: column_def)
qed

end

section \<open>Tables of reports\<close>

text \<open>A table of reports: its columns after the device, the arguments of a report and how a row is scanned.
  \<open>move\<close> is the report with its time shifted.\<close>

locale report_table = sql_server sq tables sch same shift store
  for sq :: "'db sql_db" and tables sch same shift store +
  fixes t :: string and cols :: "string list" and args :: "'a \<Rightarrow> sql_value list" and scan :: "sql_value list \<Rightarrow> 'a res"
    and time :: "'a \<Rightarrow> go_time" and move :: "'a \<Rightarrow> 'a"
    and save :: "context_values \<Rightarrow> 'a option \<Rightarrow> 'db \<Rightarrow> unit res \<times> 'db"
  assumes scan_args: "scan (args x) = Ok x"
    and args_move: "map (shifted shift) (args x) = args (move x)"
    and columns: "distinct (''device_id'' # cols @ [''report_time''])" "length (args x) = Suc (length cols)"
    and last_arg: "last (args x) = SqlTime (time x)"
    and saves: "d \<noteq> [] \<Longrightarrow> save (device_ctx d) (Some x) db =
      sq_Exec sq (Insert t (''device_id'' # cols @ [''report_time''])) (SqlText d # args x) db"
begin

definition stored_as :: "gostring \<Rightarrow> 'a \<Rightarrow> row \<Rightarrow> bool" where
  "stored_as d x r \<longleftrightarrow> column r ''device_id'' = SqlText d \<and> project (cols @ [''report_time'']) r = args (move x)"

definition keeps :: "gostring \<Rightarrow> 'a \<Rightarrow> bool" where
  "keeps d x = list_all2 (fits sch t) (''device_id'' # cols @ [''report_time'']) (SqlText d # args x)"

lemma stored_time: "stored_as d x r \<Longrightarrow> column r ''report_time'' = SqlTime (time x + shift)"
proof -
  assume r: "stored_as d x r"
  have "args x \<noteq> []" using columns(2) [of x] by auto
  then have "last (args (move x)) = SqlTime (time x + shift)"
    using last_arg by (simp add: args_move [symmetric] last_map)
  with arg_cong [OF r [unfolded stored_as_def, THEN conjunct2], of last] show ?thesis by simp
qed

lemma move_time: "time (move x) = time x + shift"
proof -
  have "args x \<noteq> []" using columns(2) [of x] by auto
  then have "last (args (move x)) = SqlTime (time x + shift)"
    using last_arg by (simp add: args_move [symmetric] last_map)
  with last_arg [of "move x"] show ?thesis by simp
qed

lemma inserted:
  assumes "sq_Exec sq (Insert t (''device_id'' # cols @ [''report_time''])) (SqlText d # args x) db = (Ok (), db')" and "keeps d x"
  shows "\<exists>r. tables db' = (tables db)(t := tables db t @ [r]) \<and> stored_as d x r"
proof -
  obtain defaults where db': "tables db' = (tables db)(t := tables db t @
      [defaults ++ map_of (zip (''device_id'' # cols @ [''report_time'']) (SqlText d # args (move x)))])"
    using insert_ok [OF assms(1)] row_of_fitting [OF assms(2) [unfolded keeps_def]]
    by (auto simp add: args_move)
  have "project (cols @ [''report_time'']) (defaults ++ map_of (zip (''device_id'' # cols @ [''report_time'']) (SqlText d # args (move x))))
      = args (move x)"
    using project_stored [of "[''device_id'']" "cols @ [''report_time'']" "[]" "[SqlText d]" "args (move x)" "[]" defaults]
      columns by simp
  with db' show ?thesis
    by (intro exI [of _ "defaults ++ map_of (zip (''device_id'' # cols @ [''report_time'']) (SqlText d # args (move x)))"])
      (auto simp: stored_as_def column_def)
qed

lemma save_history:
  assumes "run_saves save d xs db = (Ok (), db')" and "d \<noteq> []" and "\<forall>x \<in> set xs. keeps d x"
  shows "\<exists>rows. tables db' t = tables db t @ rows \<and> list_all2 (stored_as d) xs rows"
  using assms(1,3)
proof (induction xs arbitrary: db)
  case (Cons x xs)
  obtain r db1 where r: "save (device_ctx d) (Some x) db = (r, db1)" by fastforce
  with Cons.prems(1) have ok: "r = Ok ()" "run_saves save d xs db1 = (Ok (), db')"
    by (cases r; auto)+
  from r [unfolded ok(1) saves [OF assms(2)]] Cons.prems(2) obtain row where
    "tables db1 t = tables db t @ [row]" "stored_as d x row"
    using inserted [of d x db db1] by auto
  moreover obtain rows where "tables db' t = tables db1 t @ rows" "list_all2 (stored_as d) xs rows"
    using Cons.IH [OF ok(2)] Cons.prems(2) by auto
  ultimately show ?case by (intro exI [of _ "row # rows"]) simp
qed simp

text \<open>A query for an interval finds the reports that were saved in it, by time.\<close>

lemma window:
  assumes "tables db t = old @ news" and "unregistered ''device_id'' d old" and "list_all2 (stored_as d) xs news"
    and "10 ^ 9 dvd a" and "10 ^ 9 dvd b"
    and "sq_Query sq (SelectWindow (cols @ [''report_time'']) t ''device_id'' ''report_time'') [SqlText d, SqlTime a, SqlTime b] db
      = (Ok (rows, None), db')"
  shows "\<exists>found. fst (sql_select (SelectWindow (cols @ [''report_time'']) t ''device_id'' ''report_time'') scan sq d a b db) = Ok found
    \<and> mset found = mset (map move (filter (\<lambda>x. a \<le> time x \<and> time x \<le> b) xs)) \<and> sorted (map time found)"
proof -
  let ?p = "\<lambda>r. has_key same ''device_id'' d r \<and> time_within (a + shift) (b + shift) (column r ''report_time'')"
  let ?read = "\<lambda>r. case scan (project (cols @ [''report_time'']) r) of Ok x \<Rightarrow> x"
  have "filter ?p old = []" using assms(2) by (auto simp: unregistered_def filter_empty_conv)
  with window_ok [OF assms(6,4,5)] obtain rs where rs: "rows = map (project (cols @ [''report_time''])) rs"
    "sorted (map (\<lambda>r. time_of (column r ''report_time'')) rs)" "mset rs = mset (filter ?p news)"
    by (auto simp: assms(1))
  have each: "scan (project (cols @ [''report_time'']) r) = Ok (?read r) \<and> time_of (column r ''report_time'') = time (?read r)"
    if "r \<in> set rs" for r
  proof -
    have "r \<in> set news" using that mset_eq_setD [OF rs(3)] by simp
    from list_all2_set2 [OF assms(3) this] obtain x where x: "stored_as d x r" by blast
    then have "project (cols @ [''report_time'']) r = args (move x)" by (simp add: stored_as_def)
    then show ?thesis using stored_time [OF x] by (simp add: scan_args move_time del: map_append)
  qed
  have "map ?read (filter ?p news) = map move (filter (\<lambda>x. a \<le> time x \<and> time x \<le> b) xs)"
    using assms(3)
  proof (induction rule: list_all2_induct)
    case (Cons x xs r rs)
    then have "project (cols @ [''report_time'']) r = args (move x)" "column r ''device_id'' = SqlText d"
      by (simp_all add: stored_as_def)
    with Cons stored_time [of d x r] show ?case
      by (simp add: scan_args has_key_def same_refl del: map_append)
  qed simp
  moreover have "mset (map ?read rs) = mset (map ?read (filter ?p news))"
    using rs(3) by simp
  moreover have "sorted (map time (map ?read rs))"
    using rs(2) each by (simp cong: map_cong)
  moreover have "fst (sql_select (SelectWindow (cols @ [''report_time'']) t ''device_id'' ''report_time'') scan sq d a b db)
      = Ok (map ?read rs)"
    using assms(6) decode_all_map [of rs scan "project (cols @ [''report_time''])" ?read "[]"] each
    by (simp add: sql_select_def rs(1))
  ultimately show ?thesis by auto
qed

lemma saved_window:
  assumes "run_saves save d xs db = (Ok (), db1)" and "d \<noteq> []" and "\<forall>x \<in> set xs. keeps d x"
    and "unregistered ''device_id'' d (tables db t)" and "10 ^ 9 dvd a" and "10 ^ 9 dvd b"
    and "sq_Query sq (SelectWindow (cols @ [''report_time'']) t ''device_id'' ''report_time'') [SqlText d, SqlTime a, SqlTime b] db1
      = (Ok (rows, None), db2)"
  shows "\<exists>found. fst (sql_select (SelectWindow (cols @ [''report_time'']) t ''device_id'' ''report_time'') scan sq d a b db1) = Ok found
    \<and> mset found = mset (map move (filter (\<lambda>x. a \<le> time x \<and> time x \<le> b) xs)) \<and> sorted (map time found)"
  using save_history [OF assms(1-3)] window [OF _ assms(4) _ assms(5-7)] by blast

end

section \<open>The tables of the two storages\<close>

definition text_fits :: "nat \<Rightarrow> gostring \<Rightarrow> bool" where
  "text_fits n s \<longleftrightarrow> length s \<le> n \<and> (\<forall>b \<in> set s. 0 < b \<and> b < 128)"

definition stamp_fits :: "go_time \<Rightarrow> bool" where
  "stamp_fits t \<longleftrightarrow> 10 ^ 9 dvd t \<and> 0 < t \<and> t < 2 ^ 31 * 10 ^ 9"

definition mysql_schema :: schema where
  "mysql_schema = schema_of mysql_tables"

definition pg_schema :: schema where
  "pg_schema = schema_of pg_tables"

lemma uint_least: "lo \<le> 0 \<Longrightarrow> lo \<le> uint (w :: 'a::len word)"
  using uint_ge_0 [of w] by linarith

lemma uint_greatest: "2 ^ LENGTH('a) \<le> hi + 1 \<Longrightarrow> uint (w :: 'a::len word) \<le> hi"
  using uint_bounded [of w] by linarith

lemma holds_text: "holds (TextColumn n) (SqlText s) = text_fits n s"
  by (simp add: text_fits_def)

lemma holds_stamp: "holds TimeColumn (SqlTime t) = stamp_fits t"
  by (simp add: stamp_fits_def)

lemmas mysql_columns = mysql_schema_def mysql_tables_def mysql_devices_def mysql_locations_def mysql_alarms_def
  mysql_uint_def mysql_int_def mysql_tinyint_def

lemmas pg_columns = pg_schema_def pg_tables_def pg_devices_def pg_locations_def pg_alarms_def
  pg_smallint_def pg_integer_def pg_bigint_def

abbreviation location_columns :: "string list" where
  "location_columns \<equiv> [''alarm_flag'', ''status'', ''latitude'', ''longitude'', ''altitude'', ''speed'', ''direction'']"

abbreviation alarm_columns :: "string list" where
  "alarm_columns \<equiv> [''alarm_flag'', ''status'', ''latitude'', ''longitude'', ''altitude'', ''speed'', ''direction'', ''alarm_type'']"

abbreviation device_columns :: "string list" where
  "device_columns \<equiv> [''province_id'', ''city_id'', ''manufacturer_id'', ''terminal_type'', ''terminal_id'', ''plate_color'', ''plate_no'']"

lemma location_table:
  assumes "sql_server sq tables sch same shift store" and "ins = Insert ''locations'' (''device_id'' # location_columns @ [''report_time''])"
  shows "report_table sq tables sch same shift store ''locations'' location_columns location_args scan_location LR_Time
    (\<lambda>l. l\<lparr>LR_Time := LR_Time l + shift\<rparr>) (sql_SaveLocation ins sq)"
  unfolding report_table_def report_table_axioms_def
  by (intro conjI assms(1)) (simp_all add: location_args_def sql_SaveLocation_def assms(2))

lemma alarm_table:
  assumes "sql_server sq tables sch same shift store" and "ins = Insert ''alarms'' (''device_id'' # alarm_columns @ [''report_time''])"
  shows "report_table sq tables sch same shift store ''alarms'' alarm_columns alarm_args scan_alarm AR_Time
    (\<lambda>a. a\<lparr>AR_Time := AR_Time a + shift\<rparr>) (sql_SaveAlarm ins sq)"
  unfolding report_table_def report_table_axioms_def
  by (intro conjI assms(1)) (simp_all add: alarm_args_def sql_SaveAlarm_def assms(2))

lemma location_keeps:
  assumes "sch = mysql_schema \<or> sch = pg_schema" and "text_fits 64 d" and "stamp_fits (LR_Time l)"
  shows "list_all2 (fits sch ''locations'') (''device_id'' # location_columns @ [''report_time'']) (SqlText d # location_args l)"
  using assms by (elim disjE) (simp_all add: location_args_def fits_def mysql_columns pg_columns holds_text holds_stamp sql_uint_def
    uint_least uint_greatest del: holds.simps(2,4))

lemma alarm_keeps:
  assumes "sch = pg_schema \<or> sch = mysql_schema \<and> AR_AlarmType a < 128" and "text_fits 64 d" and "stamp_fits (AR_Time a)"
  shows "list_all2 (fits sch ''alarms'') (''device_id'' # alarm_columns @ [''report_time'']) (SqlText d # alarm_args a)"
  using assms by (elim disjE conjE) (simp_all add: alarm_args_def fits_def mysql_columns pg_columns holds_text holds_stamp
    uint_least uint_greatest word_less_def sql_uint_def del: holds.simps(2,4))

definition device_fits :: "gostring \<Rightarrow> TerminalRegister \<Rightarrow> bool" where
  "device_fits d r \<longleftrightarrow> text_fits 64 d \<and> text_fits 32 (ManufacturerID r) \<and> text_fits 64 (TerminalType r)
     \<and> text_fits 32 (TerminalID r) \<and> text_fits 32 (PlateNo r)"

lemma device_keeps:
  assumes "sch = pg_schema \<or> sch = mysql_schema \<and> PlateColor r < 128" and "device_fits d r"
  shows "list_all2 (fits sch ''devices'') (''id'' # device_columns @ [''status''])
    (SqlText d # device_args r @ [SqlInt (status_int DeviceStatusOnline)])"
  using assms by (elim disjE conjE) (simp_all add: device_args_def device_fits_def fits_def mysql_columns pg_columns holds_text
    uint_least uint_greatest word_less_def sql_uint_def del: holds.simps(2,4))

section \<open>An in-memory database\<close>

text \<open>A database that refuses what its columns do not hold.\<close>

type_synonym sql_memory = "string \<Rightarrow> row list"

definition mem_store :: "int \<Rightarrow> column_type \<Rightarrow> sql_value \<Rightarrow> sql_value" where
  "mem_store shift ty v = (if holds ty v then shifted shift v else SqlNull)"

definition mem_row :: "schema \<Rightarrow> int \<Rightarrow> string \<Rightarrow> string list \<Rightarrow> sql_value list \<Rightarrow> row" where
  "mem_row sch shift = row_of (mem_store shift) sch"

fun mem_exec :: "schema \<Rightarrow> int \<Rightarrow> statement \<Rightarrow> sql_value list \<Rightarrow> sql_memory \<Rightarrow> unit res \<times> sql_memory" where
  "mem_exec sch shift (Insert t cols) vs db =
     (if list_all2 (fits sch t) cols vs then (Ok (), db(t := db t @ [mem_row sch shift t cols vs])) else (Err (AppError 0), db))"
| "mem_exec sch shift (Upsert t cols key upd) (SqlText d # vs) db =
     (if list_all2 (fits sch t) cols (SqlText d # vs)
      then (Ok (), db(t := upsert_rows (has_key (=) key d) upd Map.empty (mem_row sch shift t cols (SqlText d # vs)) (db t)))
      else (Err (AppError 0), db))"
| "mem_exec sch shift (UpdateKey t c stamps key) [v, SqlText d] db =
     (Ok (), db(t := update_rows (has_key (=) key d) c (mem_store shift (the (sch t c)) v) (db t)))"
| "mem_exec sch shift (CreateTable t cols ixs) vs db = (Ok (), db)"
| "mem_exec sch shift st vs db = (Err (AppError 0), db)"

fun mem_query :: "int \<Rightarrow> statement \<Rightarrow> sql_value list \<Rightarrow> sql_memory \<Rightarrow> (sql_value list list \<times> go_error option) res \<times> sql_memory" where
  "mem_query shift (SelectWindow cols t key tc) [SqlText d, SqlTime a, SqlTime b] db =
     (Ok (map (project cols) (sort_key (\<lambda>r. time_of (column r tc))
        (filter (\<lambda>r. has_key (=) key d r \<and> time_within (a + shift) (b + shift) (column r tc)) (db t))), None), db)"
| "mem_query shift st vs db = (Err (AppError 0), db)"

fun mem_query_row :: "statement \<Rightarrow> sql_value list \<Rightarrow> sql_memory \<Rightarrow> sql_value list option res \<times> sql_memory" where
  "mem_query_row (SelectKey cols t key) [SqlText d] db =
     (Ok (map_option (project cols) (List.find (has_key (=) key d) (db t))), db)"
| "mem_query_row st vs db = (Err (AppError 0), db)"

definition mem_sql :: "schema \<Rightarrow> int \<Rightarrow> sql_memory sql_db" where
  "mem_sql sch shift =
     \<lparr>sq_Ping = (\<lambda>db. (Ok (), db)), sq_Close = (\<lambda>db. (Ok (), db)), sq_Exec = mem_exec sch shift,
      sq_Query = mem_query shift, sq_QueryRow = mem_query_row\<rparr>"

definition empty_sql :: sql_memory where
  "empty_sql = (\<lambda>t. [])"

lemma same_rows_refl: "list_all2 (same_row sch t) rows rows"
  by (rule list_all2_refl) (simp add: same_row_def)

lemma map_add_Map_empty: "Map.empty ++ m = m"
  by simp

interpretation mem: sql_server "mem_sql sch shift" "\<lambda>db. db" sch "(=)" shift "mem_store shift" for sch shift
proof unfold_locales
  show "lo \<le> n \<and> n \<le> hi" if "mem_store shift (IntColumn lo hi) v = SqlInt n" for lo hi v n
    using that by (cases v) (auto simp: mem_store_def split: if_splits)
  show "\<exists>defaults. db' = db(t := db t @ [defaults ++ row_of (mem_store shift) sch t cols vs])"
    if "sq_Exec (mem_sql sch shift) (Insert t cols) vs db = (Ok (), db')" for t cols vs db db'
    using that by (intro exI [of _ Map.empty]) (auto simp: mem_sql_def mem_row_def split: if_splits)
  show "\<exists>defaults. list_all2 (same_row sch t)
      (upsert_rows (has_key (=) key d) upd defaults (row_of (mem_store shift) sch t (key # cols) (SqlText d # vs)) (db t)) (db' t)"
    if "sq_Exec (mem_sql sch shift) (Upsert t (key # cols) key upd) (SqlText d # vs) db = (Ok (), db')" for t key cols upd d vs db db'
    using that by (intro exI [of _ Map.empty]) (auto simp: mem_sql_def mem_row_def same_rows_refl split: if_splits)
qed (auto simp: mem_sql_def mem_store_def same_rows_refl)

interpretation mysql_locs: report_table "mem_sql mysql_schema 0" "\<lambda>db. db" mysql_schema "(=)" 0 "mem_store 0"
  "''locations''" location_columns location_args scan_location LR_Time "\<lambda>l. l\<lparr>LR_Time := LR_Time l + 0\<rparr>"
  "mysql_SaveLocation (mem_sql mysql_schema 0)"
  unfolding mysql_SaveLocation_def
  by (rule location_table [OF mem.sql_server_axioms]) (simp add: mysql_insert_location_def)

interpretation pg_alarms: report_table "mem_sql pg_schema s" "\<lambda>db. db" pg_schema "(=)" s "mem_store s"
  "''alarms''" alarm_columns alarm_args scan_alarm AR_Time "\<lambda>a. a\<lparr>AR_Time := AR_Time a + s\<rparr>"
  "pg_SaveAlarm (mem_sql pg_schema s)" for s
  unfolding pg_SaveAlarm_def
  by (rule alarm_table [OF mem.sql_server_axioms]) (simp add: pg_insert_alarm_def)

section \<open>Properties\<close>

text \<open>A list of reports in the order of their times is the only one with its elements in that order.\<close>

lemma sorted_unique:
  assumes "mset xs = mset ys" and "sorted (map LR_Time xs)" and "sorted_wrt (<) (map LR_Time ys)"
  shows "xs = ys"
proof -
  have sorted: "sorted (map LR_Time ys)" and inj: "inj_on LR_Time (set ys)"
    using assms(3) by (simp_all add: strict_sorted_iff distinct_map)
  have "sort (map LR_Time ys) = map LR_Time xs"
    using assms(1,2) by (intro properties_for_sort) simp_all
  then have "map LR_Time xs = map LR_Time ys"
    using sorted by (simp add: sorted_sort_id)
  then show ?thesis
    using inj mset_eq_setD [OF assms(1)] by (intro map_inj_on [of LR_Time xs ys]) simp_all
qed

text \<open>C13. The MySQL storage keeps the whole history: when reports with the time stamps a MySQL timestamp has are
  saved without error for a device with no rows, a successful query for an interval of whole seconds
  returns exactly those of them that are in the closed interval, each as often as it was saved and every
  field as it was, in the order of their times; so for at most 1000 reports saved in that order the answer
  is the memory storage's.\<close>

theorem mysql_returns_history:
  assumes "sql_server sq tables mysql_schema same 0 store" and "d \<noteq> []" and "text_fits 64 d"
    and "\<forall>r \<in> set (tables db ''locations''). \<not> has_key same ''device_id'' d r"
    and "\<forall>l \<in> set ls. stamp_fits (LR_Time l)"
    and "run_saves (mysql_SaveLocation sq) d ls db = (Ok (), db1)"
    and "10 ^ 9 dvd start" and "10 ^ 9 dvd fin"
    and "sq_Query sq mysql_select_locations [SqlText d, SqlTime start, SqlTime fin] db1 = (Ok (rows, None), db2)"
  shows "\<exists>found. fst (mysql_GetLocations sq d start fin db1) = Ok found
    \<and> mset found = mset (filter (in_window start fin) ls) \<and> sorted (map LR_Time found)
    \<and> (sorted_wrt (<) (map LR_Time ls) \<and> length ls \<le> 1000 \<longrightarrow>
        GetLocations d start fin (memory_saves d ls) = Ok found)"
proof -
  have table: "report_table sq tables mysql_schema same 0 store ''locations'' location_columns location_args scan_location
      LR_Time (\<lambda>l. l\<lparr>LR_Time := LR_Time l + 0\<rparr>) (mysql_SaveLocation sq)"
    unfolding mysql_SaveLocation_def by (rule location_table [OF assms(1)]) (simp add: mysql_insert_location_def)
  have keeps: "\<forall>l \<in> set ls. report_table.keeps mysql_schema ''locations'' location_columns location_args d l"
    using assms(3,5) location_keeps [of mysql_schema d] by (simp only: report_table.keeps_def [OF table]) blast
  have query: "mysql_select_locations
      = SelectWindow (location_columns @ [''report_time'']) ''locations'' ''device_id'' ''report_time''"
    by (simp add: mysql_select_locations_def)
  from report_table.saved_window [OF table assms(6,2) keeps _ assms(7,8) assms(9) [unfolded query]] assms(4)
  obtain found where found: "fst (mysql_GetLocations sq d start fin db1) = Ok found"
    "mset found = mset (filter (in_window start fin) ls)" "sorted (map LR_Time found)"
    by (auto simp: mysql_GetLocations_def query sql_server.unregistered_def [OF assms(1)] in_window_def [abs_def])
  have "found = filter (in_window start fin) ls" if "sorted_wrt (<) (map LR_Time ls)"
    using sorted_unique [OF found(2,3)] that by (simp add: sorted_wrt_map sorted_wrt_filter)
  with found show ?thesis
    by (auto simp: memory_saves_query [OF assms(2)] lastn_all)
qed

definition sample_report :: "int \<Rightarrow> LocationReport" where
  "sample_report n = sample_location (n * 10 ^ 9)"

lemma sample_fits: "0 < n \<Longrightarrow> n < 100 \<Longrightarrow> stamp_fits (LR_Time (sample_report n))"
  by (simp add: stamp_fits_def sample_report_def sample_location_def)

lemma sample_D1 [simp]: "go_str ''D1'' \<noteq> []" "text_fits 64 (go_str ''D1'')"
  by (simp_all add: go_str_def text_fits_def)

lemma mem_saves_location:
  assumes "text_fits 64 d" and "d \<noteq> []" and "stamp_fits (LR_Time l)"
  shows "\<exists>db'. mysql_SaveLocation (mem_sql mysql_schema 0) (device_ctx d) (Some l) db = (Ok (), db')"
  using location_keeps [of mysql_schema d l, OF _ assms(1,3)] assms(2)
  by (simp add: mysql_SaveLocation_def sql_SaveLocation_def mysql_insert_location_def mem_sql_def)

theorem mysql_returns_history_witness:
  "\<exists>db. run_saves (mysql_SaveLocation (mem_sql mysql_schema 0)) (go_str ''D1'')
      [sample_report 10, sample_report 20, sample_report 30] empty_sql = (Ok (), db)
    \<and> fst (mysql_GetLocations (mem_sql mysql_schema 0) (go_str ''D1'') (15 * 10 ^ 9) (30 * 10 ^ 9) db)
      = Ok [sample_report 20, sample_report 30]"
proof -
  let ?d = "go_str ''D1''" and ?ls = "[sample_report 10, sample_report 20, sample_report 30]" and ?sq = "mem_sql mysql_schema 0"
  have fit: "\<forall>l \<in> set ?ls. stamp_fits (LR_Time l)" by (simp add: sample_fits)
  have "\<exists>db. run_saves (mysql_SaveLocation ?sq) ?d ?ls empty_sql = (Ok (), db)"
    using fit by (intro run_saves_Ok mem_saves_location) auto
  then obtain db where saved: "run_saves (mysql_SaveLocation ?sq) ?d ?ls empty_sql = (Ok (), db)" by blast
  have empty: "\<forall>r \<in> set (empty_sql ''locations''). \<not> has_key (=) ''device_id'' ?d r" by (simp add: empty_sql_def)
  have dvd: "(10 :: int) ^ 9 dvd 15 * 10 ^ 9" "(10 :: int) ^ 9 dvd 30 * 10 ^ 9" by simp_all
  obtain rows where q: "sq_Query ?sq mysql_select_locations [SqlText ?d, SqlTime (15 * 10 ^ 9), SqlTime (30 * 10 ^ 9)] db
      = (Ok (rows, None), db)"
    by (simp add: mem_sql_def mysql_select_locations_def)
  have sorted: "sorted_wrt (<) (map LR_Time ?ls)" by (simp add: sample_report_def sample_location_def)
  from mysql_returns_history [OF mem.sql_server_axioms sample_D1 empty fit saved dvd q] sorted
  have "fst (mysql_GetLocations ?sq ?d (15 * 10 ^ 9) (30 * 10 ^ 9) db)
      = GetLocations ?d (15 * 10 ^ 9) (30 * 10 ^ 9) (memory_saves ?d ?ls)"
    by auto
  also have "\<dots> = Ok [sample_report 20, sample_report 30]"
    by (simp add: memory_saves_query lastn_def in_window_def sample_report_def sample_location_def)
  finally show ?thesis using saved by blast
qed

text \<open>C28. Registrations in MySQL: after a successful \<^verbatim>\<open>SaveDevice\<close> of a registration that fits the columns, and an
  update of any device's status, \<^verbatim>\<open>GetDevice\<close> returns the registration with every field as it was saved,
  replacing what was registered under the ID before; a device that no row had stays "device not found"; a
  save of nothing is refused before the database is asked.\<close>

theorem mysql_device_registered:
  assumes "sql_server sq tables mysql_schema same 0 store" and "device_fits d r" and "PlateColor r < 128"
    and "mysql_SaveDevice sq d (Some r) db = (Ok (), db1)"
    and "mysql_UpdateDeviceStatus sq d' ds db1 = (Ok (), db2)"
    and "sq_QueryRow sq mysql_select_device [SqlText d] db2 = (Ok x, db3)"
    and "sq_QueryRow sq mysql_select_device [SqlText u] db2 = (Ok y, db4)"
    and "\<not> same d u" and "\<forall>row \<in> set (tables db ''devices''). \<not> has_key same ''id'' u row"
  shows "fst (mysql_GetDevice sq d db2) = Ok r \<and> fst (mysql_GetDevice sq u db2) = Err (DeviceNotFound u)
    \<and> mysql_SaveDevice sq d None db = (Err DeviceInfoIsNil, db)"
proof -
  have up: "sq_Exec sq (Upsert ''devices'' (''id'' # device_columns @ [''status'']) ''id'' (device_columns @ [''status'']))
      (SqlText d # device_args r @ [SqlInt (status_int DeviceStatusOnline)]) db = (Ok (), db1)"
    using assms(4) by (simp add: mysql_SaveDevice_def sql_SaveDevice_def mysql_upsert_device_def)
  have upd: "sq_Exec sq (UpdateKey ''devices'' ''status'' [] ''id'') [SqlInt (status_int ds), SqlText d'] db1 = (Ok (), db2)"
    using assms(5) by (simp add: mysql_UpdateDeviceStatus_def sql_UpdateDeviceStatus_def mysql_update_status_def)
  have keeps: "list_all2 (fits mysql_schema ''devices'') (''id'' # device_columns @ [''status''])
      (SqlText d # device_args r @ [SqlInt (status_int DeviceStatusOnline)])"
    using assms(2,3) by (intro device_keeps) simp_all
  have distinct: "distinct (''id'' # device_columns @ [''status''])" by simp
  have args: "map (shifted 0) (device_args r) = device_args r" by (simp add: device_args_def)
  note put = sql_server.upserted [OF assms(1) up keeps distinct upd]
  have unregistered_u: "sql_server.unregistered same ''id'' u (tables db2 ''devices'')"
    using put(2) assms(8,9) by (simp add: sql_server.unregistered_def [OF assms(1)])
  have "x = Some (device_args r)"
    using sql_server.key_ok [OF assms(1) assms(6) [unfolded mysql_select_device_def]]
      sql_server.find_registered [OF assms(1) put(1)] by (simp only: args)
  moreover have "y = None"
    using sql_server.key_ok [OF assms(1) assms(7) [unfolded mysql_select_device_def]]
      sql_server.find_unregistered [OF assms(1) unregistered_u] by simp
  ultimately show ?thesis
    using assms(6,7) by (simp add: mysql_GetDevice_def sql_GetDevice_def mysql_SaveDevice_def sql_SaveDevice_def)
qed

theorem mysql_device_registered_witness:
  "\<exists>db1 db2 r. mysql_SaveDevice (mem_sql mysql_schema 0) (go_str ''D1'') (Some r) empty_sql = (Ok (), db1)
     \<and> mysql_UpdateDeviceStatus (mem_sql mysql_schema 0) (go_str ''D1'') DeviceStatusOffline db1 = (Ok (), db2)
     \<and> fst (mysql_GetDevice (mem_sql mysql_schema 0) (go_str ''D1'') db2) = Ok r \<and> CityID r = 100
     \<and> fst (mysql_GetDevice (mem_sql mysql_schema 0) (go_str ''D2'') db2) = Err (DeviceNotFound (go_str ''D2''))"
proof -
  let ?d = "go_str ''D1''" and ?u = "go_str ''D2''" and ?sq = "mem_sql mysql_schema 0"
  have "\<exists>r. (device_fits ?d r \<and> PlateColor r < 128) \<and> CityID r = 100"
    by (rule exI [of _ "\<lparr>ProvinceID = 11, CityID = 100, ManufacturerID = go_str ''MFR01'', TerminalType = [], TerminalID = ?d,
      PlateColor = 2, PlateNo = []\<rparr>"]) (simp add: device_fits_def text_fits_def go_str_def)
  then obtain r where fit: "device_fits ?d r" "PlateColor r < 128" and city: "CityID r = 100" by blast
  have "\<exists>db1. mysql_SaveDevice ?sq ?d (Some r) empty_sql = (Ok (), db1)"
    using device_keeps [of mysql_schema r ?d] fit
    by (simp add: mysql_SaveDevice_def sql_SaveDevice_def mysql_upsert_device_def mem_sql_def)
  then obtain db1 where save: "mysql_SaveDevice ?sq ?d (Some r) empty_sql = (Ok (), db1)" by (rule exE)
  obtain db2 where upd: "mysql_UpdateDeviceStatus ?sq ?d DeviceStatusOffline db1 = (Ok (), db2)"
    by (simp add: mysql_UpdateDeviceStatus_def sql_UpdateDeviceStatus_def mysql_update_status_def mem_sql_def)
  obtain x where x: "sq_QueryRow ?sq mysql_select_device [SqlText ?d] db2 = (Ok x, db2)"
    by (simp add: mem_sql_def mysql_select_device_def)
  obtain y where y: "sq_QueryRow ?sq mysql_select_device [SqlText ?u] db2 = (Ok y, db2)"
    by (simp add: mem_sql_def mysql_select_device_def)
  have other: "\<not> ?d = ?u" "\<forall>row \<in> set (empty_sql ''devices''). \<not> has_key (=) ''id'' ?u row"
    by (simp_all add: go_str_def empty_sql_def)
  have "fst (mysql_GetDevice ?sq ?d db2) = Ok r \<and> fst (mysql_GetDevice ?sq ?u db2) = Err (DeviceNotFound ?u)
    \<and> mysql_SaveDevice ?sq ?d None empty_sql = (Err DeviceInfoIsNil, empty_sql)"
    by (rule mysql_device_registered [where same = "(=)" and tables = "\<lambda>db. db", OF mem.sql_server_axioms fit save upd x y other])
  with save upd city show ?thesis by blast
qed


definition alarm_at :: "int \<Rightarrow> uint8 \<Rightarrow> AlarmReport" where
  "alarm_at n ty = \<lparr>AR_AlarmFlag = 1, AR_Status = 0, AR_Latitude = 0, AR_Longitude = 0, AR_Altitude = 0, AR_Speed = 0,
     AR_Direction = 0, AR_Time = n * 10 ^ 9, AR_AlarmType = ty\<rparr>"

lemma alarm_fits: "0 < n \<Longrightarrow> n < 100 \<Longrightarrow> stamp_fits (AR_Time (alarm_at n ty))"
  by (simp add: stamp_fits_def alarm_at_def)

lemma pg_saves_alarm:
  assumes "text_fits 64 d" and "d \<noteq> []" and "stamp_fits (AR_Time a)"
  shows "\<exists>db'. pg_SaveAlarm (mem_sql pg_schema s) (device_ctx d) (Some a) db = (Ok (), db')"
  using alarm_keeps [of pg_schema a d, OF _ assms(1,3)] assms(2)
  by (simp add: pg_SaveAlarm_def sql_SaveAlarm_def pg_insert_alarm_def mem_sql_def)


text \<open>C39. MySQL's signed \<^verbatim>\<open>TINYINT\<close> column is too narrow for the alarm type, an unsigned byte: whatever is saved
  without error in an empty table, every alarm a successful query returns has a type below 128. So an
  alarm of a type from 128 on is not saved, or changed, or makes the queries fail.\<close>

theorem mysql_alarm_types_below_128:
  assumes "sql_server sq tables mysql_schema same shift store" and "tables db ''alarms'' = []"
    and "run_saves (mysql_SaveAlarm sq) d as db = (Ok (), db1)" and "10 ^ 9 dvd start" and "10 ^ 9 dvd fin"
    and "fst (mysql_GetAlarms sq e start fin db1) = Ok found" and "a \<in> set found"
  shows "AR_AlarmType a < 128"
proof -
  let ?narrow = "\<lambda>rows. \<forall>r \<in> set rows. \<forall>n. column r ''alarm_type'' = SqlInt n \<longrightarrow> n < 128"
  have range: "store (IntColumn (- 128) 127) v = SqlInt n \<Longrightarrow> n < 128" for v n
    using sql_server.store_range [OF assms(1), of "- 128" 127 v n] by simp
  have "?narrow (tables db1 ''alarms'')" if "?narrow (tables db ''alarms'')"
    using assms(3) that
  proof (induction as arbitrary: db)
    case (Cons x xs)
    obtain r db' where r: "mysql_SaveAlarm sq (device_ctx d) (Some x) db = (r, db')" by fastforce
    with Cons.prems(1) have ok: "r = Ok ()" "run_saves (mysql_SaveAlarm sq) d xs db' = (Ok (), db1)" by (cases r; auto)+
    have "d \<noteq> []" using r ok(1) by (auto simp: mysql_SaveAlarm_def sql_SaveAlarm_def)
    with r ok(1) have "sq_Exec sq mysql_insert_alarm (SqlText d # alarm_args x) db = (Ok (), db')"
      by (simp add: mysql_SaveAlarm_def sql_SaveAlarm_def)
    from sql_server.insert_ok [OF assms(1) this [unfolded mysql_insert_alarm_def]] obtain row where
      row: "tables db' ''alarms'' = tables db ''alarms'' @ [row]"
      "column row ''alarm_type'' = store (IntColumn (- 128) 127) (sql_uint (AR_AlarmType x))"
      by (auto simp: row_of_def alarm_args_def column_def mysql_columns)
    have "?narrow (tables db' ''alarms'')" using Cons.prems(2) row range by auto
    with Cons.IH [OF ok(2)] show ?case by blast
  qed simp
  then have narrow: "?narrow (tables db1 ''alarms'')" using assms(2) by simp
  obtain rows db2 where q: "sq_Query sq mysql_select_alarms [SqlText e, SqlTime start, SqlTime fin] db1 = (Ok (rows, None), db2)"
    and decoded: "decode_all scan_alarm rows [] = Ok found"
    using assms(6) by (auto simp: mysql_GetAlarms_def sql_select_def go_bind_Ok_iff split: prod.splits go.splits option.splits)
  from sql_server.window_ok [OF assms(1) q [unfolded mysql_select_alarms_def] assms(4,5)] obtain rs where
    rs: "rows = map (project (alarm_columns @ [''report_time''])) rs" and
    "mset rs = mset (filter (\<lambda>r. has_key same ''device_id'' e r
      \<and> time_within (start + shift) (fin + shift) (column r ''report_time'')) (tables db1 ''alarms''))"
    by auto
  from mset_eq_setD [OF this(2)] have sub: "set rs \<subseteq> set (tables db1 ''alarms'')" by auto
  from decode_all_OkD [OF decoded assms(7)] rs sub obtain r where r: "r \<in> set (tables db1 ''alarms'')"
    "scan_alarm (project (alarm_columns @ [''report_time'']) r) = Ok a" by auto
  then obtain n where n: "column r ''alarm_type'' = SqlInt n" "0 \<le> n" "n < 256" "AR_AlarmType a = word_of_int n"
    by (auto simp: go_bind_Ok_iff scan_uint_def split: sql_value.splits if_splits)
  with narrow r(1) have "n < 128" by blast
  with n show ?thesis by (simp add: word_less_def uint_word_of_int)
qed

theorem mysql_alarm_types_below_128_witness:
  "\<exists>db. run_saves (mysql_SaveAlarm (mem_sql mysql_schema 0)) (go_str ''D1'') [alarm_at 10 127] empty_sql = (Ok (), db)
    \<and> fst (mysql_GetAlarms (mem_sql mysql_schema 0) (go_str ''D1'') 0 (30 * 10 ^ 9) db) = Ok [alarm_at 10 127]
    \<and> AR_AlarmType (alarm_at 10 127) < 128
    \<and> fst (mysql_SaveAlarm (mem_sql mysql_schema 0) (device_ctx (go_str ''D1'')) (Some (alarm_at 10 128)) empty_sql) = Err (AppError 0)"
proof -
  let ?d = "go_str ''D1''" and ?sq = "mem_sql mysql_schema 0" and ?a = "alarm_at 10 127"
  have fits: "list_all2 (fits mysql_schema ''alarms'') (''device_id'' # alarm_columns @ [''report_time'']) (SqlText ?d # alarm_args ?a)"
    by (rule alarm_keeps) (simp_all add: alarm_fits, simp add: alarm_at_def)
  then have "\<exists>db. run_saves (mysql_SaveAlarm ?sq) ?d [?a] empty_sql = (Ok (), db)"
    by (simp add: mysql_SaveAlarm_def sql_SaveAlarm_def mysql_insert_alarm_def mem_sql_def)
  then obtain db where saved: "run_saves (mysql_SaveAlarm ?sq) ?d [?a] empty_sql = (Ok (), db)" by blast
  have table: "report_table ?sq (\<lambda>db. db) mysql_schema (=) 0 (mem_store 0) ''alarms'' alarm_columns alarm_args scan_alarm
      AR_Time (\<lambda>a. a\<lparr>AR_Time := AR_Time a + 0\<rparr>) (mysql_SaveAlarm ?sq)"
    unfolding mysql_SaveAlarm_def by (rule alarm_table [OF mem.sql_server_axioms]) (simp add: mysql_insert_alarm_def)
  have query: "mysql_select_alarms = SelectWindow (alarm_columns @ [''report_time'']) ''alarms'' ''device_id'' ''report_time''"
    by (simp add: mysql_select_alarms_def)
  obtain rows where q: "sq_Query ?sq mysql_select_alarms [SqlText ?d, SqlTime 0, SqlTime (30 * 10 ^ 9)] db = (Ok (rows, None), db)"
    by (simp add: mem_sql_def mysql_select_alarms_def)
  have keeps: "\<forall>a \<in> set [?a]. report_table.keeps mysql_schema ''alarms'' alarm_columns alarm_args ?d a"
    using fits by (simp add: report_table.keeps_def [OF table])
  have dvd: "(10 :: int) ^ 9 dvd 0" "(10 :: int) ^ 9 dvd 30 * 10 ^ 9" by simp_all
  have empty: "sql_server.unregistered (=) ''device_id'' ?d (empty_sql ''alarms'')" "empty_sql ''alarms'' = []"
    by (simp_all add: sql_server.unregistered_def [OF mem.sql_server_axioms] empty_sql_def)
  from report_table.saved_window [OF table saved sample_D1(1) keeps empty(1) dvd q [unfolded query]]
  have found: "fst (mysql_GetAlarms ?sq ?d 0 (30 * 10 ^ 9) db) = Ok [?a]"
    by (auto simp: mysql_GetAlarms_def query alarm_at_def)
  have "AR_AlarmType ?a < 128"
    by (rule mysql_alarm_types_below_128 [where same = "(=)" and tables = "\<lambda>db. db", OF mem.sql_server_axioms empty(2) saved dvd found]) simp
  moreover have "fst (mysql_SaveAlarm ?sq (device_ctx ?d) (Some (alarm_at 10 128)) empty_sql) = Err (AppError 0)"
    by (simp add: mysql_SaveAlarm_def sql_SaveAlarm_def mysql_insert_alarm_def mem_sql_def fits_def alarm_args_def
        mysql_columns alarm_at_def sql_uint_def)
  ultimately show ?thesis using saved found by blast
qed

end
