(* ===== verification/Publishers.thy ===== *)
theory Publishers
  imports StorageBase "HOL-Library.Multiset"
begin

text \<open>
  \<^verbatim>\<open>publisher/kafka\<close>, \<^verbatim>\<open>publisher/redis\<close> and \<^verbatim>\<open>publisher/rabbitmq\<close>: publishing at once and in the background, and
  the loops of the subscribers. The client libraries are parameters: records of their operations over the
  state \<open>'b\<close> of the broker, with what the code relies on as the locales \<open>kafka_broker\<close> and \<open>amqp_broker\<close>, each interpreted
  by an in-memory broker. What a select or a read sees next is an input: a subscriber's loop runs over the
  list of what it receives, and has not returned (\<open>None\<close>) when the list ends.
\<close>

section \<open>Publishing in the background\<close>

text \<open>\<^verbatim>\<open>PublishAsync\<close>, the same in the three files, copies the caller's slice and leaves the publication to a
  goroutine. The caller's slices are memory that the caller may overwrite; \<open>aw_pending\<close> are the goroutines that
  have not run.\<close>

record 'b async_world =
  aw_slice :: "nat \<Rightarrow> byte list"
  aw_pending :: "(gostring \<times> byte list) list"
  aw_broker :: 'b

definition PublishAsync :: "go_error option \<Rightarrow> gostring \<Rightarrow> nat \<Rightarrow> 'b async_world \<Rightarrow> unit res \<times> 'b async_world" where
  "PublishAsync ctx_err topic message w =
     (case ctx_err of
        Some e \<Rightarrow> (Err e, w)
      | None \<Rightarrow> (Ok (), w\<lparr>aw_pending := aw_pending w @ [(topic, aw_slice w message)]\<rparr>))"

datatype async_action =
    AsyncCall "go_error option" gostring nat
  | CallerWrites nat "byte list"
  | GoroutineRuns nat

fun async_event :: "(gostring \<Rightarrow> byte list \<Rightarrow> 'b \<Rightarrow> unit res \<times> 'b) \<Rightarrow> async_action \<Rightarrow> 'b async_world
    \<Rightarrow> (gostring \<times> byte list) list \<times> 'b async_world" where
  "async_event publish (AsyncCall ctx_err topic m) w = ([], snd (PublishAsync ctx_err topic m w))"
| "async_event publish (CallerWrites m bs) w = ([], w\<lparr>aw_slice := (aw_slice w)(m := bs)\<rparr>)"
| "async_event publish (GoroutineRuns i) w =
     (if i < length (aw_pending w)
      then (let (topic, bs) = aw_pending w ! i
            in ([(topic, bs)],
                w\<lparr>aw_pending := take i (aw_pending w) @ drop (Suc i) (aw_pending w),
                  aw_broker := snd (publish topic bs (aw_broker w))\<rparr>))
      else ([], w))"

text \<open>The publications of a run, in their order.\<close>

fun async_run :: "(gostring \<Rightarrow> byte list \<Rightarrow> 'b \<Rightarrow> unit res \<times> 'b) \<Rightarrow> async_action list \<Rightarrow> 'b async_world
    \<Rightarrow> (gostring \<times> byte list) list \<times> 'b async_world" where
  "async_run publish [] w = ([], w)"
| "async_run publish (e # es) w =
     (let (ps, w1) = async_event publish e w; (qs, w2) = async_run publish es w1 in (ps @ qs, w2))"

text \<open>What the slices hold when each call that is not refused is made.\<close>

fun contents_at_call :: "(nat \<Rightarrow> byte list) \<Rightarrow> async_action list \<Rightarrow> (gostring \<times> byte list) list" where
  "contents_at_call sl [] = []"
| "contents_at_call sl (AsyncCall None topic m # es) = (topic, sl m) # contents_at_call sl es"
| "contents_at_call sl (CallerWrites m bs # es) = contents_at_call (sl(m := bs)) es"
| "contents_at_call sl (e # es) = contents_at_call sl es"

lemma mset_take_drop:
  assumes "i < length xs"
  shows "mset xs = add_mset (xs ! i) (mset (take i xs @ drop (Suc i) xs))"
proof -
  have "mset xs = mset (take i xs @ xs ! i # drop (Suc i) xs)"
    using id_take_nth_drop [OF assms] by simp
  then show ?thesis by simp
qed

lemma async_run_mset:
  "mset (fst (async_run publish es w)) + mset (aw_pending (snd (async_run publish es w)))
   = mset (aw_pending w) + mset (contents_at_call (aw_slice w) es)"
proof (induction es arbitrary: w)
  case (Cons e es)
  show ?case
  proof (cases e)
    case (AsyncCall ctx_err topic m)
    with Cons [of "snd (PublishAsync ctx_err topic m w)"] show ?thesis
      by (cases ctx_err) (simp_all add: PublishAsync_def split: prod.splits)
  next
    case (CallerWrites m bs)
    with Cons [of "w\<lparr>aw_slice := (aw_slice w)(m := bs)\<rparr>"] show ?thesis
      by (simp add: fun_upd_def split: prod.splits)
  next
    case (GoroutineRuns i)
    obtain topic bs where call: "aw_pending w ! i = (topic, bs)" by fastforce
    show ?thesis
    proof (cases "i < length (aw_pending w)")
      case True
      with GoroutineRuns call Cons [of "w\<lparr>aw_pending := take i (aw_pending w) @ drop (Suc i) (aw_pending w),
        aw_broker := snd (publish topic bs (aw_broker w))\<rparr>"] mset_take_drop [OF True] show ?thesis
        by (simp add: case_prod_beta Let_def)
    qed (use GoroutineRuns Cons [of w] in \<open>simp split: prod.splits\<close>)
  qed
qed simp

section \<open>Delivering to a handler\<close>

text \<open>A handler returns or panics. The handler given to \<^verbatim>\<open>Subscribe\<close> has precedence over the one given to
  \<^verbatim>\<open>NewSubscriber\<close>; with neither the message is dropped.\<close>

type_synonym 's sub_handler = "byte list \<Rightarrow> 's \<Rightarrow> unit res \<times> 's"

definition deliver :: "'s sub_handler option \<Rightarrow> 's sub_handler option \<Rightarrow> 's sub_handler" where
  "deliver handler own body st =
     (case handler of
        Some h \<Rightarrow> h body st
      | None \<Rightarrow> (case own of Some h \<Rightarrow> h body st | None \<Rightarrow> (Ok (), st)))"

datatype 'm sub_event = CtxDone | ChanClosed | Received 'm

section \<open>Kafka\<close>

record kafka_message =
  km_Topic :: gostring
  km_Key :: gostring
  km_Value :: "byte list"

record KafkaConfig =
  kc_Brokers :: "gostring list"
  kc_Topic :: gostring
  kc_GroupID :: gostring

text \<open>A writer is its topic; \<open>write\<close> is \<^verbatim>\<open>WriteMessages\<close> of a writer with a topic.\<close>

type_synonym 'b kafka_write = "gostring \<Rightarrow> kafka_message \<Rightarrow> 'b \<Rightarrow> unit res \<times> 'b"

record KafkaPublisher =
  kp_Brokers :: "gostring list"
  kp_Topic :: gostring
  kp_BatchTimeout :: go_duration
  kp_BatchSize :: int

definition kafka_NewPublisher :: "KafkaConfig \<Rightarrow> KafkaPublisher" where
  "kafka_NewPublisher c =
     \<lparr>kp_Brokers = kc_Brokers c, kp_Topic = kc_Topic c, kp_BatchTimeout = 10 * 10 ^ 6, kp_BatchSize = 100\<rparr>"

definition kafka_Publish ::
  "'b kafka_write \<Rightarrow> KafkaPublisher \<Rightarrow> go_time \<Rightarrow> gostring \<Rightarrow> byte list \<Rightarrow> 'b \<Rightarrow> unit res \<times> 'b" where
  "kafka_Publish write_messages p now topic message b =
     (let msg = \<lparr>km_Topic = [], km_Key = sprintf_d now, km_Value = message\<rparr>;
          msg1 = (if topic \<noteq> [] then msg\<lparr>km_Topic := topic\<rparr> else msg)
      in write_messages (kp_Topic p) msg1 b)"

text \<open>A subscriber: its reader's configuration and its handler. The reader starts at the last offset.\<close>

record 's KafkaSubscriber =
  ks_Brokers :: "gostring list"
  ks_Topic :: gostring
  ks_GroupID :: gostring
  ks_MinBytes :: int
  ks_MaxBytes :: int
  ks_CommitInterval :: go_duration
  ks_LastOffset :: bool
  ks_handler :: "'s sub_handler option"

definition kafka_NewSubscriber :: "KafkaConfig \<Rightarrow> 's sub_handler option \<Rightarrow> 's KafkaSubscriber" where
  "kafka_NewSubscriber c handler =
     \<lparr>ks_Brokers = kc_Brokers c, ks_Topic = kc_Topic c, ks_GroupID = kc_GroupID c, ks_MinBytes = 10000,
      ks_MaxBytes = 10000000, ks_CommitInterval = 10 ^ 9, ks_LastOffset = True, ks_handler = handler\<rparr>"

text \<open>The results of \<^verbatim>\<open>ReadMessage\<close> until its first error end the loop; the topic is not used.\<close>

fun kafka_loop :: "'s sub_handler option \<Rightarrow> 's sub_handler option \<Rightarrow> byte list res list \<Rightarrow> 's \<Rightarrow> unit res option \<times> 's" where
  "kafka_loop handler own [] st = (None, st)"
| "kafka_loop handler own (Err e # rs) st = (Some (Err e), st)"
| "kafka_loop handler own (Panic p # rs) st = (Some (Panic p), st)"
| "kafka_loop handler own (Ok m # rs) st =
     (case deliver handler own m st of
        (Ok _, st1) \<Rightarrow> kafka_loop handler own rs st1
      | (r, st1) \<Rightarrow> (Some r, st1))"

definition kafka_Subscribe ::
  "'s KafkaSubscriber \<Rightarrow> gostring \<Rightarrow> 's sub_handler option \<Rightarrow> byte list res list \<Rightarrow> 's \<Rightarrow> unit res option \<times> 's" where
  "kafka_Subscribe s topic handler = kafka_loop handler (ks_handler s)"

section \<open>Redis\<close>

record 'b pubsub_client =
  pc_Ping :: "'b \<Rightarrow> unit res \<times> 'b"
  pc_Publish :: "gostring \<Rightarrow> byte list \<Rightarrow> 'b \<Rightarrow> unit res \<times> 'b"
  pc_Subscribe :: "gostring \<Rightarrow> 'b \<Rightarrow> nat \<times> 'b"
  pc_Receive :: "nat \<Rightarrow> 'b \<Rightarrow> unit res \<times> 'b"
  pc_Unsubscribe :: "nat \<Rightarrow> gostring \<Rightarrow> 'b \<Rightarrow> unit res \<times> 'b"
  pc_PubSubClose :: "nat \<Rightarrow> 'b \<Rightarrow> unit res \<times> 'b"
  pc_Close :: "'b \<Rightarrow> unit res \<times> 'b"

definition redis_NewPublisher :: "(go_error \<Rightarrow> go_error) \<Rightarrow> 'b pubsub_client \<Rightarrow> 'b \<Rightarrow> 'b pubsub_client res \<times> 'b" where
  "redis_NewPublisher wrap cl b =
     (case pc_Ping cl b of
        (Err e, b1) \<Rightarrow> (Err (wrap e), snd (pc_Close cl b1))
      | (Panic p, b1) \<Rightarrow> (Panic p, b1)
      | (Ok _, b1) \<Rightarrow> (Ok cl, b1))"

definition redis_Publish :: "'b pubsub_client \<Rightarrow> gostring \<Rightarrow> byte list \<Rightarrow> 'b \<Rightarrow> unit res \<times> 'b" where
  "redis_Publish cl topic message b = pc_Publish cl topic message b"

record 's RedisSubscriber =
  rs_pubsub :: "nat option"
  rs_handler :: "'s sub_handler option"

definition redis_NewSubscriber ::
  "(go_error \<Rightarrow> go_error) \<Rightarrow> 'b pubsub_client \<Rightarrow> 's sub_handler option \<Rightarrow> 'b \<Rightarrow> 's RedisSubscriber res \<times> 'b" where
  "redis_NewSubscriber wrap cl handler b =
     (case pc_Ping cl b of
        (Err e, b1) \<Rightarrow> (Err (wrap e), snd (pc_Close cl b1))
      | (Panic p, b1) \<Rightarrow> (Panic p, b1)
      | (Ok _, b1) \<Rightarrow> (Ok \<lparr>rs_pubsub = None, rs_handler = handler\<rparr>, b1))"

fun redis_loop :: "'s sub_handler option \<Rightarrow> 's sub_handler option \<Rightarrow> byte list sub_event list \<Rightarrow> 's \<Rightarrow> unit res option \<times> 's" where
  "redis_loop handler own [] st = (None, st)"
| "redis_loop handler own (CtxDone # es) st = (Some (Ok ()), st)"
| "redis_loop handler own (ChanClosed # es) st = (Some (Ok ()), st)"
| "redis_loop handler own (Received m # es) st =
     (case deliver handler own m st of
        (Ok _, st1) \<Rightarrow> redis_loop handler own es st1
      | (r, st1) \<Rightarrow> (Some r, st1))"

text \<open>The deferred \<^verbatim>\<open>pubsub.Close\<close> runs however \<^verbatim>\<open>Subscribe\<close> ends.\<close>

definition redis_Subscribe ::
  "(go_error \<Rightarrow> go_error) \<Rightarrow> 'b pubsub_client \<Rightarrow> gostring \<Rightarrow> 's sub_handler option \<Rightarrow> byte list sub_event list \<Rightarrow>
    's RedisSubscriber \<times> 'b \<times> 's \<Rightarrow> unit res option \<times> ('s RedisSubscriber \<times> 'b \<times> 's)" where
  "redis_Subscribe wrap cl topic handler es = (\<lambda>(s, b, st).
     (let (ps, b1) = pc_Subscribe cl topic b; s1 = s\<lparr>rs_pubsub := Some ps\<rparr>
      in case pc_Receive cl ps b1 of
           (Err e, b2) \<Rightarrow> (Some (Err (wrap e)), s1, snd (pc_PubSubClose cl ps b2), st)
         | (Panic p, b2) \<Rightarrow> (Some (Panic p), s1, snd (pc_PubSubClose cl ps b2), st)
         | (Ok _, b2) \<Rightarrow>
             (case redis_loop handler (rs_handler s) es st of
                (None, st1) \<Rightarrow> (None, s1, b2, st1)
              | (Some r, st1) \<Rightarrow> (Some r, s1, snd (pc_PubSubClose cl ps b2), st1))))"

definition redis_Unsubscribe :: "'b pubsub_client \<Rightarrow> gostring \<Rightarrow> 's RedisSubscriber \<Rightarrow> 'b \<Rightarrow> unit res \<times> 'b" where
  "redis_Unsubscribe cl topic s b =
     (case rs_pubsub s of Some ps \<Rightarrow> pc_Unsubscribe cl ps topic b | None \<Rightarrow> (Ok (), b))"

definition redis_Close :: "'b pubsub_client \<Rightarrow> 's RedisSubscriber \<Rightarrow> 'b \<Rightarrow> unit res \<times> 'b" where
  "redis_Close cl s b =
     pc_Close cl (case rs_pubsub s of Some ps \<Rightarrow> snd (pc_PubSubClose cl ps b) | None \<Rightarrow> b)"

section \<open>RabbitMQ\<close>

record RabbitConfig =
  rb_Host :: gostring
  rb_Port :: int
  rb_User :: gostring
  rb_Password :: gostring
  rb_VHost :: gostring

definition rabbit_url :: "RabbitConfig \<Rightarrow> gostring" where
  "rabbit_url c = go_str ''amqp://'' @ rb_User c @ go_str '':'' @ rb_Password c @ go_str ''@'' @ rb_Host c
     @ go_str '':'' @ sprintf_d (rb_Port c) @ go_str ''/'' @ rb_VHost c"

text \<open>A delivery is its body and its tag. \<open>am_QueueDeclare\<close> is the declaration of a durable queue, the only one the code
  makes, and \<open>am_Publish\<close> the publication of a persistent message to the default exchange.\<close>

record delivery =
  dl_Body :: "byte list"
  dl_Tag :: nat

record 'b amqp_client =
  am_Dial :: "gostring \<Rightarrow> 'b \<Rightarrow> unit res \<times> 'b"
  am_Channel :: "'b \<Rightarrow> unit res \<times> 'b"
  am_QueueDeclare :: "gostring \<Rightarrow> 'b \<Rightarrow> unit res \<times> 'b"
  am_Publish :: "gostring \<Rightarrow> byte list \<Rightarrow> 'b \<Rightarrow> unit res \<times> 'b"
  am_Consume :: "gostring \<Rightarrow> gostring \<Rightarrow> 'b \<Rightarrow> unit res \<times> 'b"
  am_Ack :: "nat \<Rightarrow> 'b \<Rightarrow> unit res \<times> 'b"
  am_Cancel :: "gostring \<Rightarrow> 'b \<Rightarrow> unit res \<times> 'b"
  am_ChannelClose :: "'b \<Rightarrow> unit res \<times> 'b"
  am_ConnClose :: "'b \<Rightarrow> unit res \<times> 'b"

text \<open>A connection and a channel, as both constructors open them: no connection is left open when the channel
  cannot be.\<close>

definition rabbit_open :: "(go_error \<Rightarrow> go_error) \<Rightarrow> 'b amqp_client \<Rightarrow> RabbitConfig \<Rightarrow> 'b \<Rightarrow> unit res \<times> 'b" where
  "rabbit_open wrap cl c b =
     (case am_Dial cl (rabbit_url c) b of
        (Err e, b1) \<Rightarrow> (Err (wrap e), b1)
      | (Panic p, b1) \<Rightarrow> (Panic p, b1)
      | (Ok _, b1) \<Rightarrow>
          (case am_Channel cl b1 of
             (Err e, b2) \<Rightarrow> (Err (wrap e), snd (am_ConnClose cl b2))
           | (Panic p, b2) \<Rightarrow> (Panic p, b2)
           | (Ok _, b2) \<Rightarrow> (Ok (), b2)))"

definition rabbit_NewPublisher ::
  "(go_error \<Rightarrow> go_error) \<Rightarrow> 'b amqp_client \<Rightarrow> RabbitConfig \<Rightarrow> 'b \<Rightarrow> 'b amqp_client res \<times> 'b" where
  "rabbit_NewPublisher wrap cl c b = (let (r, b1) = rabbit_open wrap cl c b in (go_bind r (\<lambda>_. Ok cl), b1))"

definition rabbit_Publish ::
  "(go_error \<Rightarrow> go_error) \<Rightarrow> 'b amqp_client \<Rightarrow> gostring \<Rightarrow> byte list \<Rightarrow> 'b \<Rightarrow> unit res \<times> 'b" where
  "rabbit_Publish wrap cl topic message b =
     (case am_QueueDeclare cl topic b of
        (Err e, b1) \<Rightarrow> (Err (wrap e), b1)
      | (Panic p, b1) \<Rightarrow> (Panic p, b1)
      | (Ok _, b1) \<Rightarrow> am_Publish cl topic message b1)"

text \<open>\<^verbatim>\<open>Close\<close> of both: the channel, then the connection, whose error is returned.\<close>

definition rabbit_Close :: "'b amqp_client \<Rightarrow> 'b \<Rightarrow> unit res \<times> 'b" where
  "rabbit_Close cl b = am_ConnClose cl (snd (am_ChannelClose cl b))"

record 's RabbitSubscriber =
  rq_handler :: "'s sub_handler option"
  rq_consumerTag :: gostring

definition rabbit_NewSubscriber ::
  "(go_error \<Rightarrow> go_error) \<Rightarrow> 'b amqp_client \<Rightarrow> RabbitConfig \<Rightarrow> 's sub_handler option \<Rightarrow> 'b \<Rightarrow> 's RabbitSubscriber res \<times> 'b" where
  "rabbit_NewSubscriber wrap cl c handler b =
     (let (r, b1) = rabbit_open wrap cl c b in (go_bind r (\<lambda>_. Ok \<lparr>rq_handler = handler, rq_consumerTag = []\<rparr>), b1))"

text \<open>Each delivery goes to the handler and is then acknowledged; an acknowledgement that fails ends the loop.\<close>

fun rabbit_loop ::
  "(go_error \<Rightarrow> go_error) \<Rightarrow> 'b amqp_client \<Rightarrow> 's sub_handler option \<Rightarrow> 's sub_handler option \<Rightarrow>
    delivery sub_event list \<Rightarrow> 'b \<Rightarrow> 's \<Rightarrow> unit res option \<times> 'b \<times> 's" where
  "rabbit_loop wrap cl handler own [] b st = (None, b, st)"
| "rabbit_loop wrap cl handler own (CtxDone # es) b st = (Some (Ok ()), b, st)"
| "rabbit_loop wrap cl handler own (ChanClosed # es) b st = (Some (Ok ()), b, st)"
| "rabbit_loop wrap cl handler own (Received d # es) b st =
     (case deliver handler own (dl_Body d) st of
        (Ok _, st1) \<Rightarrow>
          (case am_Ack cl (dl_Tag d) b of
             (Ok _, b1) \<Rightarrow> rabbit_loop wrap cl handler own es b1 st1
           | (Err e, b1) \<Rightarrow> (Some (Err (wrap e)), b1, st1)
           | (Panic p, b1) \<Rightarrow> (Some (Panic p), b1, st1))
      | (r, st1) \<Rightarrow> (Some r, b, st1))"

text \<open>\<open>tag\<close> is the consumer tag a subscriber without one makes up from its address.\<close>

definition rabbit_Subscribe ::
  "(go_error \<Rightarrow> go_error) \<Rightarrow> 'b amqp_client \<Rightarrow> gostring \<Rightarrow> gostring \<Rightarrow> 's sub_handler option \<Rightarrow> delivery sub_event list \<Rightarrow>
    's RabbitSubscriber \<times> 'b \<times> 's \<Rightarrow> unit res option \<times> ('s RabbitSubscriber \<times> 'b \<times> 's)" where
  "rabbit_Subscribe wrap cl tag topic handler es = (\<lambda>(s, b, st).
     (case am_QueueDeclare cl topic b of
        (Err e, b1) \<Rightarrow> (Some (Err (wrap e)), s, b1, st)
      | (Panic p, b1) \<Rightarrow> (Some (Panic p), s, b1, st)
      | (Ok _, b1) \<Rightarrow>
          (let s1 = (if rq_consumerTag s = [] then s\<lparr>rq_consumerTag := tag\<rparr> else s)
           in case am_Consume cl topic (rq_consumerTag s1) b1 of
                (Err e, b2) \<Rightarrow> (Some (Err (wrap e)), s1, b2, st)
              | (Panic p, b2) \<Rightarrow> (Some (Panic p), s1, b2, st)
              | (Ok _, b2) \<Rightarrow>
                  (let (r, b3, st1) = rabbit_loop wrap cl handler (rq_handler s) es b2 st in (r, s1, b3, st1)))))"

definition rabbit_Unsubscribe :: "'b amqp_client \<Rightarrow> 's RabbitSubscriber \<Rightarrow> 'b \<Rightarrow> unit res \<times> 'b" where
  "rabbit_Unsubscribe cl s b = (if rq_consumerTag s = [] then (Ok (), b) else am_Cancel cl (rq_consumerTag s) b)"

section \<open>Brokers\<close>

text \<open>What the Kafka client documents of \<^verbatim>\<open>WriteMessages\<close>: the topic is either the writer's or the message's, and a
  message is refused when both or neither is set. \<open>topics\<close> are the values of the messages of each topic.\<close>

locale kafka_broker =
  fixes write_messages :: "'b kafka_write" and topics :: "'b \<Rightarrow> gostring \<Rightarrow> byte list list"
  assumes both_topics: "wt \<noteq> [] \<Longrightarrow> km_Topic m \<noteq> [] \<Longrightarrow> \<exists>e. write_messages wt m b = (Err e, b)"
    and no_topic: "wt = [] \<Longrightarrow> km_Topic m = [] \<Longrightarrow> \<exists>e. write_messages wt m b = (Err e, b)"
    and written: "write_messages wt m b = (Ok (), b') \<Longrightarrow> t = (if wt = [] then km_Topic m else wt) \<Longrightarrow>
      topics b' = (topics b)(t := topics b t @ [km_Value m])"
begin

lemma publish_conflict:
  "kp_Topic p \<noteq> [] \<longleftrightarrow> topic \<noteq> [] \<Longrightarrow> \<exists>e. kafka_Publish write_messages p now topic message b = (Err e, b)"
  by (cases "topic = []") (simp_all add: kafka_Publish_def both_topics no_topic)

lemma publish_ok:
  assumes "kafka_Publish write_messages p now topic message b = (Ok (), b')"
  shows "topics b' = (topics b)(kp_Topic p @ topic := topics b (kp_Topic p @ topic) @ [message])"
    and "kp_Topic p = [] \<longleftrightarrow> topic \<noteq> []"
proof -
  show excl: "kp_Topic p = [] \<longleftrightarrow> topic \<noteq> []"
    using publish_conflict [of p topic now message b] assms by fastforce
  obtain m where "write_messages (kp_Topic p) m b = (Ok (), b')" "km_Topic m = topic" "km_Value m = message"
    using assms by (cases "topic = []") (auto simp: kafka_Publish_def)
  with written [of "kp_Topic p" m b b' "kp_Topic p @ topic"] excl
  show "topics b' = (topics b)(kp_Topic p @ topic := topics b (kp_Topic p @ topic) @ [message])"
    by (cases "topic = []") simp_all
qed

end

text \<open>What the code relies on of an AMQP broker: the default exchange puts a message in the queue its routing key
  names, and drops it without an error when there is no such queue.\<close>

locale amqp_broker =
  fixes cl :: "'b amqp_client" and queues :: "'b \<Rightarrow> gostring \<Rightarrow> byte list list option"
  assumes declared: "am_QueueDeclare cl q b = (Ok (), b') \<Longrightarrow>
      queues b' = (queues b)(q \<mapsto> (case queues b q of Some ms \<Rightarrow> ms | None \<Rightarrow> []))"
    and declare_failed: "am_QueueDeclare cl q b = (Err e, b') \<Longrightarrow> queues b' = queues b"
    and routed: "am_Publish cl q m b = (Ok (), b') \<Longrightarrow> queues b q = Some ms \<Longrightarrow> queues b' = (queues b)(q \<mapsto> ms @ [m])"
    and dropped: "queues b q = None \<Longrightarrow> queues (snd (am_Publish cl q m b)) = queues b"
begin

lemma publish_ok:
  assumes "rabbit_Publish wrap cl topic message b = (Ok (), b')"
  shows "queues b' = (queues b)(topic \<mapsto> (case queues b topic of Some ms \<Rightarrow> ms | None \<Rightarrow> []) @ [message])"
proof -
  obtain b1 where b1: "am_QueueDeclare cl topic b = (Ok (), b1)" "am_Publish cl topic message b1 = (Ok (), b')"
    using assms by (auto simp: rabbit_Publish_def split: prod.splits go.splits)
  with declared [OF b1(1)] routed [OF b1(2)] show ?thesis by simp
qed

end

text \<open>In-memory brokers.\<close>

definition mem_write :: "(gostring \<Rightarrow> byte list list) kafka_write" where
  "mem_write wt m b =
     (if (wt = []) = (km_Topic m = []) then (Err (AppError 0), b)
      else (let t = (if wt = [] then km_Topic m else wt) in (Ok (), b(t := b t @ [km_Value m]))))"

interpretation mem_kafka: kafka_broker mem_write "\<lambda>b. b"
  by unfold_locales (auto simp: mem_write_def Let_def split: if_splits)

definition mem_amqp :: "(gostring \<Rightarrow> byte list list option) amqp_client" where
  "mem_amqp =
     \<lparr>am_Dial = (\<lambda>u b. (Ok (), b)), am_Channel = (\<lambda>b. (Ok (), b)),
      am_QueueDeclare = (\<lambda>q b. (Ok (), b(q \<mapsto> (case b q of Some ms \<Rightarrow> ms | None \<Rightarrow> [])))),
      am_Publish = (\<lambda>q m b. (Ok (), case b q of Some ms \<Rightarrow> b(q \<mapsto> ms @ [m]) | None \<Rightarrow> b)),
      am_Consume = (\<lambda>q t b. (Ok (), b)), am_Ack = (\<lambda>n b. (Ok (), b)), am_Cancel = (\<lambda>t b. (Ok (), b)),
      am_ChannelClose = (\<lambda>b. (Ok (), b)), am_ConnClose = (\<lambda>b. (Ok (), b))\<rparr>"

interpretation mem_amqp: amqp_broker mem_amqp "\<lambda>b. b"
  by unfold_locales (auto simp: mem_amqp_def)

section \<open>Properties\<close>

text \<open>\<^verbatim>\<open>PublishAsync\<close> publishes what the slice held when it was called: whatever the caller writes into its slices
  afterwards and however late and in whatever order the goroutines run, the publications made and still
  pending are, each once, the contents at the calls that were not refused; a call with a cancelled context
  is refused and publishes nothing.\<close>

theorem PublishAsync_snapshot:
  "mset (fst (async_run publish es \<lparr>aw_slice = sl, aw_pending = [], aw_broker = b\<rparr>))
     + mset (aw_pending (snd (async_run publish es \<lparr>aw_slice = sl, aw_pending = [], aw_broker = b\<rparr>)))
   = mset (contents_at_call sl es)
   \<and> PublishAsync (Some e) topic m w = (Err e, w)"
  by (simp add: async_run_mset PublishAsync_def)

text \<open>Kafka: a publication succeeds only when exactly one of the publisher's configured topic and the topic of
  the call is given, and then appends the message to that topic and changes no other; with both or
  neither every call fails and nothing is written. A publisher made with a topic can thus not be given one
  in \<^verbatim>\<open>Publish\<close>, not even the same.\<close>

theorem kafka_one_topic:
  assumes "kafka_broker write_messages topics"
  shows "(case kafka_Publish write_messages (kafka_NewPublisher c) now topic message b of
      (Ok _, b') \<Rightarrow> (kc_Topic c = [] \<longleftrightarrow> topic \<noteq> [])
        \<and> topics b' = (topics b)(kc_Topic c @ topic := topics b (kc_Topic c @ topic) @ [message])
    | _ \<Rightarrow> True)
    \<and> ((kc_Topic c = [] \<longleftrightarrow> topic = []) \<longrightarrow>
        (\<exists>e. kafka_Publish write_messages (kafka_NewPublisher c) now topic message b = (Err e, b)))"
  using kafka_broker.publish_ok [OF assms, of "kafka_NewPublisher c" now topic message b]
    kafka_broker.publish_conflict [OF assms, of "kafka_NewPublisher c" topic now message b]
  by (auto simp: kafka_NewPublisher_def split: prod.splits go.splits)

theorem kafka_one_topic_witness:
  "\<exists>e. kafka_Publish mem_write (kafka_NewPublisher \<lparr>kc_Brokers = [], kc_Topic = go_str ''t'', kc_GroupID = []\<rparr>) 0
      (go_str ''t'') [1] (\<lambda>t. []) = (Err e, \<lambda>t. [])"
  using kafka_one_topic [OF mem_kafka.kafka_broker_axioms, where c = "\<lparr>kc_Brokers = [], kc_Topic = go_str ''t'', kc_GroupID = []\<rparr>"
      and now = 0 and topic = "go_str ''t''" and message = "[1]" and b = "\<lambda>t. []"]
  by (simp add: go_str_def)

text \<open>RabbitMQ: a successful publication puts the message at the end of the queue of its topic, which is made
  when it does not exist, and no message is lost by being published before anyone has subscribed; the
  other queues do not change.\<close>

theorem rabbit_publish_enqueues:
  assumes "amqp_broker cl queues" and "rabbit_Publish wrap cl topic message b = (Ok (), b')"
  shows "queues b' = (queues b)(topic \<mapsto> (case queues b topic of Some ms \<Rightarrow> ms | None \<Rightarrow> []) @ [message])"
  by (rule amqp_broker.publish_ok [OF assms])

theorem rabbit_publish_enqueues_witness:
  "\<exists>b'. rabbit_Publish wrap mem_amqp (go_str ''t'') [1, 2] (\<lambda>q. None) = (Ok (), b') \<and> b' = [go_str ''t'' \<mapsto> [[1, 2]]]"
proof -
  obtain b' where b': "rabbit_Publish wrap mem_amqp (go_str ''t'') [1, 2] (\<lambda>q. None) = (Ok (), b')"
    by (simp add: rabbit_Publish_def mem_amqp_def)
  from rabbit_publish_enqueues [OF mem_amqp.amqp_broker_axioms b'] b' show ?thesis by simp
qed

text \<open>The deliveries a loop receives before it is told to end, and the state the handler leaves after messages.\<close>

fun deliveries :: "'m sub_event list \<Rightarrow> 'm list" where
  "deliveries (Received d # es) = d # deliveries es"
| "deliveries es = []"

definition handled :: "'s sub_handler option \<Rightarrow> 's sub_handler option \<Rightarrow> byte list list \<Rightarrow> 's \<Rightarrow> 's" where
  "handled handler own = fold (\<lambda>m st. snd (deliver handler own m st))"

definition acked :: "'b amqp_client \<Rightarrow> nat list \<Rightarrow> 'b \<Rightarrow> 'b" where
  "acked cl = fold (\<lambda>t b. snd (am_Ack cl t b))"


text \<open>The Kafka and Redis subscribers deliver every message once and in order, to the handler given to \<^verbatim>\<open>Subscribe\<close>
  or else to the subscriber's own, as long as no handler panics: the Kafka loop ends with the first error
  of a read and returns it, the Redis loop with the end of its context or channel, without an error, and
  closes its subscription.\<close>

theorem subscribers_deliver_in_order:
  assumes "\<And>m s. fst (deliver handler own m s) = Ok ()"
    and "pc_Subscribe cl topic b = (ps, b1)" and "pc_Receive cl ps b1 = (Ok (), b2)" and "stop \<in> {CtxDone, ChanClosed}"
  shows "kafka_Subscribe (kafka_NewSubscriber c own) topic handler (map Ok ms @ Err e # rs) st = (Some (Err e), handled handler own ms st)
    \<and> redis_Subscribe wrap cl topic handler (map Received ms @ stop # es) (\<lparr>rs_pubsub = old, rs_handler = own\<rparr>, b, st)
      = (Some (Ok ()), \<lparr>rs_pubsub = Some ps, rs_handler = own\<rparr>, snd (pc_PubSubClose cl ps b2), handled handler own ms st)"
proof
  have step: "deliver handler own m s = (Ok (), snd (deliver handler own m s))" for m s
    using assms(1) [of m s] by (cases "deliver handler own m s") simp
  have "kafka_loop handler own (map Ok ms @ Err e # rs) st = (Some (Err e), handled handler own ms st)"
  proof (induction ms arbitrary: st)
    case (Cons m ms)
    with step [of m st] show ?case by (cases "deliver handler own m st") (simp add: handled_def)
  qed (simp add: handled_def)
  then show "kafka_Subscribe (kafka_NewSubscriber c own) topic handler (map Ok ms @ Err e # rs) st = (Some (Err e), handled handler own ms st)"
    by (simp add: kafka_Subscribe_def kafka_NewSubscriber_def)
  have "redis_loop handler own (map Received ms @ stop # es) st = (Some (Ok ()), handled handler own ms st)"
  proof (induction ms arbitrary: st)
    case (Cons m ms)
    with step [of m st] show ?case by (cases "deliver handler own m st") (simp add: handled_def)
  qed (use assms(4) in \<open>auto simp: handled_def\<close>)
  with assms(2,3) show "redis_Subscribe wrap cl topic handler (map Received ms @ stop # es) (\<lparr>rs_pubsub = old, rs_handler = own\<rparr>, b, st)
      = (Some (Ok ()), \<lparr>rs_pubsub = Some ps, rs_handler = own\<rparr>, snd (pc_PubSubClose cl ps b2), handled handler own ms st)"
    by (simp add: redis_Subscribe_def)
qed

definition collect :: "byte list list sub_handler" where
  "collect m st = (Ok (), st @ [m])"

theorem subscribers_deliver_in_order_witness:
  "kafka_Subscribe (kafka_NewSubscriber \<lparr>kc_Brokers = [], kc_Topic = [], kc_GroupID = []\<rparr> (Some collect)) [] None [Ok [1], Ok [2], Err IoEOF] [] = (Some (Err IoEOF), [[1], [2]])
   \<and> snd (snd (snd (redis_Subscribe id
        \<lparr>pc_Ping = (\<lambda>b. (Ok (), b)), pc_Publish = (\<lambda>t m b. (Ok (), b)), pc_Subscribe = (\<lambda>t b. (7, b)),
         pc_Receive = (\<lambda>n b. (Ok (), b)), pc_Unsubscribe = (\<lambda>n t b. (Ok (), b)), pc_PubSubClose = (\<lambda>n b. (Ok (), b)),
         pc_Close = (\<lambda>b. (Ok (), b))\<rparr> [] None (map Received [[1], [2]] @ [ChanClosed])
        (\<lparr>rs_pubsub = None, rs_handler = Some collect\<rparr>, (), [])))) = [[1], [2]]"
proof -
  let ?cl = "\<lparr>pc_Ping = (\<lambda>b. (Ok (), b)), pc_Publish = (\<lambda>t m b. (Ok (), b)), pc_Subscribe = (\<lambda>t b. (7, b)),
    pc_Receive = (\<lambda>n b. (Ok (), b)), pc_Unsubscribe = (\<lambda>n t b. (Ok (), b)), pc_PubSubClose = (\<lambda>n b. (Ok (), b)),
    pc_Close = (\<lambda>b. (Ok (), b))\<rparr> :: unit pubsub_client"
  have quiet: "fst (deliver None (Some collect) m s) = Ok ()" for m s by (simp add: deliver_def collect_def)
  have cl: "pc_Subscribe ?cl [] () = (7, ())" "pc_Receive ?cl 7 () = (Ok (), ())" by simp_all
  from subscribers_deliver_in_order [OF quiet cl, where stop = ChanClosed and ms = "[[1], [2]]" and e = IoEOF and rs = "[]"
      and st = "[]" and es = "[]" and wrap = id and old = None
      and c = "\<lparr>kc_Brokers = [], kc_Topic = [], kc_GroupID = []\<rparr>"]
  show ?thesis by (simp add: handled_def deliver_def collect_def)
qed

end
