(* ===== verification/ExampleApps.thy ===== *)
theory ExampleApps
  imports ServerApp
begin

text \<open>
  The servers of \<^verbatim>\<open>examples/basic\<close>, \<^verbatim>\<open>examples/advanced\<close> and \<^verbatim>\<open>examples/custom\<close>: their handlers, hooks, middleware,
  plugins and what their \<^verbatim>\<open>main\<close>s register, over the interface the handlers of \<^verbatim>\<open>cmd/server\<close> use. They answer no
  message. \<open>wrap\<close> stands for \<^verbatim>\<open>fmt.Errorf\<close> with \<^verbatim>\<open>%w\<close> and \<open>printf\<close> for the lines of the standard \<^verbatim>\<open>log\<close> package, both
  parameters. Not modelled: the tickers that log statistics and the wait for a signal.
\<close>

section \<open>Texts, in UTF-8\<close>

definition text_processed :: gostring where
  "text_processed = [0xE6, 0xB6, 0x88, 0xE6, 0x81, 0xAF, 0xE5, 0xA4, 0x84, 0xE7, 0x90, 0x86, 0xE6, 0x88,
     0x90, 0xE5, 0x8A, 0x9F]"

definition text_processing_failed :: gostring where
  "text_processing_failed = [0xE6, 0xB6, 0x88, 0xE6, 0x81, 0xAF, 0xE5, 0xA4, 0x84, 0xE7, 0x90, 0x86,
     0xE5, 0xA4, 0xB1, 0xE8, 0xB4, 0xA5]"

definition text_registered :: gostring where
  "text_registered = [0xE7, 0xBB, 0x88, 0xE7, 0xAB, 0xAF, 0xE6, 0xB3, 0xA8, 0xE5, 0x86, 0x8C, 0xE6, 0x88,
     0x90, 0xE5, 0x8A, 0x9F]"

definition text_speeding :: gostring where
  "text_speeding = [0xE6, 0xA3, 0x80, 0xE6, 0xB5, 0x8B, 0xE5, 0x88, 0xB0, 0xE8, 0xB6, 0x85, 0xE9, 0x80,
     0x9F]"

definition text_location :: gostring where
  "text_location = [0xE6, 0x94, 0xB6, 0xE5, 0x88, 0xB0, 0xE4, 0xBD, 0x8D, 0xE7, 0xBD, 0xAE, 0xE4, 0xB8,
     0x8A, 0xE6, 0x8A, 0xA5]"

definition text_connected :: gostring where
  "text_connected = [0xE6, 0x96, 0xB0, 0xE8, 0xBF, 0x9E, 0xE6, 0x8E, 0xA5, 0xE5, 0xBB, 0xBA, 0xE7, 0xAB,
     0x8B]"

definition text_disconnected :: gostring where
  "text_disconnected = [0xE8, 0xBF, 0x9E, 0xE6, 0x8E, 0xA5, 0xE6, 0x96, 0xAD, 0xE5, 0xBC, 0x80]"

definition text_conn_error :: gostring where
  "text_conn_error = [0xE8, 0xBF, 0x9E, 0xE6, 0x8E, 0xA5, 0xE9, 0x94, 0x99, 0xE8, 0xAF, 0xAF]"

definition fmt_registered :: gostring where
  "fmt_registered = [0xE7, 0xBB, 0x88, 0xE7, 0xAB, 0xAF, 0xE6, 0xB3, 0xA8, 0xE5, 0x86, 0x8C, 0xE6, 0x88,
     0x90, 0xE5, 0x8A, 0x9F, 0x3A, 0x20, 0xE8, 0xAE, 0xBE, 0xE5, 0xA4, 0x87, 0x49, 0x44, 0x3D, 0x25,
     0x73, 0x2C, 0x20, 0xE8, 0xBD, 0xA6, 0xE7, 0x89, 0x8C, 0xE5, 0x8F, 0xB7, 0x3D, 0x25, 0x73]"

definition fmt_location :: gostring where
  "fmt_location = [0xE6, 0x94, 0xB6, 0xE5, 0x88, 0xB0, 0xE4, 0xBD, 0x8D, 0xE7, 0xBD, 0xAE, 0xE4, 0xB8,
     0x8A, 0xE6, 0x8A, 0xA5, 0x3A, 0x20, 0xE8, 0xAE, 0xBE, 0xE5, 0xA4, 0x87, 0x49, 0x44, 0x3D, 0x25,
     0x73, 0x2C, 0x20, 0xE7, 0xBA, 0xAC, 0xE5, 0xBA, 0xA6, 0x3D, 0x25, 0x2E, 0x36, 0x66, 0x2C, 0x20,
     0xE7, 0xBB, 0x8F, 0xE5, 0xBA, 0xA6, 0x3D, 0x25, 0x2E, 0x36, 0x66]"

definition fmt_connected :: gostring where
  "fmt_connected = [0xE6, 0x96, 0xB0, 0xE8, 0xBF, 0x9E, 0xE6, 0x8E, 0xA5, 0xE5, 0xBB, 0xBA, 0xE7, 0xAB,
     0x8B, 0x3A, 0x20, 0x25, 0x73]"

definition fmt_disconnected :: gostring where
  "fmt_disconnected = [0xE8, 0xBF, 0x9E, 0xE6, 0x8E, 0xA5, 0xE6, 0x96, 0xAD, 0xE5, 0xBC, 0x80, 0x3A,
     0x20, 0xE8, 0xAE, 0xBE, 0xE5, 0xA4, 0x87, 0x49, 0x44, 0x3D, 0x25, 0x73]"

definition fmt_plugin_location :: gostring where
  "fmt_plugin_location = [0xE4, 0xBD, 0x8D, 0xE7, 0xBD, 0xAE, 0xE6, 0x8F, 0x92, 0xE4, 0xBB, 0xB6, 0xE5,
     0xA4, 0x84, 0xE7, 0x90, 0x86, 0x3A, 0x20, 0xE8, 0xAE, 0xBE, 0xE5, 0xA4, 0x87, 0x49, 0x44, 0x3D,
     0x25, 0x73, 0x2C, 0x20, 0xE7, 0xBA, 0xAC, 0xE5, 0xBA, 0xA6, 0x3D, 0x25, 0x2E, 0x36, 0x66, 0x2C,
     0x20, 0xE7, 0xBB, 0x8F, 0xE5, 0xBA, 0xA6, 0x3D, 0x25, 0x2E, 0x36, 0x66, 0x2C, 0x20, 0xE9, 0x80,
     0x9F, 0xE5, 0xBA, 0xA6, 0x3D, 0x25, 0x64, 0x6B, 0x6D, 0x2F, 0x68]"

definition fmt_speeding :: gostring where
  "fmt_speeding = [0xE6, 0x8A, 0xA5, 0xE8, 0xAD, 0xA6, 0xEF, 0xBC, 0x9A, 0xE8, 0xAE, 0xBE, 0xE5, 0xA4,
     0x87, 0x20, 0x25, 0x73, 0x20, 0xE8, 0xB6, 0x85, 0xE9, 0x80, 0x9F, 0xEF, 0xBC, 0x8C, 0xE5, 0xBD,
     0x93, 0xE5, 0x89, 0x8D, 0xE9, 0x80, 0x9F, 0xE5, 0xBA, 0xA6, 0x20, 0x25, 0x64, 0x6B, 0x6D, 0x2F,
     0x68]"

definition fmt_initialized :: gostring where
  "fmt_initialized = [0xE6, 0x8F, 0x92, 0xE4, 0xBB, 0xB6, 0x20, 0x25, 0x73, 0x20, 0x76, 0x25, 0x73, 0x20,
     0xE5, 0xB7, 0xB2, 0xE5, 0x88, 0x9D, 0xE5, 0xA7, 0x8B, 0xE5, 0x8C, 0x96]"

definition fmt_closed :: gostring where
  "fmt_closed = [0xE6, 0x8F, 0x92, 0xE4, 0xBB, 0xB6, 0x20, 0x25, 0x73, 0x20, 0xE5, 0xB7, 0xB2, 0xE5,
     0x85, 0xB3, 0xE9, 0x97, 0xAD]"

section \<open>\<^verbatim>\<open>examples/basic\<close>\<close>

type_synonym printer = "gostring \<Rightarrow> go_value list \<Rightarrow> gostring"

definition std_log :: "'w app_iface \<Rightarrow> printer \<Rightarrow> gostring \<Rightarrow> go_value list \<Rightarrow> 'w \<Rightarrow> 'w" where
  "std_log I printf fm vs w = ap_upd I (\<lambda>a. a\<lparr>app_lines := app_lines a @ [printf fm vs]\<rparr>) w"

definition basic_on_register :: "(go_error \<Rightarrow> go_error) \<Rightarrow> printer \<Rightarrow> 'w app_iface \<Rightarrow> 'w handler" where
  "basic_on_register wrap printf I ctx conn msg w =
     (case ParseTerminalRegister (Body msg) of
        Panic p \<Rightarrow> (Panic p, w)
      | Err e \<Rightarrow> (Err (wrap e), w)
      | Ok reg \<Rightarrow>
          (let w1 = ap_SetDeviceID I conn (TerminalID reg) w
           in case SaveDevice (ap_DeviceID I conn w1) (Some reg) (app_storage (ap_state I w1)) of
                (Panic p, s) \<Rightarrow> (Panic p, app_store I s w1)
              | (Err e, s) \<Rightarrow> (Err (wrap e), app_store I s w1)
              | (Ok _, s) \<Rightarrow>
                  (Ok (), std_log I printf fmt_registered [VString (TerminalID reg), VString (PlateNo reg)] (app_store I s w1))))"

definition basic_on_location :: "(go_error \<Rightarrow> go_error) \<Rightarrow> printer \<Rightarrow> 'w app_iface \<Rightarrow> 'w handler" where
  "basic_on_location wrap printf I ctx conn msg w =
     (case ParseLocationReport (ap_zone I) (Body msg) of
        Panic p \<Rightarrow> (Panic p, w)
      | Err e \<Rightarrow> (Err (wrap e), w)
      | Ok report \<Rightarrow>
          (let ctx1 = with_value deviceID_key (VString (ap_DeviceID I conn w)) (ctx_values ctx)
           in case SaveLocation ctx1 (Some report) (app_storage (ap_state I w)) of
                (Panic p, s) \<Rightarrow> (Panic p, app_store I s w)
              | (Err e, s) \<Rightarrow> (Err (wrap e), app_store I s w)
              | (Ok _, s) \<Rightarrow>
                  (let w1 = app_store I s w
                   in (Ok (), std_log I printf fmt_location
                         [VString (ap_DeviceID I conn w1), VFloat (LR_Latitude report), VFloat (LR_Longitude report)] w1))))"

definition example_connected :: "printer \<Rightarrow> 'w app_iface \<Rightarrow> nat \<Rightarrow> 'w \<Rightarrow> unit res \<times> 'w" where
  "example_connected printf I conn w = (Ok (), std_log I printf fmt_connected [VString (ap_RemoteAddr I conn w)] w)"

definition example_disconnected :: "printer \<Rightarrow> 'w app_iface \<Rightarrow> nat \<Rightarrow> 'w \<Rightarrow> unit res \<times> 'w" where
  "example_disconnected printf I conn w = (Ok (), std_log I printf fmt_disconnected [VString (ap_DeviceID I conn w)] w)"

definition basic_server :: "(go_error \<Rightarrow> go_error) \<Rightarrow> printer \<Rightarrow> 'w app_iface \<Rightarrow> 'w server" where
  "basic_server wrap printf I =
     OnDisconnect (example_disconnected printf I) (OnConnect (example_connected printf I)
       (RegisterHandler MsgIDLocationReport (basic_on_location wrap printf I)
         (RegisterHandler MsgIDTerminalRegister (basic_on_register wrap printf I) new_server)))"

definition example_config :: TcpConfig where
  "example_config = DefaultConfig\<lparr>ListenAddr := go_str '':8080''\<rparr>"

section \<open>\<^verbatim>\<open>examples/advanced\<close>\<close>

text \<open>The logger of the program writes through the application state, as in \<^verbatim>\<open>cmd/server\<close>.\<close>

definition adv_log :: "'w app_iface \<Rightarrow> log_call \<Rightarrow> gostring \<Rightarrow> LogField list \<Rightarrow> 'w \<Rightarrow> 'w" where
  "adv_log I call msg fs w =
     ap_upd I (\<lambda>a. a\<lparr>app_lines := app_lines a @ fst (call (ap_fmt I) (ap_clock I w) msg fs (NewLogger InfoLevel))\<rparr>) w"

text \<open>\<^verbatim>\<open>CustomStorage.SaveLocation\<close>: the embedded storage's, after its own check of the device ID. The error is the
  example's own; a number stands for it.\<close>

definition DeviceIDMissing :: go_error where
  "DeviceIDMissing = AppError 2"

definition custom_SaveLocation ::
  "context_values \<Rightarrow> LocationReport option \<Rightarrow> MemoryStorage \<Rightarrow> unit res \<times> MemoryStorage" where
  "custom_SaveLocation ctx loc s =
     (if ctx_string ctx deviceID_key = [] then (Err DeviceIDMissing, s) else SaveLocation ctx loc s)"

text \<open>The middleware that counts messages; \<open>now\<close> is the clock of the durations.\<close>

definition adv_statistics :: "('w \<Rightarrow> go_time) \<Rightarrow> 'w app_iface \<Rightarrow> 'w middleware" where
  "adv_statistics now I handle ctx conn msg w =
     (let start = now w
      in case handle ctx conn msg w of
           (Panic p, w1) \<Rightarrow> (Panic p, w1)
         | (Err e, w1) \<Rightarrow>
             (let duration = now w1 - start;
                  w2 = app_metric I IncrMessageErrors (app_metric I IncrReceivedMessages w1)
              in with_header msg (\<lambda>h w.
                   (Err e, adv_log I log_Error text_processing_failed
                      [log_field ''device_id'' (VString (ap_DeviceID I conn w)), log_field ''msg_id'' (VInt (uint (MsgID h))),
                       log_field ''duration'' (VDuration duration), log_field ''error'' (VError e)] w)) w2)
         | (Ok _, w1) \<Rightarrow>
             (let duration = now w1 - start;
                  w2 = app_metric I IncrReceivedMessages w1
              in with_header msg (\<lambda>h w.
                   (Ok (), adv_log I log_Info text_processed
                      [log_field ''device_id'' (VString (ap_DeviceID I conn w)), log_field ''msg_id'' (VInt (uint (MsgID h))),
                       log_field ''duration'' (VDuration duration)] w)) w2))"

definition adv_on_register :: "(go_error \<Rightarrow> go_error) \<Rightarrow> 'w app_iface \<Rightarrow> 'w handler" where
  "adv_on_register wrap I ctx conn msg w =
     (case ParseTerminalRegister (Body msg) of
        Panic p \<Rightarrow> (Panic p, w)
      | Err e \<Rightarrow> (Err (wrap e), w)
      | Ok reg \<Rightarrow>
          (let w1 = ap_SetDeviceID I conn (TerminalID reg) w
           in case SaveDevice (ap_DeviceID I conn w1) (Some reg) (app_storage (ap_state I w1)) of
                (Panic p, s) \<Rightarrow> (Panic p, app_store I s w1)
              | (Err e, s) \<Rightarrow> (Err (wrap e), app_store I s w1)
              | (Ok _, s) \<Rightarrow>
                  (Ok (), adv_log I log_Info text_registered
                     [log_field ''terminal_id'' (VString (TerminalID reg)), log_field ''plate_no'' (VString (PlateNo reg)),
                      log_field ''manufacturer_id'' (VString (ManufacturerID reg))] (app_store I s w1))))"

definition adv_on_location :: "(go_error \<Rightarrow> go_error) \<Rightarrow> 'w app_iface \<Rightarrow> 'w handler" where
  "adv_on_location wrap I ctx conn msg w =
     (case ParseLocationReport (ap_zone I) (Body msg) of
        Panic p \<Rightarrow> (Panic p, w)
      | Err e \<Rightarrow> (Err (wrap e), w)
      | Ok report \<Rightarrow>
          (let ctx1 = with_value deviceID_key (VString (ap_DeviceID I conn w)) (ctx_values ctx)
           in case custom_SaveLocation ctx1 (Some report) (app_storage (ap_state I w)) of
                (Panic p, s) \<Rightarrow> (Panic p, app_store I s w)
              | (Err e, s) \<Rightarrow> (Err (wrap e), app_store I s w)
              | (Ok _, s) \<Rightarrow>
                  (let w1 = app_store I s w;
                       position = [log_field ''latitude'' (VFloat (LR_Latitude report)),
                                   log_field ''longitude'' (VFloat (LR_Longitude report))];
                       speed = log_field ''speed'' (VInt (uint (LR_Speed report)));
                       device = log_field ''device_id'' (VString (ap_DeviceID I conn w1));
                       w2 = (if LR_Speed report > 120
                             then adv_log I log_Warn text_speeding ([device, speed] @ position) w1 else w1)
                   in (Ok (), adv_log I log_Info text_location ([device] @ position @ [speed]) w2))))"

definition active_field :: "'w app_iface \<Rightarrow> 'w \<Rightarrow> LogField" where
  "active_field I w = log_field ''active_connections'' (VInt (sint (m_activeConnections (app_metrics (ap_state I w)))))"

definition adv_on_connected :: "'w app_iface \<Rightarrow> nat \<Rightarrow> 'w \<Rightarrow> unit res \<times> 'w" where
  "adv_on_connected I conn w =
     (let w1 = app_metric I IncrActiveConnections w
      in (Ok (), adv_log I log_Info text_connected
            [log_field ''remote_addr'' (VString (ap_RemoteAddr I conn w1)), active_field I w1] w1))"

definition adv_on_disconnected :: "'w app_iface \<Rightarrow> nat \<Rightarrow> 'w \<Rightarrow> unit res \<times> 'w" where
  "adv_on_disconnected I conn w =
     (let w1 = app_metric I DecrActiveConnections w
      in (Ok (), adv_log I log_Info text_disconnected
            [log_field ''device_id'' (VString (ap_DeviceID I conn w1)), active_field I w1] w1))"

definition adv_on_error :: "'w app_iface \<Rightarrow> nat \<Rightarrow> go_error \<Rightarrow> 'w \<Rightarrow> go_panic option \<times> 'w" where
  "adv_on_error I conn e w =
     (let w1 = app_metric I IncrMessageErrors w
      in (None, adv_log I log_Error text_conn_error
            [log_field ''device_id'' (VString (ap_DeviceID I conn w1)), log_field ''error'' (VError e)] w1))"

definition adv_server ::
  "(go_error \<Rightarrow> go_error) \<Rightarrow> ('w \<Rightarrow> go_time) \<Rightarrow> 'w log_env \<Rightarrow> 'w conn_iface \<Rightarrow> 'w app_iface \<Rightarrow> 'w server" where
  "adv_server wrap now env ops I =
     OnError (adv_on_error I) (OnDisconnect (adv_on_disconnected I) (OnConnect (adv_on_connected I)
       (RegisterHandler MsgIDLocationReport (adv_on_location wrap I)
         (RegisterHandler MsgIDTerminalRegister (adv_on_register wrap I)
           (Use (adv_statistics now I) (Use (Logging env ops (NewLogger InfoLevel)) new_server))))))"

definition adv_config :: TcpConfig where
  "adv_config = DefaultConfig\<lparr>ListenAddr := go_str '':8080'', MaxConnections := 50000,
     ReadTimeout := 60 * 10 ^ 9, WriteTimeout := 60 * 10 ^ 9\<rparr>"

section \<open>\<^verbatim>\<open>examples/custom\<close>\<close>

record plugin =
  pl_Name :: gostring
  pl_Version :: gostring

definition NewLocationPlugin :: plugin where
  "NewLocationPlugin = \<lparr>pl_Name = go_str ''LocationPlugin'', pl_Version = go_str ''1.0.0''\<rparr>"

definition NewAlarmPlugin :: plugin where
  "NewAlarmPlugin = \<lparr>pl_Name = go_str ''AlarmPlugin'', pl_Version = go_str ''1.0.0''\<rparr>"

definition handleLocationReport :: "(go_error \<Rightarrow> go_error) \<Rightarrow> printer \<Rightarrow> 'w app_iface \<Rightarrow> 'w handler" where
  "handleLocationReport wrap printf I ctx conn msg w =
     (case ParseLocationReport (ap_zone I) (Body msg) of
        Panic p \<Rightarrow> (Panic p, w)
      | Err e \<Rightarrow> (Err (wrap e), w)
      | Ok report \<Rightarrow>
          (Ok (), std_log I printf fmt_plugin_location
             [VString (ap_DeviceID I conn w), VFloat (LR_Latitude report), VFloat (LR_Longitude report),
              VInt (uint (LR_Speed report))] w))"

definition checkAlarms :: "printer \<Rightarrow> 'w app_iface \<Rightarrow> nat \<Rightarrow> LocationReport \<Rightarrow> 'w \<Rightarrow> 'w" where
  "checkAlarms printf I conn report w =
     (if LR_Speed report > 120
      then std_log I printf fmt_speeding [VString (ap_DeviceID I conn w), VInt (uint (LR_Speed report))] w
      else w)"

definition alarmDetectionMiddleware :: "printer \<Rightarrow> 'w app_iface \<Rightarrow> 'w middleware" where
  "alarmDetectionMiddleware printf I handle ctx conn msg w =
     reading (msg_id msg) (\<lambda>mid w.
       if mid = MsgIDLocationReport then
         (case ParseLocationReport (ap_zone I) (Body msg) of
            Ok report \<Rightarrow> handle ctx conn msg (checkAlarms printf I conn report w)
          | Err e \<Rightarrow> handle ctx conn msg w
          | Panic p \<Rightarrow> (Panic p, w))
       else handle ctx conn msg w) w"

definition LocationPlugin_Initialize ::
  "(go_error \<Rightarrow> go_error) \<Rightarrow> printer \<Rightarrow> 'w app_iface \<Rightarrow> 'w server \<Rightarrow> 'w server \<times> gostring" where
  "LocationPlugin_Initialize wrap printf I s =
     (RegisterHandler MsgIDLocationReport (handleLocationReport wrap printf I) s,
      printf fmt_initialized [VString (pl_Name NewLocationPlugin), VString (pl_Version NewLocationPlugin)])"

definition AlarmPlugin_Initialize :: "printer \<Rightarrow> 'w app_iface \<Rightarrow> 'w server \<Rightarrow> 'w server \<times> gostring" where
  "AlarmPlugin_Initialize printf I s =
     (Use (alarmDetectionMiddleware printf I) s,
      printf fmt_initialized [VString (pl_Name NewAlarmPlugin), VString (pl_Version NewAlarmPlugin)])"

definition Shutdown_line :: "printer \<Rightarrow> plugin \<Rightarrow> gostring" where
  "Shutdown_line printf p = printf fmt_closed [VString (pl_Name p)]"

text \<open>The plugins are initialised before the other handler is registered, which is the one of \<^verbatim>\<open>examples/basic\<close>.\<close>

definition custom_server :: "(go_error \<Rightarrow> go_error) \<Rightarrow> printer \<Rightarrow> 'w app_iface \<Rightarrow> 'w server" where
  "custom_server wrap printf I =
     OnDisconnect (example_disconnected printf I) (OnConnect (example_connected printf I)
       (RegisterHandler MsgIDTerminalRegister (basic_on_register wrap printf I)
         (fst (AlarmPlugin_Initialize printf I (fst (LocationPlugin_Initialize wrap printf I new_server))))))"

section \<open>Properties\<close>

text \<open>The environment of the advanced example's logging middleware: the program's logger.\<close>

definition adv_env :: "('w \<Rightarrow> go_time) \<Rightarrow> 'w app_iface \<Rightarrow> 'w log_env" where
  "adv_env now I = \<lparr>le_fmt = ap_fmt I, le_clock = ap_clock I, le_now = now, le_stack = (\<lambda>w. []),
     le_emit = (\<lambda>ls. ap_upd I (\<lambda>a. a\<lparr>app_lines := app_lines a @ ls\<rparr>))\<rparr>"

lemmas adv_world = adv_log_def app_metric_def app_store_def log_to_def adv_env_def tcp_app_def upd_stats_def add_Error_def
  IncrMessageErrors_def IncrReceivedMessages_def

text \<open>The advanced example counts an error twice: a location report from a terminal that has not registered is
  refused by the storage, the statistics middleware counts the error, returns it, and the error hook
  counts it again; the server itself counts it once. The message is counted once, nothing is stored, and
  the connection goes on.\<close>

theorem advanced_counts_errors_twice:
  assumes "ParseLocationReport zn (Body m) = Ok report" and "Header m = Some h" and "MsgID h = MsgIDLocationReport"
    and "tcp_DeviceID c w = []"
  shows "\<exists>w'. tcp_dispatch (adv_server wrap now (adv_env now (tcp_app fmt clock zn)) tcp_ops (tcp_app fmt clock zn)) pick c m w
      = (Continue, w')
    \<and> m_messageErrors (app_metrics (tw_app w')) = m_messageErrors (app_metrics (tw_app w)) + 2
    \<and> m_receivedMessages (app_metrics (tw_app w')) = m_receivedMessages (app_metrics (tw_app w)) + 1
    \<and> s_ErrorCount (tw_stats w') = s_ErrorCount (tw_stats w) + 1
    \<and> app_storage (tw_app w') = app_storage (tw_app w)"
proof -
  let ?I = "tcp_app fmt clock zn" let ?srv = "adv_server wrap now (adv_env now ?I) tcp_ops ?I"
  have routed: "route pick (sv_handlers ?srv) MsgIDLocationReport = Some (adv_on_location wrap ?I)"
    by (simp add: adv_server_def OnError_def OnDisconnect_def OnConnect_def RegisterHandler_def Use_def route_def gm_get_put)
  have chain: "apply_middleware (sv_middleware ?srv) k = Logging (adv_env now ?I) tcp_ops (NewLogger InfoLevel) (adv_statistics now ?I k)"
    for k
    by (simp add: adv_server_def OnError_def OnDisconnect_def OnConnect_def RegisterHandler_def Use_def new_server_def
        apply_middleware_def)
  have hooks: "sv_OnError ?srv = [adv_on_error ?I]"
    by (simp add: adv_server_def OnError_def OnDisconnect_def OnConnect_def RegisterHandler_def Use_def new_server_def)
  have refused: "adv_on_location wrap ?I ctx c m v = (Err (wrap DeviceIDMissing), v)" if "tcp_DeviceID c v = []" for v ctx
    using assms(1) that
    by (simp add: adv_on_location_def custom_SaveLocation_def ctx_string_def with_value_def app_store_def tcp_app_def)
  have id: "msg_id m = Ok MsgIDLocationReport" using assms(2,3) by (simp add: msg_id_def)
  let ?run = "Logging (adv_env now ?I) tcp_ops (NewLogger InfoLevel) (adv_statistics now ?I (adv_on_location wrap ?I)) Background c m w"
  let ?w1 = "snd ?run"
  have chained: "?run = (Err (wrap DeviceIDMissing), ?w1)"
    and world: "m_messageErrors (app_metrics (tw_app ?w1)) = m_messageErrors (app_metrics (tw_app w)) + 1"
      "m_receivedMessages (app_metrics (tw_app ?w1)) = m_receivedMessages (app_metrics (tw_app w)) + 1"
      "tw_stats ?w1 = tw_stats w" "app_storage (tw_app ?w1) = app_storage (tw_app w)"
    using assms(4) refused
    by (simp_all add: Logging_def id reading_def adv_statistics_def with_header_def assms(2) Let_def log_to_def adv_env_def
        adv_log_def app_metric_def tcp_app_def tcp_DeviceID_def IncrMessageErrors_def IncrReceivedMessages_def)
  have "tcp_dispatch ?srv pick c m w = report_error (upd_stats (add_Error 1)) ?srv c (wrap DeviceIDMissing) Continue ?w1"
    by (simp only: tcp_dispatch_def id routed chain go.case option.case) (subst chained, simp only: prod.case go.case)
  also have "\<dots> = (Continue, snd (adv_on_error ?I c (wrap DeviceIDMissing) (upd_stats (add_Error 1) ?w1)))"
    by (simp add: report_error_def hooks adv_on_error_def Let_def)
  finally show ?thesis
    using world by (simp add: adv_on_error_def Let_def adv_world)
qed

definition location_message :: "byte list \<Rightarrow> Message" where
  "location_message body = \<lparr>Header = Some \<lparr>MsgID = MsgIDLocationReport, MsgBodyProperty = 0, ProtocolVersion = 0, PhoneNo = [],
     MsgFlowNo = 1, MsgBodyLength = 28, SubPackage = False, Encryption = 0\<rparr>, Body = body, Raw = []\<rparr>"

definition quiet_net :: net_conn where
  "quiet_net = \<lparr>nc_closed = False, nc_reader = \<lparr>pending = [], final_error = IoEOF\<rparr>, nc_buffered = 0, nc_out = [],
     nc_write_error = None, nc_addr = []\<rparr>"

theorem advanced_counts_errors_twice_witness:
  "\<exists>(w :: app_state tcp_world) w'. tcp_dispatch
      (adv_server id tw_now (adv_env tw_now (tcp_app (\<lambda>v. []) (\<lambda>w. []) (fixed_zone 28800))) tcp_ops
        (tcp_app (\<lambda>v. []) (\<lambda>w. []) (fixed_zone 28800))) 0 0 (location_message (replicate 28 0)) w = (Continue, w')
    \<and> m_messageErrors (app_metrics (tw_app w')) = 2 \<and> s_ErrorCount (tw_stats w') = 1"
proof -
  let ?m = "location_message (replicate 28 0)"
  let ?w = "NewTCPServer 0 (new_app 0)\<lparr>tw_conns := [NewTCPConnection quiet_net 0]\<rparr>"
  obtain report where r: "ParseLocationReport (fixed_zone 28800) (Body ?m) = Ok report"
    using body_parsers_total [of "fixed_zone 28800" "Body ?m"]
    by (cases "ParseLocationReport (fixed_zone 28800) (Body ?m)") (auto simp: location_message_def)
  have h: "\<exists>h. Header ?m = Some h \<and> MsgID h = MsgIDLocationReport" by (simp add: location_message_def)
  then obtain h where h: "Header ?m = Some h" "MsgID h = MsgIDLocationReport" by blast
  have d: "tcp_DeviceID 0 ?w = []" by (simp add: tcp_DeviceID_def NewTCPConnection_def)
  from advanced_counts_errors_twice [OF r h d, where wrap = id and now = tw_now and fmt = "\<lambda>v. []" and clock = "\<lambda>w. []" and pick = 0]
  obtain w' where "tcp_dispatch
      (adv_server id tw_now (adv_env tw_now (tcp_app (\<lambda>v. []) (\<lambda>w. []) (fixed_zone 28800))) tcp_ops
        (tcp_app (\<lambda>v. []) (\<lambda>w. []) (fixed_zone 28800))) 0 0 ?m ?w = (Continue, w')"
    "m_messageErrors (app_metrics (tw_app w')) = m_messageErrors (app_metrics (tw_app ?w)) + 2"
    "s_ErrorCount (tw_stats w') = s_ErrorCount (tw_stats ?w) + 1" by blast
  moreover have "m_messageErrors (app_metrics (tw_app ?w)) = 0" "s_ErrorCount (tw_stats ?w) = 0"
    by (simp_all add: NewTCPServer_def new_app_def NewMetrics_def new_stats_def)
  ultimately show ?thesis by (intro exI [of _ ?w] exI [of _ w']) simp
qed

text \<open>The custom example's plugins together: a location report that can be parsed logs one alarm line before its
  report line exactly when its speed field is above 120, which is 12 km/h since the field counts tenths; it
  is not stored, nothing is sent, and the connection goes on.\<close>

theorem custom_plugins:
  assumes "ParseLocationReport zn (Body m) = Ok r" and "Header m = Some h" and "MsgID h = MsgIDLocationReport"
  shows "\<exists>w'. tcp_dispatch (custom_server wrap printf (tcp_app fmt clock zn)) pick c m w = (Continue, w')
    \<and> app_lines (tw_app w') = app_lines (tw_app w)
        @ (if 120 < LR_Speed r then [printf fmt_speeding [VString (tcp_DeviceID c w), VInt (uint (LR_Speed r))]] else [])
        @ [printf fmt_plugin_location [VString (tcp_DeviceID c w), VFloat (LR_Latitude r), VFloat (LR_Longitude r),
             VInt (uint (LR_Speed r))]]
    \<and> app_storage (tw_app w') = app_storage (tw_app w) \<and> tw_conns w' = tw_conns w"
proof -
  let ?I = "tcp_app fmt clock zn" let ?srv = "custom_server wrap printf ?I"
  have routed: "route pick (sv_handlers ?srv) MsgIDLocationReport = Some (handleLocationReport wrap printf ?I)"
    by (simp add: proto_consts custom_server_def OnDisconnect_def OnConnect_def RegisterHandler_def Use_def route_def gm_get_put
        AlarmPlugin_Initialize_def LocationPlugin_Initialize_def)
  have chain: "apply_middleware (sv_middleware ?srv) k = alarmDetectionMiddleware printf ?I k" for k
    by (simp add: custom_server_def OnDisconnect_def OnConnect_def RegisterHandler_def Use_def new_server_def
        AlarmPlugin_Initialize_def LocationPlugin_Initialize_def apply_middleware_def)
  have id: "msg_id m = Ok MsgIDLocationReport" using assms(2,3) by (simp add: msg_id_def)
  have "tcp_dispatch ?srv pick c m w = (case alarmDetectionMiddleware printf ?I (handleLocationReport wrap printf ?I) Background c m w of
      (Ok _, w1) \<Rightarrow> (Continue, w1)
    | (Err e, w1) \<Rightarrow> report_error (upd_stats (add_Error 1)) ?srv c e Continue w1
    | (Panic p, w1) \<Rightarrow> (Crash p, w1))"
    by (simp only: tcp_dispatch_def id routed chain go.case option.case)
  then show ?thesis
    using assms(1)
    by (simp add: alarmDetectionMiddleware_def reading_def id handleLocationReport_def checkAlarms_def std_log_def tcp_app_def
        tcp_DeviceID_def)
qed

theorem custom_plugins_witness:
  "\<exists>(w :: app_state tcp_world) w'. tcp_dispatch
      (custom_server id (\<lambda>f vs. f) (tcp_app (\<lambda>v. []) (\<lambda>w. []) (fixed_zone 28800))) 0 0
        (location_message (replicate 18 0 @ [0, 121] @ replicate 8 0)) w = (Continue, w')
    \<and> app_lines (tw_app w') = [fmt_speeding, fmt_plugin_location]"
proof -
  let ?m = "location_message (replicate 18 0 @ [0, 121] @ replicate 8 0)"
  let ?w = "NewTCPServer 0 (new_app 0)"
  obtain r where r: "ParseLocationReport (fixed_zone 28800) (Body ?m) = Ok r"
    using body_parsers_total [of "fixed_zone 28800" "Body ?m"]
    by (cases "ParseLocationReport (fixed_zone 28800) (Body ?m)") (auto simp: location_message_def)
  have "u16_be 0 121 = 121" by code_simp
  with r have speed: "LR_Speed r = 121"
    by (auto simp: ParseLocationReport_def location_message_def go_bind_Ok_iff body_u16_def)
  obtain h where h: "Header ?m = Some h" "MsgID h = MsgIDLocationReport" by (simp add: location_message_def)
  from custom_plugins [OF r h, where wrap = id and printf = "\<lambda>f vs. f" and fmt = "\<lambda>v. []" and clock = "\<lambda>w. []" and pick = 0 and c = 0 and w = ?w]
  obtain w' where w': "tcp_dispatch (custom_server id (\<lambda>f vs. f) (tcp_app (\<lambda>v. []) (\<lambda>w. []) (fixed_zone 28800))) 0 0 ?m ?w = (Continue, w')"
    "app_lines (tw_app w') = app_lines (tw_app ?w) @ [fmt_speeding, fmt_plugin_location]"
    by (auto simp: speed)
  moreover have "app_lines (tw_app ?w) = []" by (simp add: NewTCPServer_def new_app_def)
  ultimately show ?thesis by (intro exI [of _ ?w] exI [of _ w']) simp
qed

end
