(* ===== verification/WellTyped.thy ===== *)
theory WellTyped
  imports FrameReader
begin

text \<open>
  The messages the readers hand to the handlers are well formed: what the header says of the body and the
  flags is what the wire held.
\<close>

definition wf_message :: "Message \<Rightarrow> bool" where
  "wf_message m \<longleftrightarrow> (case Header m of None \<Rightarrow> False | Some h \<Rightarrow>
     length (Body m) = unat (MsgBodyLength h) \<and> length (Body m) \<le> 1023
     \<and> MsgBodyLength h = MsgBodyProperty h AND MsgBodyPropertyLengthMask
     \<and> SubPackage h = (MsgBodyProperty h AND MsgBodyPropertySubPackageFlag \<noteq> 0)
     \<and> uint (Encryption h) \<le> 7
     \<and> (ProtocolVersion h > 0 \<longrightarrow> MsgBodyProperty h AND MsgBodyPropertyVersionFlag \<noteq> 0)
     \<and> list_all is_digit (PhoneNo h) \<and> length (PhoneNo h) \<le> (if ProtocolVersion h > 0 then 20 else 12))"

lemma decodeHeader_well_typed:
  assumes "decodeHeader data = Ok (h, start)"
  shows "MsgBodyLength h = MsgBodyProperty h AND MsgBodyPropertyLengthMask
     \<and> SubPackage h = (MsgBodyProperty h AND MsgBodyPropertySubPackageFlag \<noteq> 0)
     \<and> Encryption h = ucast (drop_bit 10 (MsgBodyProperty h AND MsgBodyPropertyEncryptionMask))
     \<and> (ProtocolVersion h > 0 \<longrightarrow> MsgBodyProperty h AND MsgBodyPropertyVersionFlag \<noteq> 0)
     \<and> (\<exists>phone. PhoneNo h = decodeBCD phone \<and> length phone \<le> (if ProtocolVersion h > 0 then 10 else 6))"
  using assms
  by (auto simp: decodeHeader_def go_bind_Ok_iff Let_def phone_lengths go_slice_def split: if_splits prod.splits)

lemma encryption_bits: "uint (ucast (drop_bit 10 (p AND MsgBodyPropertyEncryptionMask) :: uint16) :: uint8) \<le> 7"
proof -
  have "drop_bit 10 (p AND MsgBodyPropertyEncryptionMask) = drop_bit 10 p AND 7" for p :: uint16
    by (simp add: proto_consts drop_bit_and)
  moreover have "x AND 7 \<le> 7" for x :: uint16 by (rule word_and_le1)
  ultimately have "uint (drop_bit 10 (p AND MsgBodyPropertyEncryptionMask)) \<le> 7"
    by (simp add: word_le_def)
  then show ?thesis by (simp add: unsigned_ucast_eq take_bit_eq_mod uint_lt2p [THEN order.strict_implies_order])
qed

lemma length_bits: "unat (p AND MsgBodyPropertyLengthMask :: uint16) \<le> 1023"
proof -
  have "p AND 1023 \<le> 1023" by (rule word_and_le1)
  then show ?thesis by (simp add: proto_consts word_le_nat_alt)
qed

lemma Decode_wf:
  assumes "Decode data = Ok m"
  shows "wf_message m" and "Raw m = data"
proof -
  obtain u h start where u: "decodeHeader (butlast u) = Ok (h, start)" "start + unat (MsgBodyLength h) = length u - 1"
    and m: "m = \<lparr>Header = Some h, Body = drop start (butlast u), Raw = data\<rparr>"
    using assms by (auto simp: Decode_eq decode_payload_def go_bind_Ok_iff split: if_splits)
  obtain phone where phone: "PhoneNo h = decodeBCD phone" "length phone \<le> (if ProtocolVersion h > 0 then 10 else 6)"
    using decodeHeader_well_typed [OF u(1)] by blast
  have "length (PhoneNo h) \<le> (if ProtocolVersion h > 0 then 20 else 12)"
    using length_decodeBCD_le [of phone] phone by (auto split: if_splits)
  moreover have "length (drop start (butlast u)) = unat (MsgBodyLength h)" using u(2) by simp
  moreover have "unat (MsgBodyLength h) \<le> 1023" using decodeHeader_well_typed [OF u(1)] length_bits by simp
  ultimately show "wf_message m" using decodeHeader_well_typed [OF u(1)] phone(1) encryption_bits
    by (simp add: wf_message_def m decodeBCD_digits)
  show "Raw m = data" by (simp add: m)
qed

text \<open>C27. Every message that the readers of the two servers return, and so every message a handler ever gets from
  a connection, is well formed: it has a header; the body is as long as the header and the property word
  say, at most 1023 bytes; the sub-package, encryption and version fields agree with the word; and the
  phone number is of decimal digits, at most 12 or, with a version, 20 of them.\<close>

theorem messages_well_formed:
  assumes "fst (readMessage n r) = Ok m \<or> fst (fst (hp_readMessage n pool r)) = Ok m"
  shows "wf_message m"
proof -
  have "fst (readMessage n r) = Ok m" using assms by (simp add: hp_readMessage_eq)
  then obtain data where "Decode data = Ok m"
    by (auto simp: readMessage_def split: prod.splits go.splits if_splits)
  then show ?thesis by (rule Decode_wf(1))
qed

theorem messages_well_formed_witness:
  "\<exists>m. fst (readMessage 4096 \<lparr>pending = sample_frame, final_error = IoEOF\<rparr>) = Ok m \<and> wf_message m"
proof -
  let ?r = "\<lparr>pending = sample_frame, final_error = IoEOF\<rparr>"
  have "(case fst (readMessage 4096 ?r) of Ok m \<Rightarrow> True | _ \<Rightarrow> False) = True" by code_simp
  then obtain m where m: "fst (readMessage 4096 ?r) = Ok m" by (cases "fst (readMessage 4096 ?r)") simp_all
  with messages_well_formed [of 4096 ?r m "[]"] show ?thesis by blast
qed

end
