(* ===== verification/Spec2Isabelle.thy ===== *)
theory Spec2Isabelle
  imports FrameReader BodyParsers ConnPools MemoryStorage Metrics ConfigStore WorkerPools TcpProps HpProps CloseProtocol AppProps
    RedisStorage SqlProps Publishers ExampleApps WellTyped
begin

text \<open>
  A model of the JT/T 808 Go SDK: a server for vehicle terminals that frame their messages by JT/T 808 over
  TCP. This theory imports all others. The parts of the program, in the order a message passes them, and
  the theories that model them:

  \<^descr> \<^emph>\<open>Values.\<close> \<open>GoBase\<close>: machine integers as words, strings and slices as lists of bytes, the outcome of a call as
  \<open>Ok\<close>, \<open>Err\<close> or \<open>Panic\<close> with \<open>go_bind\<close> for early returns, index and slice expressions that panic, big-endian accessors.
  \<open>Float64\<close>: doubles as the rationals they are, with rounding to the nearest. \<open>GoTime\<close>: \<^verbatim>\<open>time.Date\<close> and instants as
  nanoseconds. \<open>CoreTypes\<close>: the types and errors of \<^verbatim>\<open>core/interface.go\<close>. \<open>ProtocolTypes\<close>: \<^verbatim>\<open>protocol/types/constants.go\<close>.

  \<^descr> \<^emph>\<open>Frames.\<close> \<open>Escape\<close>, \<open>Bcd\<close> and \<open>Codec\<close>: \<^verbatim>\<open>escape\<close>, \<^verbatim>\<open>unescape\<close>, the checksum, BCD phone numbers, \<^verbatim>\<open>encodeHeader\<close>,
  \<^verbatim>\<open>decodeHeader\<close>, \<^verbatim>\<open>Encode\<close> and \<^verbatim>\<open>Decode\<close> of \<^verbatim>\<open>protocol/codec.go\<close>. \<open>FrameReader\<close>: the \<^verbatim>\<open>readMessage\<close> of the two servers over
  the bytes the peer sends and the error that ends them. \<open>BodyParsers\<close>: \<^verbatim>\<open>ParseLocationReport\<close>,
  \<^verbatim>\<open>ParseTerminalRegister\<close>, \<^verbatim>\<open>parseBCDTime\<close>. Shown: both round trips, one outcome for every input, detection of
  corrupted bytes, bounds on what a reader takes, equality of the two readers, every field of a parsed
  body. \<open>WellTyped\<close>: what the readers return is well formed.

  \<^descr> \<^emph>\<open>Registries.\<close> \<open>Registry\<close>: Go maps, and the locales \<open>registry\<close>, \<open>registry_delete\<close>, \<open>registry_enum\<close> and \<open>registry_cad\<close>, what
  the servers need of a map from device IDs to connections. \<open>ConnPools\<close>: the sharded pools of \<^verbatim>\<open>core/pool.go\<close>
  and \<^verbatim>\<open>transport/tcp_highperf.go\<close>, which interpret them. Shown: a pool refines a map, its counts are exact, and
  \<^verbatim>\<open>DeleteConn\<close> removes the entry of its own connection only.

  \<^descr> \<^emph>\<open>Servers.\<close> \<open>Middleware\<close>: \<^verbatim>\<open>middleware/\<close> as functions on handlers over the locale \<open>conn_attributes\<close>. \<open>Logger\<close>:
  \<^verbatim>\<open>logger/logger.go\<close>. \<open>ServerBase\<close>: handlers, hooks and statistics of both servers. \<open>WorkerPools\<close>: the pools of
  \<^verbatim>\<open>core/worker.go\<close> and of the high-performance server. \<open>TcpServer\<close> and \<open>TcpProps\<close>: \<^verbatim>\<open>transport/tcp.go\<close>. \<open>HpServer\<close>,
  \<open>HpInv\<close> and \<open>HpProps\<close>: \<^verbatim>\<open>transport/tcp_highperf.go\<close>. \<open>CloseProtocol\<close>: the locking of its \<^verbatim>\<open>Send\<close> and \<^verbatim>\<open>Close\<close>.
  Shown: invariants of every reachable state, what \<^verbatim>\<open>Stop\<close> does and that the goroutines end, the order in
  which messages are handled and frames are sent, which connections a registry knows.

  \<^descr> \<^emph>\<open>Storages and messages.\<close> \<open>MemoryStorage\<close>: \<^verbatim>\<open>storage/memory.go\<close>, which answers from the last 1000 reports of the
  history of its calls. \<open>StorageBase\<close>: histories of saves and decimal numerals. \<open>RedisStorage\<close>: \<^verbatim>\<open>storage/redis\<close>.
  \<open>SqlStorage\<close> and \<open>SqlProps\<close>: \<^verbatim>\<open>storage/mysql\<close> and \<^verbatim>\<open>storage/postgres\<close>, their statements over typed tables. \<open>Publishers\<close>:
  \<^verbatim>\<open>publisher/kafka\<close>, \<^verbatim>\<open>publisher/redis\<close> and \<^verbatim>\<open>publisher/rabbitmq\<close>. Shown: when the storages agree with the memory
  storage and where they do not, and in what order and how often messages are delivered. \<open>Metrics\<close> and
  \<open>ConfigStore\<close>: \<^verbatim>\<open>metrics/metrics.go\<close> and \<^verbatim>\<open>config/config.go\<close>.

  \<^descr> \<^emph>\<open>Programs.\<close> \<open>ServerApp\<close> and \<open>AppProps\<close>: \<^verbatim>\<open>cmd/server\<close> and \<^verbatim>\<open>cmd/highperf\<close>, whose handlers are written once over the locale
  \<open>application\<close> that both servers interpret. \<open>ExampleApps\<close>: the three programs of \<^verbatim>\<open>examples/\<close>. Shown: the state of the
  whole program, a session of a terminal from its registration to the answers of the storage, replies
  byte by byte.

  \<^bold>\<open>State and steps.\<close> A server is a record of its fields (\<open>tcp_world\<close>, \<open>hp_world\<close>); connections are indices into its list of
  connections, so that an alias is an equal index. Operations are functions from the world to an outcome
  and a new world. A system adds the phase of each connection's goroutine and the panic that ended the
  process, if any; \<open>tcp_step\<close> and \<open>hp_step\<close> interleave accepting, the goroutines of the connections, the workers, the write
  loops, calls of the application, the clock and \<^verbatim>\<open>Stop\<close>. One step of a goroutine is one iteration of its loop,
  its part before the loop, or its deferred functions; a handler runs within the step of its message, as
  its calls on other connections go through \<^verbatim>\<open>sync.Map\<close>, atomics and the connections' mutexes. Where finer steps
  matter, in \<^verbatim>\<open>Send\<close> and \<^verbatim>\<open>Close\<close> of a high-performance connection, \<open>CloseProtocol\<close> has one step per atomic operation. A
  handler or hook may be any function that acts on the server through the methods of a connection
  (\<open>server_ok\<close>); a connect hook may not claim a device ID, since the
  clean-up that would release it is not yet deferred when the hook runs.

  \<^bold>\<open>Parameters.\<close> The text of a logged value (\<open>fmt\<close>) and of a time (\<open>clock\<close>); the zone of \<^verbatim>\<open>time.Local\<close>; the choices of
  Go: the handler picked from a map (\<open>pick\<close>), whether a deadline passes (\<open>in_time\<close>); the clients of Redis, SQL databases,
  Kafka and RabbitMQ and the encoder of JSON, as records of their operations. What the code relies on of
  these is a locale (\<open>redis_server\<close>, \<open>sql_server\<close>, \<open>kafka_broker\<close>, \<open>amqp_broker\<close>) with an in-memory interpretation. \<open>wrap\<close> stands for
  \<^verbatim>\<open>fmt.Errorf\<close> with \<^verbatim>\<open>%w\<close>.

  \<^bold>\<open>Termination.\<close> There is no fuel: every loop of the code that is modelled as a function ends, by structural
  recursion or a measure on the bytes still to come; loops that run for ever (accept, workers, subscribers)
  are step relations or run over the list of what they receive.

  \<^bold>\<open>Not modelled.\<close> Listening, dialling, deadlines and socket options; the memory model below the atomic
  operations; wrap-around of a counter after \<open>2 ^ 63\<close> events is modelled, the size of memory is not; the
  change \<^verbatim>\<open>Encode\<close> makes to the caller's header when \<^verbatim>\<open>Send\<close> is given a shared one, which \<open>Encode\<close> returns and \<open>tcp_Send\<close>
  drops; negative zeros, infinities and NaN, which no operation of the code makes; tickers and signals of
  the programs; expiry of Redis keys, connection pools of SQL drivers; the programs under \<^verbatim>\<open>test/\<close>, which hold no
  logic of the SDK, and the unit tests.
\<close>

end
